(* ===== verification/Orion_Prelude.thy ===== *)
theory Orion_Prelude
  imports Main "HOL-Library.Multiset" "HOL-Library.AList" "HOL-Library.Char_ord"
    "HOL-Library.List_Lexorder" "HOL-Library.Sublist"
begin

text \<open>
  Shared vocabulary of the OrionQueue development: what the Go sources use of the Go
  language and its standard library.  Slices with their nil value, signed machine
  integers with wrap-around, error values with wrapping (\<^verbatim>\<open>fmt.Errorf("%w")\<close>,
  \<^verbatim>\<open>errors.Is\<close>, \<^verbatim>\<open>errors.As\<close>), decimal formatting, \<^verbatim>\<open>strings.TrimSpace\<close>,
  and sorting by a \<^verbatim>\<open>less\<close> function (\<^verbatim>\<open>sort.Slice\<close>, \<^verbatim>\<open>sort.SliceStable\<close>).
\<close>

named_theorems wrap_simps \<open>machine arithmetic that does not overflow\<close>
named_theorems sort_simps \<open>facts on sorting by a less function\<close>

section \<open>Slices\<close>

text \<open>A Go slice is nil or holds elements; ranging over nil is ranging over nothing.\<close>

type_synonym 'a slice = "'a list option"

fun elems :: "'a slice \<Rightarrow> 'a list" where
  "elems None = []"
| "elems (Some xs) = xs"

text \<open>\<^verbatim>\<open>append([]T(nil), xs...)\<close>: a copy, nil when there is nothing to copy.\<close>

definition copy_slice :: "'a list \<Rightarrow> 'a slice" where
  "copy_slice xs = (if xs = [] then None else Some xs)"

lemma elems_copy_slice [simp]: "elems (copy_slice xs) = xs"
  by (simp add: copy_slice_def)

section \<open>Machine integers\<close>

type_synonym Time = int \<comment> \<open>an instant, in nanoseconds\<close>

definition in_i32 :: "int \<Rightarrow> bool" where
  "in_i32 x \<longleftrightarrow> - (2 ^ 31) \<le> x \<and> x < 2 ^ 31"

definition in_u32 :: "int \<Rightarrow> bool" where
  "in_u32 x \<longleftrightarrow> 0 \<le> x \<and> x < 2 ^ 32"

definition in_i64 :: "int \<Rightarrow> bool" where
  "in_i64 x \<longleftrightarrow> - (2 ^ 63) \<le> x \<and> x < 2 ^ 63"

definition i32 :: "int \<Rightarrow> int" where
  "i32 x = (x + 2 ^ 31) mod 2 ^ 32 - 2 ^ 31"

definition i64 :: "int \<Rightarrow> int" where
  "i64 x = (x + 2 ^ 63) mod 2 ^ 64 - 2 ^ 63"

lemma i32_id [wrap_simps]: "in_i32 x \<Longrightarrow> i32 x = x"
  by (simp add: in_i32_def i32_def)

lemma i64_id [wrap_simps]: "in_i64 x \<Longrightarrow> i64 x = x"
  by (simp add: in_i64_def i64_def)

lemma in_i32_i32 [simp, intro]: "in_i32 (i32 x)"
proof -
  have "0 \<le> (x + 2 ^ 31) mod 2 ^ 32" and "(x + 2 ^ 31) mod 2 ^ 32 < 2 ^ 32" by simp_all
  then show ?thesis by (simp add: in_i32_def i32_def)
qed

lemma in_i64_i64 [simp, intro]: "in_i64 (i64 x)"
proof -
  have "0 \<le> (x + 2 ^ 63) mod 2 ^ 64" and "(x + 2 ^ 63) mod 2 ^ 64 < 2 ^ 64" by simp_all
  then show ?thesis by (simp add: in_i64_def i64_def)
qed

section \<open>Error values\<close>

text \<open>
  The sentinel errors of the packages \<^verbatim>\<open>jobs\<close>, \<^verbatim>\<open>workers\<close> and \<^verbatim>\<open>leases\<close>, the
  \<^verbatim>\<open>rpctypes.ErrLeaseNotFound\<close> of the etcd client, \<^verbatim>\<open>pgx.ErrNoRows\<close>, the two
  \<^verbatim>\<open>ValidationError\<close> types, any other error by its text, and wrapping:
  \<open>Wrap p e s\<close> is \<^verbatim>\<open>fmt.Errorf(p + "%w" + s, e)\<close>.
\<close>

datatype goerr =
    Jobs_ErrNotFound
  | Jobs_ErrInvalidState
  | Jobs_ErrRetryLimitExceeded
  | Jobs_ValidationError "string list"
  | Workers_ErrNotFound
  | Workers_ErrInvalidState
  | Workers_ValidationError "string list"
  | ErrLeaseNotFound
  | Rpc_ErrLeaseNotFound
  | Pgx_ErrNoRows
  | Plain string
  | Wrap string goerr string

fun errors_Is :: "goerr \<Rightarrow> goerr \<Rightarrow> bool" where
  "errors_Is (Wrap p e s) t = (Wrap p e s = t \<or> errors_Is e t)"
| "errors_Is e t = (e = t)"

text \<open>\<^verbatim>\<open>errors.As\<close> for the two pointer types \<^verbatim>\<open>*jobs.ValidationError\<close> and
  \<^verbatim>\<open>*workers.ValidationError\<close>.\<close>

fun errors_As_Jobs_ValidationError :: "goerr \<Rightarrow> string list option" where
  "errors_As_Jobs_ValidationError (Jobs_ValidationError ps) = Some ps"
| "errors_As_Jobs_ValidationError (Wrap p e s) = errors_As_Jobs_ValidationError e"
| "errors_As_Jobs_ValidationError e = None"

fun errors_As_Workers_ValidationError :: "goerr \<Rightarrow> string list option" where
  "errors_As_Workers_ValidationError (Workers_ValidationError ps) = Some ps"
| "errors_As_Workers_ValidationError (Wrap p e s) = errors_As_Workers_ValidationError e"
| "errors_As_Workers_ValidationError e = None"

type_synonym 'a result = "goerr + 'a"

text \<open>Validators collect a problem per failed check.\<close>

lemma problem_Nil:
  "((if c then x # xs else []) = []) \<longleftrightarrow> \<not> c"
  "((if c then x # xs else if d then y # ys else []) = []) \<longleftrightarrow> \<not> c \<and> \<not> d"
  by auto

section \<open>Decimal numbers\<close>

definition digit_char :: "nat \<Rightarrow> char" where
  "digit_char d = char_of (48 + d)"

fun nat_digits :: "nat \<Rightarrow> string" where
  "nat_digits n = (if n < 10 then [digit_char n] else nat_digits (n div 10) @ [digit_char (n mod 10)])"

declare nat_digits.simps [simp del]

text \<open>\<^verbatim>\<open>strconv.Itoa\<close> and \<^verbatim>\<open>%d\<close>.\<close>

definition itoa :: "int \<Rightarrow> string" where
  "itoa i = (if i < 0 then CHR ''-'' # nat_digits (nat (- i)) else nat_digits (nat i))"

section \<open>strings.Join\<close>

fun strings_Join :: "string list \<Rightarrow> string \<Rightarrow> string" where
  "strings_Join [] sep = []"
| "strings_Join [s] sep = s"
| "strings_Join (s # t # ts) sep = s @ sep @ strings_Join (t # ts) sep"

text \<open>\<^verbatim>\<open>strings.HasPrefix\<close>.\<close>

definition HasPrefix :: "string \<Rightarrow> string \<Rightarrow> bool" where
  "HasPrefix s pre \<longleftrightarrow> take (length pre) s = pre"

section \<open>strings.TrimSpace\<close>

text \<open>
  Strings are byte strings.  \<^verbatim>\<open>TrimSpace\<close> strips leading and trailing white space as
  \<^verbatim>\<open>unicode.IsSpace\<close> defines it; the list holds the UTF-8 encodings of those code points.
\<close>

definition ascii_spaces :: "string list" where
  "ascii_spaces = map (\<lambda>n. [char_of (n :: nat)]) [9, 10, 11, 12, 13, 32]"

definition unicode_spaces :: "string list" where
  "unicode_spaces = map (map (\<lambda>n. char_of (n :: nat)))
     ([[194, 133], [194, 160], [225, 154, 128]]
      @ map (\<lambda>b. [226, 128, b]) ([128, 129, 130, 131, 132, 133, 134, 135, 136, 137, 138] @ [168, 169, 175])
      @ [[226, 129, 159], [227, 128, 128]])"

definition space_encodings :: "string list" where
  "space_encodings = ascii_spaces @ unicode_spaces"

fun strip_one :: "string list \<Rightarrow> string \<Rightarrow> string option" where
  "strip_one [] s = None"
| "strip_one (p # ps) s = (if p \<noteq> [] \<and> prefix p s then Some (drop (length p) s) else strip_one ps s)"

lemma strip_one_shorter: "strip_one ps s = Some t \<Longrightarrow> length t < length s"
  by (induction ps) (auto split: if_splits simp: prefix_def)

function trim_left :: "string list \<Rightarrow> string \<Rightarrow> string" where
  "trim_left ps s = (case strip_one ps s of None \<Rightarrow> s | Some t \<Rightarrow> trim_left ps t)"
  by pat_completeness auto
termination
  by (relation "measure (\<lambda>(ps, s). length s)") (auto dest: strip_one_shorter)

declare trim_left.simps [simp del]

definition TrimSpace :: "string \<Rightarrow> string" where
  "TrimSpace s =
     (let l = trim_left space_encodings s
      in rev (trim_left (map rev space_encodings) (rev l)))"

lemma trim_left_stops: "strip_one ps (trim_left ps s) = None"
proof (induction ps s rule: trim_left.induct)
  case (1 ps s)
  then show ?case
    by (cases "strip_one ps s") (simp_all add: trim_left.simps [of ps s])
qed

lemma TrimSpace_empty: "TrimSpace [] = []"
  by (simp add: TrimSpace_def space_encodings_def ascii_spaces_def unicode_spaces_def trim_left.simps)

text \<open>A string that begins and ends with a printable ASCII character has nothing to trim.\<close>

definition printable :: "char \<Rightarrow> bool" where
  "printable c \<longleftrightarrow> 33 \<le> (of_char c :: nat) \<and> (of_char c :: nat) \<le> 126"

lemma space_ends_all: "list_all (\<lambda>p. p \<noteq> [] \<and> \<not> printable (hd p) \<and> \<not> printable (last p)) space_encodings"
  by (simp add: space_encodings_def ascii_spaces_def unicode_spaces_def printable_def)

lemma space_ends: "p \<in> set space_encodings \<Longrightarrow> p \<noteq> [] \<and> \<not> printable (hd p) \<and> \<not> printable (last p)"
  using space_ends_all by (simp add: list_all_iff)

lemma strip_one_None:
  "s \<noteq> [] \<Longrightarrow> printable (hd s) \<Longrightarrow> \<forall>p \<in> set ps. p \<noteq> [] \<and> \<not> printable (hd p) \<Longrightarrow> strip_one ps s = None"
  by (induction ps) (auto simp: prefix_def hd_append)

lemma TrimSpace_printable:
  assumes "s \<noteq> []" "printable (hd s)" "printable (last s)"
  shows "TrimSpace s = s"
proof -
  have "strip_one space_encodings s = None"
    by (rule strip_one_None) (use assms space_ends in auto)
  moreover have "strip_one (map rev space_encodings) (rev s) = None"
    by (rule strip_one_None) (use assms space_ends in \<open>auto simp: hd_rev\<close>)
  ultimately show ?thesis by (simp add: TrimSpace_def trim_left.simps)
qed
section \<open>Sorting by a less function\<close>

text \<open>
  \<^verbatim>\<open>sort.SliceStable\<close> is insertion sort up to efficiency: both put the elements in
  order and keep equal elements in place.  \<^verbatim>\<open>sort.Slice\<close> promises the order only;
  where the less function is total on the slice the two agree (lemma \<open>sort_unique\<close>).
\<close>

fun insert_by :: "('a \<Rightarrow> 'a \<Rightarrow> bool) \<Rightarrow> 'a \<Rightarrow> 'a list \<Rightarrow> 'a list" where
  "insert_by lt x [] = [x]"
| "insert_by lt x (y # ys) = (if lt y x then y # insert_by lt x ys else x # y # ys)"

definition sort_slice :: "('a \<Rightarrow> 'a \<Rightarrow> bool) \<Rightarrow> 'a list \<Rightarrow> 'a list" where
  "sort_slice lt xs = foldr (insert_by lt) xs []"

lemma sort_slice_simps [simp]:
  "sort_slice lt [] = []"
  "sort_slice lt (x # xs) = insert_by lt x (sort_slice lt xs)"
  by (simp_all add: sort_slice_def)

lemma mset_insert_by [sort_simps]: "mset (insert_by lt x ys) = add_mset x (mset ys)"
  by (induction ys) auto

lemma mset_sort_slice [sort_simps, simp]: "mset (sort_slice lt xs) = mset xs"
  by (induction xs) (simp_all add: mset_insert_by)

lemma set_sort_slice [sort_simps, simp]: "set (sort_slice lt xs) = set xs"
  by (metis mset_sort_slice set_mset_mset)

lemma length_sort_slice [sort_simps, simp]: "length (sort_slice lt xs) = length xs"
  by (metis mset_sort_slice size_mset)

lemma distinct_map_sort_slice [sort_simps, simp]:
  "distinct (map f (sort_slice lt xs)) = distinct (map f xs)"
proof -
  have "mset (map f (sort_slice lt xs)) = mset (map f xs)" by simp
  then show ?thesis by (rule mset_eq_imp_distinct_iff)
qed

abbreviation ordered_by :: "('a \<Rightarrow> 'a \<Rightarrow> bool) \<Rightarrow> 'a list \<Rightarrow> bool" where
  "ordered_by lt xs \<equiv> sorted_wrt (\<lambda>a b. \<not> lt b a) xs"

text \<open>What \<^verbatim>\<open>package sort\<close> requires of a less function: a strict weak order.\<close>

locale less_fun =
  fixes lt :: "'a \<Rightarrow> 'a \<Rightarrow> bool"
  assumes lt_asym: "lt a b \<Longrightarrow> \<not> lt b a"
    and lt_neg_trans: "\<not> lt a b \<Longrightarrow> \<not> lt b c \<Longrightarrow> \<not> lt a c"
begin

lemma ordered_insert_by: "ordered_by lt ys \<Longrightarrow> ordered_by lt (insert_by lt x ys)"
proof (induction ys)
  case (Cons y ys)
  have mem: "z \<in> set (insert_by lt x ys) \<Longrightarrow> z = x \<or> z \<in> set ys" for z
    by (metis insert_iff mset_insert_by set_mset_add_mset_insert set_mset_mset)
  show ?case
  proof (cases "lt y x")
    case True
    with Cons mem show ?thesis by (auto dest: lt_asym)
  next
    case False
    with Cons show ?thesis by (auto dest: lt_neg_trans)
  qed
qed simp

lemma ordered_sort: "ordered_by lt (sort_slice lt xs)"
  by (induction xs) (simp_all add: ordered_insert_by)

lemma sort_id: "ordered_by lt xs \<Longrightarrow> sort_slice lt xs = xs"
proof (induction xs)
  case (Cons x xs)
  then show ?case by (cases xs) auto
qed simp

end

text \<open>
  A less function that decides by a key: elements it does not separate have the same key.
  On a slice with distinct keys there is then only one ordered permutation.
\<close>

locale keyed_less = less_fun lt for lt :: "'a \<Rightarrow> 'a \<Rightarrow> bool" +
  fixes key :: "'a \<Rightarrow> 'k"
  assumes lt_key: "\<not> lt a b \<Longrightarrow> \<not> lt b a \<Longrightarrow> key a = key b"
begin

lemma ordered_unique:
  assumes "ordered_by lt xs" "ordered_by lt ys" "mset xs = mset ys" "distinct (map key xs)"
  shows "xs = ys"
  using assms
proof (induction xs arbitrary: ys)
  case (Cons x xs)
  then obtain y ys' where ys: "ys = y # ys'" by (cases ys) auto
  have "x \<in> set ys" and "y \<in> set (x # xs)" using Cons.prems(3) ys
    by (metis list.set_intros(1) set_mset_mset)+
  have "x = y"
  proof (rule ccontr)
    assume "x \<noteq> y"
    with \<open>x \<in> set ys\<close> \<open>y \<in> set (x # xs)\<close> ys have "x \<in> set ys'" "y \<in> set xs" by auto
    with Cons.prems(1,2) ys have "key x = key y" by (auto intro: lt_key)
    with Cons.prems(4) \<open>y \<in> set xs\<close> show False by auto
  qed
  with Cons ys show ?case by auto
qed simp

lemma sort_unique:
  "ordered_by lt ys \<Longrightarrow> mset xs = mset ys \<Longrightarrow> distinct (map key ys) \<Longrightarrow> sort_slice lt xs = ys"
  by (rule ordered_unique [symmetric]) (simp_all add: ordered_sort)

text \<open>What comes after an element of an ordered slice is the rest of the slice.\<close>

lemma filter_after:
  assumes "ordered_by lt xs" "distinct (map key xs)" "i < length xs"
  shows "filter (lt (xs ! i)) xs = drop (Suc i) xs"
proof -
  have before: "\<not> lt (xs ! i) x" if "x \<in> set (take (Suc i) xs)" for x
  proof -
    from that obtain n where "n < Suc i" and x: "x = xs ! n" by (auto simp: in_set_conv_nth)
    then have n: "n \<le> i" "x = xs ! n" by simp_all
    show ?thesis
      using sorted_wrt_nth_less [OF assms(1), of n i] n assms(3) lt_asym by (cases "n = i") auto
  qed
  have after: "lt (xs ! i) x" if "x \<in> set (drop (Suc i) xs)" for x
  proof -
    from that obtain m where m: "m < length (drop (Suc i) xs)" "x = drop (Suc i) xs ! m" by (metis in_set_conv_nth)
    define n where "n = Suc (i + m)"
    have n: "i < n" "n < length xs" "x = xs ! n" using m by (simp_all add: n_def)
    then have "\<not> lt x (xs ! i)" using sorted_wrt_nth_less [OF assms(1)] by simp
    moreover have "key x \<noteq> key (xs ! i)" using assms(2) n by (auto simp: distinct_conv_nth)
    ultimately show ?thesis using lt_key by blast
  qed
  have "filter (lt (xs ! i)) (take (Suc i) xs) = []" "filter (lt (xs ! i)) (drop (Suc i) xs) = drop (Suc i) xs"
    using before after by (simp_all add: filter_empty_conv filter_id_conv)
  then show ?thesis by (metis append_Nil append_take_drop_id filter_append)
qed

lemma sort_perm:
  assumes "mset xs = mset ys" "distinct (map key ys)"
  shows "sort_slice lt xs = sort_slice lt ys"
  by (rule sort_unique) (use assms in \<open>simp_all add: ordered_sort\<close>)

end

lemma distinct_map_Cons_neq:
  assumes "distinct (map f (x # xs))" "y \<in> set xs"
  shows "f y \<noteq> f x"
proof -
  from assms(2) have "f y \<in> f ` set xs" by (rule imageI)
  with assms(1) show ?thesis by auto
qed

lemma distinct_map_inj:
  "distinct (map f xs) \<Longrightarrow> x \<in> set xs \<Longrightarrow> y \<in> set xs \<Longrightarrow> f x = f y \<Longrightarrow> x = y"
  unfolding distinct_map inj_on_def by blast

section \<open>Go maps as association lists\<close>

text \<open>
  A Go map that the code ranges over is an association list with distinct keys: its order
  stands for one of the iteration orders Go may choose.
\<close>

definition keys_ok :: "('k \<times> 'v) list \<Rightarrow> bool" where
  "keys_ok m \<longleftrightarrow> distinct (map fst m)"

lemma keys_ok_Nil [simp]: "keys_ok []"
  by (simp add: keys_ok_def)

lemma keys_ok_update [simp]: "keys_ok m \<Longrightarrow> keys_ok (AList.update k v m)"
  by (simp add: keys_ok_def distinct_update)

lemma map_of_values:
  "keys_ok m \<Longrightarrow> v \<in> set (map snd m) \<longleftrightarrow> (\<exists>k. map_of m k = Some v)"
  by (force simp: keys_ok_def)

lemma insert_by_map: "insert_by lt (f x) (map f xs) = map f (insert_by (\<lambda>a b. lt (f a) (f b)) x xs)"
  by (induction xs) simp_all

lemma sort_slice_map: "sort_slice lt (map f xs) = map f (sort_slice (\<lambda>a b. lt (f a) (f b)) xs)"
  by (induction xs) (simp_all add: insert_by_map)

text \<open>Elements found by a key that no two of them share.\<close>

lemma filter_key:
  assumes "distinct (map f xs)"
  shows "filter (\<lambda>x. f x = k) xs = (case map_of (map (\<lambda>x. (f x, x)) xs) k of None \<Rightarrow> [] | Some x \<Rightarrow> [x])"
  using assms
proof (induction xs)
  case (Cons a xs)
  have "f a = k \<Longrightarrow> filter (\<lambda>x. f x = k) xs = []" using Cons.prems by (auto simp: filter_empty_conv image_iff)
  with Cons show ?case by simp
qed simp

lemma map_of_map_id: "map_of (map (\<lambda>x. (x, x)) xs) k = (if k \<in> set xs then Some k else None)"
  by (induction xs) auto

end
