(* ===== verification/Float64.thy ===== *)
theory Float64
  imports Orion_Prelude "HOL-Library.Log_Nat"
begin

text \<open>
  Go's \<^verbatim>\<open>float64\<close> (IEEE 754 binary64) with the operations the scheduler uses: addition,
  subtraction and comparison.  Every finite double is an integer multiple of
  \<open>2 ^ -1074\<close>, so a finite value is that integer; addition is exact integer addition
  followed by rounding to 53 significant bits, ties to even, with overflow to infinity.
  The sign of zero is not represented: none of the operations modelled here shows it.
\<close>

datatype float64 = NaN | PInf | NInf | Fin int

definition sig_bits :: nat where "sig_bits = 53"

definition overflow_at :: int where "overflow_at = 2 ^ 2098"

text \<open>Round to a multiple of \<open>2 ^ k\<close>, ties to even.\<close>

definition round_even :: "int \<Rightarrow> nat \<Rightarrow> int" where
  "round_even n k =
     (let q = n div 2 ^ k; r = n mod 2 ^ k
      in if 2 * r < 2 ^ k \<or> (2 * r = 2 ^ k \<and> even q) then q * 2 ^ k else (q + 1) * 2 ^ k)"

definition excess_bits :: "int \<Rightarrow> nat" where
  "excess_bits n = floorlog 2 (nat \<bar>n\<bar>) - sig_bits"

definition f_round :: "int \<Rightarrow> float64" where
  "f_round n =
     (let m = round_even n (excess_bits n)
      in if m \<ge> overflow_at then PInf else if m \<le> - overflow_at then NInf else Fin m)"

fun f_neg :: "float64 \<Rightarrow> float64" where
  "f_neg NaN = NaN"
| "f_neg PInf = NInf"
| "f_neg NInf = PInf"
| "f_neg (Fin n) = Fin (- n)"

fun f_add :: "float64 \<Rightarrow> float64 \<Rightarrow> float64" where
  "f_add (Fin a) (Fin b) = f_round (a + b)"
| "f_add NaN _ = NaN"
| "f_add _ NaN = NaN"
| "f_add PInf NInf = NaN"
| "f_add NInf PInf = NaN"
| "f_add PInf _ = PInf"
| "f_add _ PInf = PInf"
| "f_add NInf _ = NInf"
| "f_add _ NInf = NInf"

definition f_sub :: "float64 \<Rightarrow> float64 \<Rightarrow> float64" where
  "f_sub a b = f_add a (f_neg b)"

text \<open>The comparison \<^verbatim>\<open><\<close>: false as soon as one side is NaN.\<close>

fun f_lt :: "float64 \<Rightarrow> float64 \<Rightarrow> bool" where
  "f_lt (Fin a) (Fin b) = (a < b)"
| "f_lt NaN _ = False"
| "f_lt _ NaN = False"
| "f_lt PInf _ = False"
| "f_lt _ NInf = False"
| "f_lt NInf _ = True"
| "f_lt _ PInf = True"

text \<open>The comparison \<^verbatim>\<open>>=\<close>: not the negation of \<^verbatim>\<open><\<close>, because of NaN.\<close>

definition f_ge :: "float64 \<Rightarrow> float64 \<Rightarrow> bool" where
  "f_ge a b \<longleftrightarrow> a \<noteq> NaN \<and> b \<noteq> NaN \<and> \<not> f_lt a b"

abbreviation f_zero :: float64 where "f_zero \<equiv> Fin 0"

section \<open>NaN\<close>

lemma f_add_NaN [simp]: "f_add NaN x = NaN" "f_add x NaN = NaN"
  by (cases x; simp)+

lemma f_sub_NaN [simp]: "f_sub NaN x = NaN" "f_sub x NaN = NaN"
  by (simp_all add: f_sub_def)

lemma f_lt_NaN [simp]: "\<not> f_lt NaN x" "\<not> f_lt x NaN"
  by (cases x; simp)+

lemma f_ge_NaN [simp]: "\<not> f_ge NaN x" "\<not> f_ge x NaN"
  by (simp_all add: f_ge_def)

lemma f_ge_Fin [simp]: "f_ge (Fin a) (Fin b) \<longleftrightarrow> a \<ge> b"
  by (auto simp: f_ge_def)

section \<open>Exact arithmetic\<close>

lemma round_even_exact: "2 ^ k dvd n \<Longrightarrow> round_even n k = n"
  by (simp add: round_even_def Let_def)

lemma excess_bits_le:
  assumes "\<bar>m\<bar> < 2 ^ 53"
  shows "excess_bits (m * 2 ^ j) \<le> j"
proof (cases "m = 0")
  case True
  then show ?thesis by (simp add: excess_bits_def floorlog_def)
next
  case False
  have "nat \<bar>m * 2 ^ j\<bar> = nat \<bar>m\<bar> * 2 ^ j"
    by (simp add: abs_mult nat_mult_distrib nat_power_eq)
  moreover have "nat \<bar>m\<bar> < 2 ^ 53" using assms by (simp add: nat_less_iff)
  ultimately have "nat \<bar>m * 2 ^ j\<bar> < 2 ^ (53 + j)"
    by (simp add: power_add)
  then have "floorlog 2 (nat \<bar>m * 2 ^ j\<bar>) \<le> 53 + j"
    by (intro floorlog_leI) simp_all
  then show ?thesis by (simp add: excess_bits_def sig_bits_def)
qed

lemma f_round_exact:
  assumes "\<bar>m\<bar> < 2 ^ 53" "j \<le> 2045"
  shows "f_round (m * 2 ^ j) = Fin (m * 2 ^ j)"
proof -
  have "2 ^ excess_bits (m * 2 ^ j) dvd m * 2 ^ j"
    by (intro dvd_mult le_imp_power_dvd excess_bits_le assms)
  then have r: "round_even (m * 2 ^ j) (excess_bits (m * 2 ^ j)) = m * 2 ^ j"
    by (rule round_even_exact)
  have "\<bar>m * 2 ^ j\<bar> < 2 ^ 53 * 2 ^ j"
    using assms(1) by (simp add: abs_mult)
  also have "(2::int) ^ 53 * 2 ^ j \<le> 2 ^ 53 * 2 ^ 2045"
    using assms(2) by (intro mult_left_mono power_increasing) simp_all
  also have "(2::int) ^ 53 * 2 ^ 2045 = overflow_at"
    unfolding overflow_at_def by (simp flip: power_add)
  finally have "\<bar>m * 2 ^ j\<bar> < overflow_at" .
  then show ?thesis unfolding f_round_def Let_def r by (simp add: abs_less_iff)
qed

text \<open>
  Fixed-point values: multiples of \<open>1/1024\<close>.  Sums and differences of such values are
  exact as long as the result stays below \<open>2 ^ 43\<close>, which covers every CPU request a
  cluster sees.
\<close>

definition fx :: "int \<Rightarrow> float64" where
  "fx c = Fin (c * 2 ^ 1064)"

definition whole :: "int \<Rightarrow> float64" where
  "whole c = fx (c * 1024)"

lemma fx_0: "fx 0 = f_zero"
  by (simp add: fx_def)

lemma fx_eq_iff [simp]: "fx a = fx b \<longleftrightarrow> a = b"
  unfolding fx_def by (metis float64.inject mult_right_cancel power_not_zero zero_neq_numeral)

lemma fx_neq_NaN [simp]: "fx a \<noteq> NaN" "NaN \<noteq> fx a"
  by (simp_all add: fx_def)

lemma fx_lt [simp]: "f_lt (fx a) (fx b) \<longleftrightarrow> a < b"
  unfolding fx_def f_lt.simps by (rule mult_less_cancel_right_pos) simp

lemma fx_ge [simp]: "f_ge (fx a) (fx b) \<longleftrightarrow> a \<ge> b"
  by (auto simp: f_ge_def)

lemma fx_add [simp]: "\<bar>a + b\<bar> < 2 ^ 53 \<Longrightarrow> f_add (fx a) (fx b) = fx (a + b)"
  unfolding fx_def f_add.simps distrib_right [symmetric] by (rule f_round_exact) simp_all

lemma fx_neg [simp]: "f_neg (fx a) = fx (- a)"
  by (simp add: fx_def)

lemma fx_sub [simp]: "\<bar>a - b\<bar> < 2 ^ 53 \<Longrightarrow> f_sub (fx a) (fx b) = fx (a - b)"
  unfolding f_sub_def fx_neg using fx_add [of a "- b"] by simp

text \<open>Rounding is not associative: the model keeps the binary64 effects.\<close>

lemma f_add_not_associative:
  "f_add (f_add (Fin (2 ^ 53)) (Fin 1)) (Fin 1) \<noteq> f_add (Fin (2 ^ 53)) (f_add (Fin 1) (Fin 1))"
  by (simp add: f_round_def round_even_def excess_bits_def sig_bits_def overflow_at_def
      compute_floorlog Let_def)

section \<open>Rounding\<close>

lemma round_even_near: "2 * round_even n k \<le> 2 * n + 2 ^ k" "2 * n \<le> 2 * round_even n k + 2 ^ k"
proof -
  define p where p: "p = (2::int) ^ k"
  define q r where qr: "q = n div p" "r = n mod p"
  have n: "n = q * p + r" unfolding qr by (rule div_mult_mod_eq [symmetric])
  have pos: "0 \<le> r" "0 < p" "r < p" by (simp_all add: qr p)
  show "2 * round_even n k \<le> 2 * n + 2 ^ k" "2 * n \<le> 2 * round_even n k + 2 ^ k"
    unfolding round_even_def Let_def p [symmetric] qr [symmetric] unfolding n using pos
    by (auto simp: algebra_simps not_less)
qed

text \<open>A positive result is off by at most one part in \<open>2 ^ 53\<close>.\<close>

lemma f_round_near:
  assumes "0 < n" "n < overflow_at div 2"
  shows "\<exists>m. f_round n = Fin m \<and> 2 ^ 53 * m \<le> (2 ^ 53 + 1) * n \<and> (2 ^ 53 - 1) * n \<le> 2 ^ 53 * m"
proof (cases "excess_bits n = 0")
  case True
  then have "round_even n (excess_bits n) = n" by (simp add: round_even_exact)
  then show ?thesis using assms by (simp add: f_round_def Let_def overflow_at_def)
next
  case False
  let ?k = "excess_bits n" and ?m = "round_even n (excess_bits n)"
  have k: "Suc (?k + 52) = floorlog 2 (nat n)" using False assms by (simp add: excess_bits_def sig_bits_def)
  have "2 ^ (floorlog 2 (nat n) - 1) \<le> nat n" using floorlog_bounds [of "nat n" 2] assms by simp
  then have "2 ^ (?k + 52) \<le> nat n" using k by (metis diff_Suc_1)
  then have low: "2 ^ ?k * 2 ^ 52 \<le> n" using assms by (simp add: power_add le_nat_iff)
  note near = round_even_near [of n ?k]
  have b: "2 ^ 53 * ?m \<le> (2 ^ 53 + 1) * n" "(2 ^ 53 - 1) * n \<le> 2 ^ 53 * ?m"
    using near low by (simp_all add: algebra_simps)
  have "(2::int) ^ ?k * 1 \<le> 2 ^ ?k * 2 ^ 52" by (intro mult_left_mono) simp_all
  with low have "(2::int) ^ ?k \<le> n" by linarith
  then have "?m < overflow_at" using near(1) assms(2) unfolding overflow_at_def by simp
  moreover have "0 \<le> ?m" using assms(1) by (simp add: round_even_def Let_def pos_imp_zdiv_nonneg_iff)
  ultimately show ?thesis using b by (simp add: f_round_def Let_def overflow_at_def)
qed

lemma floorlog_eq: "2 ^ k \<le> n \<Longrightarrow> n < 2 ^ Suc k \<Longrightarrow> floorlog 2 n = Suc k"
  by (intro antisym floorlog_leI floorlog_geI) simp_all

end
