(* ===== verification/Page_Token.thy ===== *)
theory Page_Token
  imports Orion_Prelude
begin

text \<open>
  Page tokens of the in-memory repositories (\<^verbatim>\<open>internal/jobs/memory_repository.go\<close>,
  \<^verbatim>\<open>internal/workers/memory_repository.go\<close>): \<^verbatim>\<open>strconv.Atoi\<close>,
  \<^verbatim>\<open>base64.RawURLEncoding\<close> and the two token functions, with the round trip.
  The library's error texts are abbreviated (they name the input and a position).
\<close>

section \<open>strconv.Atoi and strconv.ParseInt\<close>

definition digit_val :: "char \<Rightarrow> nat option" where
  "digit_val c = (let n = of_char c in if 48 \<le> n \<and> n \<le> 57 then Some (n - 48) else None)"

fun parse_digits :: "string \<Rightarrow> nat \<Rightarrow> nat option" where
  "parse_digits [] acc = Some acc"
| "parse_digits (c # cs) acc =
     (case digit_val c of None \<Rightarrow> None | Some d \<Rightarrow> parse_digits cs (10 * acc + d))"

definition parse_unsigned :: "string \<Rightarrow> nat option" where
  "parse_unsigned s = (if s = [] then None else parse_digits s 0)"

definition parse_int :: "string \<Rightarrow> string \<Rightarrow> int result" where
  "parse_int fn s =
     (let neg = (s \<noteq> [] \<and> hd s = CHR ''-'');
          body = (if s \<noteq> [] \<and> (hd s = CHR ''-'' \<or> hd s = CHR ''+'') then tl s else s)
      in case parse_unsigned body of
           None \<Rightarrow> Inl (Plain (''strconv.'' @ fn @ '': invalid syntax''))
         | Some n \<Rightarrow>
             (let v = (if neg then - int n else int n)
              in if in_i64 v then Inr v else Inl (Plain (''strconv.'' @ fn @ '': value out of range''))))"

definition Atoi :: "string \<Rightarrow> int result" where
  "Atoi s = parse_int ''Atoi'' s"

text \<open>\<^verbatim>\<open>strconv.ParseInt(s, 10, 64)\<close>.\<close>

definition ParseInt :: "string \<Rightarrow> int result" where
  "ParseInt s = parse_int ''ParseInt'' s"

lemma digit_val_digit_char [simp]: "d < 10 \<Longrightarrow> digit_val (digit_char d) = Some d"
  by (simp add: digit_val_def digit_char_def Let_def)

lemma parse_digits_append:
  "parse_digits (xs @ ys) acc = Option.bind (parse_digits xs acc) (parse_digits ys)"
  by (induction xs arbitrary: acc) (auto split: option.splits)

lemma parse_nat_digits: "parse_digits (nat_digits n) 0 = Some n"
proof (induction n rule: nat_digits.induct)
  case (1 m)
  then show ?case
    by (cases "m < 10") (simp_all add: nat_digits.simps [of m] parse_digits_append)
qed

lemma nat_digits_neq_Nil [simp]: "nat_digits n \<noteq> []"
  by (simp add: nat_digits.simps [of n])

lemma hd_nat_digits: "\<exists>d < 10. hd (nat_digits n) = digit_char d"
proof (induction n rule: nat_digits.induct)
  case (1 n)
  then show ?case by (cases "n < 10") (auto simp: nat_digits.simps [of n])
qed

lemma digit_char_not_sign: "d < 10 \<Longrightarrow> digit_char d \<noteq> CHR ''-'' \<and> digit_char d \<noteq> CHR ''+''"
proof -
  assume "d < 10"
  then have "digit_val (digit_char d) = Some d" by simp
  moreover have "digit_val (CHR ''-'') = None" "digit_val (CHR ''+'') = None"
    by (simp_all add: digit_val_def Let_def)
  ultimately show ?thesis by auto
qed

lemma parse_int_itoa:
  assumes "in_i64 i"
  shows "parse_int fn (itoa i) = Inr i"
proof (cases "i < 0")
  case True
  with assms show ?thesis
    by (simp add: parse_int_def itoa_def parse_unsigned_def parse_nat_digits Let_def)
next
  case False
  obtain d where "d < 10" "hd (nat_digits (nat i)) = digit_char d"
    using hd_nat_digits by blast
  with False assms show ?thesis
    by (auto simp: parse_int_def itoa_def parse_unsigned_def parse_nat_digits Let_def
        dest: digit_char_not_sign)
qed

lemma Atoi_itoa: "in_i64 i \<Longrightarrow> Atoi (itoa i) = Inr i"
  by (simp add: Atoi_def parse_int_itoa)

lemma ParseInt_itoa: "in_i64 i \<Longrightarrow> ParseInt (itoa i) = Inr i"
  by (simp add: ParseInt_def parse_int_itoa)

section \<open>base64.RawURLEncoding\<close>

definition b64_char :: "nat \<Rightarrow> char" where
  "b64_char n =
     (if n < 26 then char_of (65 + n)
      else if n < 52 then char_of (97 + (n - 26))
      else if n < 62 then char_of (48 + (n - 52))
      else if n = 62 then CHR ''-'' else CHR ''_'')"

definition b64_val :: "char \<Rightarrow> nat option" where
  "b64_val c =
     (let n = of_char c
      in if 65 \<le> n \<and> n \<le> 90 then Some (n - 65)
         else if 97 \<le> n \<and> n \<le> 122 then Some (n - 97 + 26)
         else if 48 \<le> n \<and> n \<le> 57 then Some (n - 48 + 52)
         else if n = 45 then Some 62
         else if n = 95 then Some 63
         else None)"

fun sextets :: "nat list \<Rightarrow> nat list" where
  "sextets [] = []"
| "sextets [a] = [a div 4, a mod 4 * 16]"
| "sextets [a, b] = [a div 4, a mod 4 * 16 + b div 16, b mod 16 * 4]"
| "sextets (a # b # c # r) =
     [a div 4, a mod 4 * 16 + b div 16, b mod 16 * 4 + c div 64, c mod 64] @ sextets r"

fun octets :: "nat list \<Rightarrow> nat list option" where
  "octets [] = Some []"
| "octets [x] = None"
| "octets [x, y] = Some [x * 4 + y div 16]"
| "octets [x, y, z] = Some [x * 4 + y div 16, y mod 16 * 16 + z div 4]"
| "octets (x # y # z # w # r) =
     map_option (\<lambda>bs. [x * 4 + y div 16, y mod 16 * 16 + z div 4, z mod 4 * 64 + w] @ bs) (octets r)"

definition EncodeToString :: "string \<Rightarrow> string" where
  "EncodeToString s = map b64_char (sextets (map of_char s))"

text \<open>The decoder skips line ends, refuses any other foreign byte and a single left-over
  character, and ignores the unused trailing bits.\<close>

definition DecodeString :: "string \<Rightarrow> string result" where
  "DecodeString s =
     (let vs = map b64_val (filter (\<lambda>c. of_char c \<noteq> (10::nat) \<and> of_char c \<noteq> (13::nat)) s)
      in if None \<in> set vs then Inl (Plain ''illegal base64 data'')
         else case octets (map the vs) of
                None \<Rightarrow> Inl (Plain ''illegal base64 data'')
              | Some bs \<Rightarrow> Inr (map char_of bs))"

lemma sextets_bound: "\<forall>b \<in> set bs. b < 256 \<Longrightarrow> \<forall>x \<in> set (sextets bs). x < 64"
  by (induction bs rule: sextets.induct) (auto simp: less_mult_imp_div_less)

lemma octets_sextets: "\<forall>b \<in> set bs. b < 256 \<Longrightarrow> octets (sextets bs) = Some bs"
  by (induction bs rule: sextets.induct) (auto simp: less_mult_imp_div_less)

lemma b64_val_b64_char: "n < 64 \<Longrightarrow> b64_val (b64_char n) = Some n"
  by (auto simp: b64_val_def b64_char_def Let_def)

lemma b64_char_no_line_end:
  "n < 64 \<Longrightarrow> of_char (b64_char n) \<noteq> (10::nat) \<and> of_char (b64_char n) \<noteq> (13::nat)"
  by (auto simp: b64_char_def)

lemma Decode_Encode: "DecodeString (EncodeToString s) = Inr s"
proof -
  let ?xs = "sextets (map of_char s) :: nat list"
  have b: "\<forall>b \<in> set (map of_char s :: nat list). b < 256" by auto
  have x: "\<forall>x \<in> set ?xs. x < 64" by (rule sextets_bound [OF b])
  have "filter (\<lambda>c. of_char c \<noteq> (10::nat) \<and> of_char c \<noteq> (13::nat)) (map b64_char ?xs) = map b64_char ?xs"
    using x by (simp add: filter_id_conv b64_char_no_line_end)
  moreover have "None \<notin> set (map b64_val (map b64_char ?xs))"
    using x by (force simp: b64_val_b64_char)
  moreover have "map (\<lambda>n. the (b64_val (b64_char n))) ?xs = ?xs"
    using x by (intro map_idI) (simp add: b64_val_b64_char)
  ultimately show ?thesis
    by (simp add: DecodeString_def EncodeToString_def octets_sextets [OF b] comp_def Let_def)
qed

section \<open>Tokens\<close>

definition encodePageToken :: "int \<Rightarrow> string" where
  "encodePageToken offset = EncodeToString (itoa offset)"

definition decodePageToken :: "string \<Rightarrow> int result" where
  "decodePageToken token =
     (case DecodeString token of Inl e \<Rightarrow> Inl e | Inr b \<Rightarrow> Atoi b)"

lemma decode_encodePageToken: "in_i64 n \<Longrightarrow> decodePageToken (encodePageToken n) = Inr n"
  by (simp add: decodePageToken_def encodePageToken_def Decode_Encode Atoi_itoa)

lemma sextets_eq_Nil [simp]: "sextets bs = [] \<longleftrightarrow> bs = []"
  by (cases bs rule: sextets.cases) auto

lemma encodePageToken_neq_Nil [simp]: "encodePageToken n \<noteq> []"
  by (simp add: encodePageToken_def EncodeToString_def itoa_def)

section \<open>Pages\<close>

definition defaultPageSize :: int where "defaultPageSize = 50"
definition maxPageSize :: int where "maxPageSize = 200"

definition effective_page_size :: "int \<Rightarrow> int" where
  "effective_page_size n = (if n \<le> 0 \<or> n > maxPageSize then defaultPageSize else n)"

text \<open>The part of \<^verbatim>\<open>List\<close> after sorting, the same code in both repositories: from the
  sorted slice, the requested size and the token to the page and the next token.\<close>

definition page_slice :: "'a list \<Rightarrow> int \<Rightarrow> string \<Rightarrow> ('a list \<times> string) result" where
  "page_slice all_items sz token =
     (case (if token \<noteq> [] then decodePageToken token else Inr 0) of
        Inl e \<Rightarrow> Inl (Wrap ''invalid page_token: '' e [])
      | Inr o0 \<Rightarrow>
          (let n = int (length all_items);
               offset = (if o0 < 0 \<or> o0 > n then n else o0);
               pageSize = effective_page_size sz;
               end0 = offset + pageSize;
               end1 = (if end0 > n then n else end0)
           in Inr (take (nat (end1 - offset)) (drop (nat offset) all_items),
                   if end1 < n then encodePageToken end1 else [])))"

text \<open>A client that follows the next token until it is empty.\<close>

fun page_walk :: "nat \<Rightarrow> (string \<Rightarrow> ('a list \<times> string) result) \<Rightarrow> string \<Rightarrow> 'a list option" where
  "page_walk 0 fetch token = None"
| "page_walk (Suc n) fetch token =
     (case fetch token of
        Inl e \<Rightarrow> None
      | Inr (page, next) \<Rightarrow>
          (if next = [] then Some page else map_option (\<lambda>rest. page @ rest) (page_walk n fetch next)))"

lemma effective_page_size_bounds: "1 \<le> effective_page_size n" "effective_page_size n \<le> 200"
  by (simp_all add: effective_page_size_def maxPageSize_def defaultPageSize_def)

lemma page_slice_at:
  fixes off :: nat
  assumes len: "int (length xs) < 2 ^ 63" and off: "off \<le> length xs"
    and tok: "token = (if off = 0 then [] else encodePageToken (int off))"
    and ps: "ps = nat (effective_page_size sz)"
  shows "page_slice xs sz token =
    Inr (take ps (drop off xs), if off + ps < length xs then encodePageToken (int (off + ps)) else [])"
proof -
  have d: "(if token \<noteq> [] then decodePageToken token else Inr 0) = Inr (int off)"
    using len off by (simp add: tok decode_encodePageToken in_i64_def)
  have ps': "effective_page_size sz = int ps" "0 < ps"
    using effective_page_size_bounds [of sz] by (simp_all add: ps)
  show ?thesis
  proof (cases "off + ps < length xs")
    case True
    then show ?thesis using off d ps' by (simp add: page_slice_def Let_def)
  next
    case False
    then show ?thesis using off d ps'
      by (simp add: page_slice_def Let_def nat_diff_distrib) linarith
  qed
qed

text \<open>A listing delivered in pages of \<open>ps\<close> elements, with \<open>tok off\<close> the token for the rest from \<open>off\<close> on.\<close>

lemma page_walk_tokens:
  assumes "0 < ps"
    "\<And>off. off \<le> length xs \<Longrightarrow>
       fetch (tok off) = Inr (take ps (drop off xs), if off + ps < length xs then tok (off + ps) else [])"
    "\<And>off. 0 < off \<Longrightarrow> tok off \<noteq> []" "off \<le> length xs" "length xs < off + n"
  shows "page_walk n fetch (tok off) = Some (drop off xs)"
  using assms(4,5)
proof (induction n arbitrary: off)
  case (Suc n)
  note page = assms(2) [OF Suc.prems(1)]
  show ?case
  proof (cases "off + ps < length xs")
    case True
    have "page_walk n fetch (tok (off + ps)) = Some (drop (off + ps) xs)"
      by (rule Suc.IH) (use Suc.prems assms(1) True in simp_all)
    with True page assms(3) [of "off + ps"] assms(1) show ?thesis
      by simp (metis append_take_drop_id drop_drop add.commute)
  next
    case False
    with page show ?thesis by simp
  qed
qed simp

lemma page_walk_from:
  fixes off :: nat
  assumes "int (length xs) < 2 ^ 63" "off \<le> length xs"
    "token = (if off = 0 then [] else encodePageToken (int off))" "length xs < off + n"
  shows "page_walk n (page_slice xs sz) token = Some (drop off xs)"
proof -
  define ps where "ps = nat (effective_page_size sz)"
  let ?tok = "\<lambda>off :: nat. if off = 0 then [] else encodePageToken (int off)"
  have ps: "0 < ps" using effective_page_size_bounds [of sz] by (simp add: ps_def)
  have "page_walk n (page_slice xs sz) (?tok off) = Some (drop off xs)"
  proof (rule page_walk_tokens [where tok = ?tok, OF ps _ _ assms(2,4)])
    fix i assume "i \<le> length xs"
    from page_slice_at [OF assms(1) this refl ps_def]
    show "page_slice xs sz (?tok i) = Inr (take ps (drop i xs), if i + ps < length xs then ?tok (i + ps) else [])"
      using ps by simp
  qed simp
  then show ?thesis using assms(3) by simp
qed

lemma page_walk_complete:
  "int (length xs) < 2 ^ 63 \<Longrightarrow> page_walk (Suc (length xs)) (page_slice xs sz) [] = Some xs"
  using page_walk_from [of xs 0 "[]" "Suc (length xs)" sz] by simp

lemma page_slice_size:
  "page_slice xs sz token = Inr (page, next) \<Longrightarrow> length page \<le> 200"
  using effective_page_size_bounds [of sz]
  by (auto simp: page_slice_def Let_def split: sum.splits if_splits)

lemma page_slice_subset:
  "page_slice xs sz token = Inr (page, next) \<Longrightarrow> set page \<subseteq> set xs"
  by (auto simp: page_slice_def Let_def split: sum.splits if_splits dest!: in_set_takeD in_set_dropD)

end
