(* ===== verification/Workers.thy ===== *)
theory Workers
  imports Float64 Page_Token
begin

text \<open>
  Workers and their GPUs: the types of \<^verbatim>\<open>internal/workers/worker.go\<close>, registration
  validation (\<^verbatim>\<open>validation.go\<close>), the interface \<^verbatim>\<open>workers.Repository\<close>
  (\<^verbatim>\<open>repository.go\<close>) with its contract, and \<^verbatim>\<open>MemoryRepository\<close>
  (\<^verbatim>\<open>memory_repository.go\<close>).
\<close>

section \<open>worker.go\<close>

text \<open>\<^verbatim>\<open>Status\<close> and \<^verbatim>\<open>GPUHealthState\<close> are string types; the \<open>Zero\<close> constructors are
  their zero value.\<close>

datatype Status = StatusActive | StatusLost | StatusZero

datatype GPUHealthState = GPUHealthy | GPUDegraded | GPUUnhealthy | GPUHealthZero

record GPU =
  gpu_ID :: string
  gpu_DeviceIndex :: int
  gpu_UUID :: string
  gpu_TotalMemoryBytes :: int
  gpu_AllocatedMemoryBytes :: int
  gpu_UtilizationPercent :: float64
  gpu_TemperatureCelsius :: "float64 option"
  gpu_MIGProfile :: string
  gpu_HealthState :: GPUHealthState

record Worker =
  w_ID :: string
  w_Hostname :: string
  w_Status :: Status
  w_LeaseID :: "int option"
  w_CPUCapacity :: float64
  w_MemoryCapacityBytes :: int
  w_GPUs :: "GPU slice"
  w_SoftwareVersion :: string
  w_Labels :: "(string \<times> string) slice"
  w_RunningJobIDs :: "string slice"
  w_RegisteredAt :: Time
  w_LastHeartbeatAt :: Time

section \<open>validation.go\<close>

definition MaxHostnameLength :: nat where "MaxHostnameLength = 253"
definition MaxWorkerGPUCount :: nat where "MaxWorkerGPUCount = 64"

record RegisterInput =
  reg_Hostname :: string
  reg_CPUCapacity :: float64
  reg_MemoryCapacityBytes :: int
  reg_GPUs :: "GPU slice"
  reg_SoftwareVersion :: string
  reg_Labels :: "(string \<times> string) slice"

text \<open>The loop over the GPUs; \<open>seen\<close> is \<^verbatim>\<open>seenIndex\<close>.\<close>

fun gpu_problems :: "nat \<Rightarrow> int list \<Rightarrow> GPU list \<Rightarrow> string list" where
  "gpu_problems i seen [] = []"
| "gpu_problems i seen (g # gs) =
     (let pre = ''gpus['' @ itoa (int i) @ ''].''
      in (if gpu_DeviceIndex g < 0 then [pre @ ''device_index must not be negative''] else [])
         @ (if gpu_DeviceIndex g \<in> set seen
            then [pre @ ''device_index '' @ itoa (gpu_DeviceIndex g) @ '' is a duplicate''] else [])
         @ (if gpu_TotalMemoryBytes g < 0 then [pre @ ''total_memory_bytes must not be negative''] else [])
         @ (if gpu_AllocatedMemoryBytes g < 0
            then [pre @ ''allocated_memory_bytes must not be negative''] else [])
         @ (if gpu_AllocatedMemoryBytes g > gpu_TotalMemoryBytes g
            then [pre @ ''allocated_memory_bytes must not exceed total_memory_bytes''] else [])
         @ gpu_problems (Suc i) (gpu_DeviceIndex g # seen) gs)"

definition register_problems :: "RegisterInput \<Rightarrow> string list" where
  "register_problems i =
     (if TrimSpace (reg_Hostname i) = [] then [''hostname must not be empty'']
      else if length (reg_Hostname i) > MaxHostnameLength
      then [''hostname must be at most '' @ itoa (int MaxHostnameLength) @ '' characters''] else [])
     @ (if f_lt (reg_CPUCapacity i) f_zero then [''cpu_capacity must not be negative''] else [])
     @ (if reg_MemoryCapacityBytes i < 0 then [''memory_capacity_bytes must not be negative''] else [])
     @ (if length (elems (reg_GPUs i)) > MaxWorkerGPUCount
        then [''gpus must have at most '' @ itoa (int MaxWorkerGPUCount) @ '' entries''] else [])
     @ gpu_problems 0 [] (elems (reg_GPUs i))"

definition ValidateRegister :: "RegisterInput \<Rightarrow> goerr option" where
  "ValidateRegister i =
     (let problems = register_problems i
      in if problems = [] then None else Some (Workers_ValidationError problems))"

definition valid_gpu :: "GPU \<Rightarrow> bool" where
  "valid_gpu g \<longleftrightarrow> 0 \<le> gpu_DeviceIndex g \<and> 0 \<le> gpu_AllocatedMemoryBytes g
     \<and> gpu_AllocatedMemoryBytes g \<le> gpu_TotalMemoryBytes g"

definition valid_register :: "RegisterInput \<Rightarrow> bool" where
  "valid_register i \<longleftrightarrow>
     TrimSpace (reg_Hostname i) \<noteq> [] \<and> length (reg_Hostname i) \<le> 253
     \<and> \<not> f_lt (reg_CPUCapacity i) f_zero
     \<and> 0 \<le> reg_MemoryCapacityBytes i
     \<and> length (elems (reg_GPUs i)) \<le> 64
     \<and> list_all valid_gpu (elems (reg_GPUs i))
     \<and> distinct (map gpu_DeviceIndex (elems (reg_GPUs i)))"

lemma gpu_problems_Nil:
  "gpu_problems i seen gs = [] \<longleftrightarrow>
     list_all valid_gpu gs \<and> distinct (map gpu_DeviceIndex gs)
     \<and> set seen \<inter> gpu_DeviceIndex ` set gs = {}"
proof (induction gs arbitrary: i seen)
  case (Cons g gs)
  show ?case
    unfolding gpu_problems.simps Let_def append_is_Nil_conv problem_Nil Cons.IH
    by (auto simp: valid_gpu_def [of g])
qed simp

lemma register_problems_Nil: "register_problems i = [] \<longleftrightarrow> valid_register i"
  unfolding register_problems_def valid_register_def append_is_Nil_conv problem_Nil gpu_problems_Nil
  by (auto simp: MaxHostnameLength_def MaxWorkerGPUCount_def not_less)

lemma ValidateRegister_None: "ValidateRegister i = None \<longleftrightarrow> valid_register i"
  by (simp add: ValidateRegister_def register_problems_Nil Let_def)

lemma ValidateRegister_Some:
  "\<not> valid_register i \<Longrightarrow> ValidateRegister i = Some (Workers_ValidationError (register_problems i))"
  by (simp add: ValidateRegister_def register_problems_Nil Let_def)

section \<open>repository.go\<close>

record WListOptions =
  wopt_PageSize :: int
  wopt_PageToken :: string
  wopt_StatusFilter :: Status

record WListResult =
  wres_Workers :: "Worker list"
  wres_NextPageToken :: string

record 'w WorkerRepository =
  wrepo_Create :: "Worker \<Rightarrow> 'w \<Rightarrow> Worker result \<times> 'w"
  wrepo_Get :: "string \<Rightarrow> 'w \<Rightarrow> Worker result"
  wrepo_List :: "WListOptions \<Rightarrow> 'w \<Rightarrow> WListResult result"
  wrepo_Update :: "string \<Rightarrow> (Worker \<Rightarrow> Worker result) \<Rightarrow> 'w \<Rightarrow> Worker result \<times> 'w"
  wrepo_ListActive :: "'w \<Rightarrow> Worker list result"

definition registered_less :: "Worker \<Rightarrow> Worker \<Rightarrow> bool" where
  "registered_less a b =
     (if w_RegisteredAt a = w_RegisteredAt b then w_ID a < w_ID b
      else w_RegisteredAt a < w_RegisteredAt b)"

interpretation registered: keyed_less registered_less w_ID
  by unfold_locales (auto simp: registered_less_def split: if_splits)

text \<open>
  What a store may change of a worker record: the timestamps it rounds, the row identifiers
  and order of the GPUs, nil slices.  \<open>stored_as v u\<close>: \<open>u\<close> stands in the store for \<open>v\<close>.
\<close>

definition stored_as :: "Worker \<Rightarrow> Worker \<Rightarrow> bool" where
  "stored_as v u \<longleftrightarrow> w_ID u = w_ID v \<and> w_Hostname u = w_Hostname v \<and> w_Status u = w_Status v
     \<and> w_LeaseID u = w_LeaseID v \<and> w_CPUCapacity u = w_CPUCapacity v
     \<and> w_MemoryCapacityBytes u = w_MemoryCapacityBytes v
     \<and> mset (map gpu_TotalMemoryBytes (elems (w_GPUs u))) = mset (map gpu_TotalMemoryBytes (elems (w_GPUs v)))
     \<and> elems (w_RunningJobIDs u) = elems (w_RunningJobIDs v)"

lemma stored_as_refl [simp]: "stored_as v v"
  by (simp add: stored_as_def)

locale worker_repository =
  fixes wrepo :: "'w WorkerRepository"
    and workers_of :: "'w \<Rightarrow> string \<rightharpoonup> Worker"
    and wrepo_ok :: "'w \<Rightarrow> bool"
  assumes wstored_id: "wrepo_ok r \<Longrightarrow> workers_of r k = Some v \<Longrightarrow> w_ID v = k"
    and wcreate_law:
      "wrepo_ok r \<Longrightarrow> workers_of r (w_ID v) = None \<Longrightarrow> wrepo_Create wrepo v r = (x, r') \<Longrightarrow>
       \<exists>u u'. x = Inr u \<and> stored_as v u \<and> stored_as v u' \<and> wrepo_ok r'
         \<and> workers_of r' = (workers_of r)(w_ID v \<mapsto> u')"
    and wget_law:
      "wrepo_ok r \<Longrightarrow> wrepo_Get wrepo k r =
       (case workers_of r k of None \<Rightarrow> Inl Workers_ErrNotFound | Some v \<Rightarrow> Inr v)"
    and wupdate_missing:
      "wrepo_ok r \<Longrightarrow> workers_of r k = None \<Longrightarrow>
       wrepo_Update wrepo k f r = (Inl Workers_ErrNotFound, r)"
    and wupdate_error:
      "wrepo_ok r \<Longrightarrow> workers_of r k = Some v \<Longrightarrow> f v = Inl e \<Longrightarrow>
       wrepo_Update wrepo k f r = (Inl e, r)"
    and wupdate_ok:
      "wrepo_ok r \<Longrightarrow> workers_of r k = Some v \<Longrightarrow> f v = Inr v' \<Longrightarrow> w_ID v' = k \<Longrightarrow>
       wrepo_Update wrepo k f r = (x, r') \<Longrightarrow>
       \<exists>u u'. x = Inr u \<and> stored_as v' u \<and> stored_as v' u' \<and> wrepo_ok r'
         \<and> workers_of r' = (workers_of r)(k \<mapsto> u')"
    and wactive_law:
      "wrepo_ok r \<Longrightarrow> \<exists>xs. wrepo_ListActive wrepo r = Inr xs \<and> ordered_by registered_less xs \<and>
       distinct (map w_ID xs) \<and>
       set xs = {v. (\<exists>k. workers_of r k = Some v) \<and> w_Status v = StatusActive}"

section \<open>memory_repository.go\<close>

record WMemoryRepository =
  workersByID :: "(string \<times> Worker) list"

definition NewWMemoryRepository :: WMemoryRepository where
  "NewWMemoryRepository = \<lparr>workersByID = []\<rparr>"

definition wmem_Create :: "Worker \<Rightarrow> WMemoryRepository \<Rightarrow> Worker result \<times> WMemoryRepository" where
  "wmem_Create v r = (Inr v, r\<lparr>workersByID := AList.update (w_ID v) v (workersByID r)\<rparr>)"

definition wmem_Get :: "string \<Rightarrow> WMemoryRepository \<Rightarrow> Worker result" where
  "wmem_Get k r =
     (case map_of (workersByID r) k of None \<Rightarrow> Inl Workers_ErrNotFound | Some v \<Rightarrow> Inr v)"

definition wmem_listing :: "Status \<Rightarrow> WMemoryRepository \<Rightarrow> Worker list" where
  "wmem_listing f r =
     sort_slice registered_less
       (filter (\<lambda>v. \<not> (f \<noteq> StatusZero \<and> w_Status v \<noteq> f)) (map snd (workersByID r)))"

definition wmem_List :: "WListOptions \<Rightarrow> WMemoryRepository \<Rightarrow> WListResult result" where
  "wmem_List opts r =
     (case page_slice (wmem_listing (wopt_StatusFilter opts) r) (wopt_PageSize opts) (wopt_PageToken opts) of
        Inl e \<Rightarrow> Inl e
      | Inr (page, next) \<Rightarrow> Inr \<lparr>wres_Workers = page, wres_NextPageToken = next\<rparr>)"

definition wmem_Update ::
    "string \<Rightarrow> (Worker \<Rightarrow> Worker result) \<Rightarrow> WMemoryRepository \<Rightarrow> Worker result \<times> WMemoryRepository" where
  "wmem_Update k f r =
     (case map_of (workersByID r) k of
        None \<Rightarrow> (Inl Workers_ErrNotFound, r)
      | Some v \<Rightarrow>
          (case f v of
             Inl e \<Rightarrow> (Inl e, r)
           | Inr updated \<Rightarrow> (Inr updated, r\<lparr>workersByID := AList.update k updated (workersByID r)\<rparr>)))"

definition wmem_ListActive :: "WMemoryRepository \<Rightarrow> Worker list result" where
  "wmem_ListActive r =
     Inr (sort_slice registered_less (filter (\<lambda>v. w_Status v = StatusActive) (map snd (workersByID r))))"

definition worker_memory_repository :: "WMemoryRepository WorkerRepository" where
  "worker_memory_repository =
     \<lparr>wrepo_Create = wmem_Create, wrepo_Get = wmem_Get, wrepo_List = wmem_List,
      wrepo_Update = wmem_Update, wrepo_ListActive = wmem_ListActive\<rparr>"

lemma worker_memory_repository_simps [simp]:
  "wrepo_Create worker_memory_repository = wmem_Create"
  "wrepo_Get worker_memory_repository = wmem_Get"
  "wrepo_List worker_memory_repository = wmem_List"
  "wrepo_Update worker_memory_repository = wmem_Update"
  "wrepo_ListActive worker_memory_repository = wmem_ListActive"
  by (simp_all add: worker_memory_repository_def)

abbreviation wmem_workers :: "WMemoryRepository \<Rightarrow> string \<rightharpoonup> Worker" where
  "wmem_workers r \<equiv> map_of (workersByID r)"

definition wmem_ok :: "WMemoryRepository \<Rightarrow> bool" where
  "wmem_ok r \<longleftrightarrow> keys_ok (workersByID r) \<and> (\<forall>k v. wmem_workers r k = Some v \<longrightarrow> w_ID v = k)"

lemma wmem_ok_new [simp]: "wmem_ok NewWMemoryRepository"
  by (simp add: wmem_ok_def NewWMemoryRepository_def)

lemma wmem_ok_update:
  "wmem_ok r \<Longrightarrow> w_ID v = k \<Longrightarrow> wmem_ok (r\<lparr>workersByID := AList.update k v (workersByID r)\<rparr>)"
  by (simp add: wmem_ok_def update_conv')

lemma wmem_ok_values: "wmem_ok r \<Longrightarrow> set (map snd (workersByID r)) = {v. \<exists>k. wmem_workers r k = Some v}"
  using map_of_values [of "workersByID r"] by (auto simp: wmem_ok_def)

lemma wmem_ok_distinct: "wmem_ok r \<Longrightarrow> distinct (map w_ID (map snd (workersByID r)))"
proof -
  assume ok: "wmem_ok r"
  then have "\<forall>p \<in> set (workersByID r). w_ID (snd p) = fst p"
    by (auto simp: wmem_ok_def keys_ok_def)
  then have "map w_ID (map snd (workersByID r)) = map fst (workersByID r)" by simp
  then show ?thesis using ok by (simp only: wmem_ok_def keys_ok_def)
qed

lemma wmem_Create_spec:
  assumes "wmem_ok r" "wmem_Create v r = (x, r')"
  shows "\<exists>u u'. x = Inr u \<and> stored_as v u \<and> stored_as v u' \<and> wmem_ok r'
    \<and> wmem_workers r' = (wmem_workers r)(w_ID v \<mapsto> u')"
  using assms by (intro exI [of _ v]) (auto simp: wmem_Create_def wmem_ok_update update_conv')

lemma wmem_Update_spec:
  assumes "wmem_ok r" "wmem_workers r k = Some v" "f v = Inr v'" "w_ID v' = k" "wmem_Update k f r = (x, r')"
  shows "\<exists>u u'. x = Inr u \<and> stored_as v' u \<and> stored_as v' u' \<and> wmem_ok r'
    \<and> wmem_workers r' = (wmem_workers r)(k \<mapsto> u')"
  using assms by (intro exI [of _ v']) (auto simp: wmem_Update_def wmem_ok_update update_conv')

lemma wmem_ListActive_spec:
  assumes "wmem_ok r"
  shows "\<exists>xs. wmem_ListActive r = Inr xs \<and> ordered_by registered_less xs \<and> distinct (map w_ID xs) \<and>
    set xs = {v. (\<exists>k. wmem_workers r k = Some v) \<and> w_Status v = StatusActive}"
proof -
  let ?xs = "filter (\<lambda>v. w_Status v = StatusActive) (map snd (workersByID r))"
  have d: "distinct (map w_ID ?xs)" using wmem_ok_distinct [OF assms] by (rule distinct_map_filter)
  have "set ?xs = {v. (\<exists>k. wmem_workers r k = Some v) \<and> w_Status v = StatusActive}"
    using wmem_ok_values [OF assms] by auto
  with d show ?thesis
    by (intro exI [of _ "sort_slice registered_less ?xs"] conjI)
      (simp_all add: wmem_ListActive_def registered.ordered_sort)
qed

interpretation wmem: worker_repository worker_memory_repository wmem_workers wmem_ok
proof (unfold_locales, goal_cases)
  case (2 r v x r')
  then show ?case using wmem_Create_spec [of r v x r'] by simp
next
  case (6 r k v f v' x r')
  then show ?case using wmem_Update_spec [of r k v f v' x r'] by simp
next
  case (7 r)
  then show ?case using wmem_ListActive_spec [of r] by simp
qed (auto simp: wmem_ok_def wmem_Get_def wmem_Update_def)

text \<open>\<^verbatim>\<open>List\<close> as a client sees it, one page per token.\<close>

definition wmem_fetch :: "WListOptions \<Rightarrow> WMemoryRepository \<Rightarrow> string \<Rightarrow> (Worker list \<times> string) result" where
  "wmem_fetch opts r token =
     map_sum id (\<lambda>p. (wres_Workers p, wres_NextPageToken p)) (wmem_List (opts\<lparr>wopt_PageToken := token\<rparr>) r)"

lemma wmem_fetch_eq: "wmem_fetch opts r = page_slice (wmem_listing (wopt_StatusFilter opts) r) (wopt_PageSize opts)"
  by (auto simp: wmem_fetch_def wmem_List_def fun_eq_iff split: sum.splits)

end
