(* ===== verification/Leases.thy ===== *)
theory Leases
  imports Orion_Prelude
begin

text \<open>
  Worker liveness leases (\<^verbatim>\<open>internal/leases\<close>).  The Go interface \<^verbatim>\<open>Manager\<close> is a record of
  functions over an arbitrary state; \<open>lease_manager\<close> states its contract against the map of
  live leases.  \<^verbatim>\<open>FakeManager\<close> (\<^verbatim>\<open>fake.go\<close>) is modelled in full; \<^verbatim>\<open>EtcdManager\<close>
  (\<^verbatim>\<open>etcd.go\<close>) is modelled over an etcd client that is a parameter, with the documented
  behaviour of etcd as the hypothesis \<open>etcd_laws\<close>.
\<close>

section \<open>manager.go\<close>

type_synonym Duration = int \<comment> \<open>nanoseconds\<close>

definition Second :: Duration where "Second = 1000000000"

record 'l Manager =
  lm_Grant :: "string \<Rightarrow> Duration \<Rightarrow> 'l \<Rightarrow> int result \<times> 'l"
  lm_Renew :: "int \<Rightarrow> 'l \<Rightarrow> goerr option \<times> 'l"
  lm_Revoke :: "int \<Rightarrow> 'l \<Rightarrow> goerr option \<times> 'l"

text \<open>A manager that answers: a grant binds the key to a fresh lease, a renewal succeeds
  exactly on a live lease, a revocation ends the lease and nothing else.  \<open>mgr_ok n\<close> says that
  lease numbers suffice for \<open>n\<close> more grants.\<close>

locale lease_manager =
  fixes mgr :: "'l Manager"
    and live :: "'l \<Rightarrow> int \<rightharpoonup> string"
    and mgr_ok :: "nat \<Rightarrow> 'l \<Rightarrow> bool"
  assumes grant_law:
      "mgr_ok (Suc n) l \<Longrightarrow> lm_Grant mgr key ttl l = (x, l') \<Longrightarrow>
       \<exists>i. x = Inr i \<and> live l i = None \<and> live l' = (live l)(i \<mapsto> key) \<and> mgr_ok n l'"
    and renew_live:
      "mgr_ok n l \<Longrightarrow> live l i \<noteq> None \<Longrightarrow> lm_Renew mgr i l = (y, l') \<Longrightarrow>
       y = None \<and> live l' = live l \<and> mgr_ok n l'"
    and renew_dead:
      "mgr_ok n l \<Longrightarrow> live l i = None \<Longrightarrow> lm_Renew mgr i l = (y, l') \<Longrightarrow>
       y = Some ErrLeaseNotFound \<and> live l' = live l \<and> mgr_ok n l'"
    and revoke_law:
      "mgr_ok n l \<Longrightarrow> lm_Revoke mgr i l = (y, l') \<Longrightarrow>
       y = None \<and> live l' = (live l)(i := None) \<and> mgr_ok n l'"
    and mgr_ok_less: "mgr_ok (Suc n) l \<Longrightarrow> mgr_ok n l"

text \<open>Leases also end by themselves: \<open>expire i\<close> is the event of lease \<open>i\<close> running out.\<close>

locale expiring_manager = lease_manager mgr live mgr_ok
  for mgr :: "'l Manager" and live :: "'l \<Rightarrow> int \<rightharpoonup> string" and mgr_ok :: "nat \<Rightarrow> 'l \<Rightarrow> bool" +
  fixes expire :: "int \<Rightarrow> 'l \<Rightarrow> 'l"
  assumes expire_law:
    "mgr_ok n l \<Longrightarrow> live (expire i l) = (live l)(i := None) \<and> mgr_ok n (expire i l)"

section \<open>fake.go\<close>

text \<open>
  The channels handed out by \<^verbatim>\<open>WatchExpirations\<close> are queues named by a number.  Their
  buffer of 16 is not modelled: a send on a full channel waits for the reader, which delays
  the delivery and does not change it.
\<close>

record FakeManager =
  nextID :: int
  keyByID :: "(int \<times> string) list"
  watchers :: "(nat \<times> string list) list"

definition NewFakeManager :: FakeManager where
  "NewFakeManager = \<lparr>nextID = 0, keyByID = [], watchers = []\<rparr>"

definition fake_Grant :: "string \<Rightarrow> Duration \<Rightarrow> FakeManager \<Rightarrow> int result \<times> FakeManager" where
  "fake_Grant key ttl m =
     (let n = i64 (nextID m + 1)
      in (Inr n, m\<lparr>nextID := n, keyByID := AList.update n key (keyByID m)\<rparr>))"

definition fake_Renew :: "int \<Rightarrow> FakeManager \<Rightarrow> goerr option \<times> FakeManager" where
  "fake_Renew i m = (case map_of (keyByID m) i of None \<Rightarrow> Some ErrLeaseNotFound | Some k \<Rightarrow> None, m)"

text \<open>Removing a lease and telling every watcher: the common body of \<^verbatim>\<open>Revoke\<close> and \<^verbatim>\<open>Expire\<close>.\<close>

definition fake_drop :: "int \<Rightarrow> FakeManager \<Rightarrow> FakeManager" where
  "fake_drop i m =
     (case map_of (keyByID m) i of
        None \<Rightarrow> m
      | Some key \<Rightarrow>
          m\<lparr>keyByID := AList.delete i (keyByID m),
            watchers := map (\<lambda>(c, q). (c, q @ [key])) (watchers m)\<rparr>)"

definition fake_Revoke :: "int \<Rightarrow> FakeManager \<Rightarrow> goerr option \<times> FakeManager" where
  "fake_Revoke i m = (None, fake_drop i m)"

definition fake_Expire :: "int \<Rightarrow> FakeManager \<Rightarrow> FakeManager" where
  "fake_Expire i m = fake_drop i m"

definition fake_WatchExpirations :: "nat \<Rightarrow> FakeManager \<Rightarrow> FakeManager" where
  "fake_WatchExpirations c m = m\<lparr>watchers := watchers m @ [(c, [])]\<rparr>"

fun remove_first :: "nat \<Rightarrow> (nat \<times> string list) list \<Rightarrow> (nat \<times> string list) list" where
  "remove_first c [] = []"
| "remove_first c ((d, q) # ws) = (if d = c then ws else (d, q) # remove_first c ws)"

definition fake_StopWatching :: "nat \<Rightarrow> FakeManager \<Rightarrow> FakeManager" where
  "fake_StopWatching c m = m\<lparr>watchers := remove_first c (watchers m)\<rparr>"

definition fake_WatcherCount :: "FakeManager \<Rightarrow> nat" where
  "fake_WatcherCount m = length (watchers m)"

definition fake_manager :: "FakeManager Manager" where
  "fake_manager = \<lparr>lm_Grant = fake_Grant, lm_Renew = fake_Renew, lm_Revoke = fake_Revoke\<rparr>"

lemma fake_manager_simps [simp]:
  "lm_Grant fake_manager = fake_Grant"
  "lm_Renew fake_manager = fake_Renew"
  "lm_Revoke fake_manager = fake_Revoke"
  by (simp_all add: fake_manager_def)

abbreviation fake_live :: "FakeManager \<Rightarrow> int \<rightharpoonup> string" where
  "fake_live m \<equiv> map_of (keyByID m)"

text \<open>Lease numbers count up from 1; \<open>fake_room b m\<close> leaves room for \<open>b\<close> more grants
  before the 64-bit counter would wrap.\<close>

definition fake_ok :: "FakeManager \<Rightarrow> bool" where
  "fake_ok m \<longleftrightarrow> 0 \<le> nextID m \<and> (\<forall>i. fake_live m i \<noteq> None \<longrightarrow> 1 \<le> i \<and> i \<le> nextID m)"

definition fake_room :: "nat \<Rightarrow> FakeManager \<Rightarrow> bool" where
  "fake_room b m \<longleftrightarrow> fake_ok m \<and> nextID m + int b < 2 ^ 63"

lemma fake_Grant_spec:
  assumes "fake_room (Suc n) m" "fake_Grant key ttl m = (x, m')"
  shows "\<exists>i. x = Inr i \<and> fake_live m i = None \<and> fake_live m' = (fake_live m)(i \<mapsto> key)
     \<and> fake_room n m'"
proof -
  from assms(1) have n: "i64 (nextID m + 1) = nextID m + 1"
    by (intro i64_id) (auto simp: fake_room_def fake_ok_def in_i64_def)
  from assms(1) have free: "fake_live m (nextID m + 1) = None"
    by (force simp: fake_room_def fake_ok_def)
  from assms(2) n have m': "x = Inr (nextID m + 1)" "nextID m' = nextID m + 1"
    "fake_live m' = (fake_live m)(nextID m + 1 \<mapsto> key)"
    by (auto simp: fake_Grant_def Let_def update_conv')
  have "fake_room n m'"
    unfolding fake_room_def fake_ok_def m'
    using assms(1) by (fastforce simp: fake_room_def fake_ok_def)
  with m' free show ?thesis by blast
qed

lemma fake_drop_live: "fake_live (fake_drop i m) = (fake_live m)(i := None)"
  by (auto simp: fake_drop_def delete_conv' split: option.splits)

lemma fake_drop_room: "fake_room n m \<Longrightarrow> fake_room n (fake_drop i m)"
proof -
  have "nextID (fake_drop i m) = nextID m" by (simp add: fake_drop_def split: option.splits)
  then show "fake_room n m \<Longrightarrow> fake_room n (fake_drop i m)"
    by (auto simp: fake_room_def fake_ok_def fake_drop_live split: if_splits)
qed

interpretation fake: lease_manager fake_manager fake_live fake_room
proof (unfold_locales, goal_cases)
  case (1 n l key ttl x l')
  then show ?case using fake_Grant_spec by simp
next
  case (4 n l i y l')
  then show ?case by (auto simp: fake_Revoke_def fake_drop_live fake_drop_room)
qed (auto simp: fake_Renew_def fake_room_def)

interpretation fake: expiring_manager fake_manager fake_live fake_room fake_Expire
  by unfold_locales (simp add: fake_Expire_def fake_drop_live fake_drop_room)

lemma fake_room_new: "int n < 2 ^ 63 \<Longrightarrow> fake_room n NewFakeManager"
  by (simp add: fake_room_def fake_ok_def NewFakeManager_def)

text \<open>An expiry reaches every watcher, after everything sent before.\<close>

lemma fake_Expire_delivers:
  "fake_live m i = Some key \<Longrightarrow>
     watchers (fake_Expire i m) = map (\<lambda>(c, q). (c, q @ [key])) (watchers m)"
  by (simp add: fake_Expire_def fake_drop_def)

lemma fake_Expire_dead: "fake_live m i = None \<Longrightarrow> fake_Expire i m = m"
  by (simp add: fake_Expire_def fake_drop_def)

section \<open>etcd.go\<close>

text \<open>The calls of \<^verbatim>\<open>clientv3.Client\<close> that \<^verbatim>\<open>EtcdManager\<close> makes; the client's state is
  that of the etcd cluster.\<close>

record 'e EtcdClient =
  ec_Grant :: "int \<Rightarrow> 'e \<Rightarrow> int result \<times> 'e"
  ec_PutWithLease :: "string \<Rightarrow> string \<Rightarrow> int \<Rightarrow> 'e \<Rightarrow> goerr option \<times> 'e"
  ec_KeepAliveOnce :: "int \<Rightarrow> 'e \<Rightarrow> goerr option \<times> 'e"
  ec_Revoke :: "int \<Rightarrow> 'e \<Rightarrow> goerr option \<times> 'e"

text \<open>\<^verbatim>\<open>int64(ttl.Seconds())\<close>; the detour over \<^verbatim>\<open>float64\<close> is exact for every TTL below
  \<open>2 ^ 23\<close> seconds.\<close>

definition whole_seconds :: "Duration \<Rightarrow> int" where
  "whole_seconds d = (if d < 0 then - (- d div Second) else d div Second)"

definition lease_seconds :: "Duration \<Rightarrow> int" where
  "lease_seconds ttl = (let seconds = whole_seconds ttl in if seconds < 1 then 1 else seconds)"

definition etcd_Grant :: "'e EtcdClient \<Rightarrow> string \<Rightarrow> Duration \<Rightarrow> 'e \<Rightarrow> int result \<times> 'e" where
  "etcd_Grant client key ttl e =
     (case ec_Grant client (lease_seconds ttl) e of
        (Inl err, e') \<Rightarrow> (Inl (Wrap ''leases: grant: '' err []), e')
      | (Inr lease, e') \<Rightarrow>
          (case ec_PutWithLease client key [] lease e' of
             (Some err, e'') \<Rightarrow> (Inl (Wrap ''leases: bind key to lease: '' err []), e'')
           | (None, e'') \<Rightarrow> (Inr lease, e'')))"

definition etcd_Renew :: "'e EtcdClient \<Rightarrow> int \<Rightarrow> 'e \<Rightarrow> goerr option \<times> 'e" where
  "etcd_Renew client i e =
     (case ec_KeepAliveOnce client i e of
        (Some err, e') \<Rightarrow>
          (Some (if errors_Is err Rpc_ErrLeaseNotFound then ErrLeaseNotFound
                 else Wrap ''leases: renew: '' err []), e')
      | (None, e') \<Rightarrow> (None, e'))"

definition etcd_Revoke :: "'e EtcdClient \<Rightarrow> int \<Rightarrow> 'e \<Rightarrow> goerr option \<times> 'e" where
  "etcd_Revoke client i e =
     (case ec_Revoke client i e of
        (Some err, e') \<Rightarrow>
          (if errors_Is err Rpc_ErrLeaseNotFound then None
           else Some (Wrap ''leases: revoke: '' err []), e')
      | (None, e') \<Rightarrow> (None, e'))"

definition etcd_manager :: "'e EtcdClient \<Rightarrow> 'e Manager" where
  "etcd_manager client =
     \<lparr>lm_Grant = etcd_Grant client, lm_Renew = etcd_Renew client, lm_Revoke = etcd_Revoke client\<rparr>"

text \<open>The events of one watch response: only deletions are forwarded.\<close>

datatype EtcdEvent = EventPut string | EventDelete string

fun deleted_keys :: "EtcdEvent list \<Rightarrow> string list" where
  "deleted_keys [] = []"
| "deleted_keys (EventPut k # es) = deleted_keys es"
| "deleted_keys (EventDelete k # es) = k # deleted_keys es"

definition etcd_WatchExpirations :: "EtcdEvent list list \<Rightarrow> string list" where
  "etcd_WatchExpirations responses = concat (map deleted_keys responses)"

text \<open>
  What etcd documents of its lease calls, on a cluster that answers: \<open>leases e\<close> are the
  leases not yet expired with the key that was put under each (none until the put).
\<close>

definition etcd_laws :: "'e EtcdClient \<Rightarrow> ('e \<Rightarrow> int \<rightharpoonup> string option) \<Rightarrow> bool" where
  "etcd_laws client leases \<longleftrightarrow>
     (\<forall>secs e. \<exists>i e'. ec_Grant client secs e = (Inr i, e') \<and> leases e i = None
        \<and> leases e' = (leases e)(i \<mapsto> None))
     \<and> (\<forall>key v i e. leases e i \<noteq> None \<longrightarrow>
          (\<exists>e'. ec_PutWithLease client key v i e = (None, e') \<and> leases e' = (leases e)(i \<mapsto> Some key)))
     \<and> (\<forall>i e. \<exists>e'. leases e' = leases e \<and> ec_KeepAliveOnce client i e =
          (if leases e i = None then Some Rpc_ErrLeaseNotFound else None, e'))
     \<and> (\<forall>i e. \<exists>e'. leases e' = (leases e)(i := None) \<and> ec_Revoke client i e =
          (if leases e i = None then Some Rpc_ErrLeaseNotFound else None, e'))"

definition bound_leases :: "('e \<Rightarrow> int \<rightharpoonup> string option) \<Rightarrow> 'e \<Rightarrow> int \<rightharpoonup> string" where
  "bound_leases leases e i = (case leases e i of None \<Rightarrow> None | Some b \<Rightarrow> b)"

text \<open>Under these laws \<^verbatim>\<open>EtcdManager\<close> keeps the contract, on states whose leases all have
  their key.\<close>

definition all_bound :: "('e \<Rightarrow> int \<rightharpoonup> string option) \<Rightarrow> nat \<Rightarrow> 'e \<Rightarrow> bool" where
  "all_bound leases n e \<longleftrightarrow> (\<forall>i. leases e i \<noteq> Some None)"

lemma etcd_lease_manager:
  assumes "etcd_laws client leases"
  shows "lease_manager (etcd_manager client) (bound_leases leases) (all_bound leases)"
proof (unfold_locales, goal_cases)
  case (1 n l key ttl x l')
  from assms obtain i e1 where g: "ec_Grant client (lease_seconds ttl) l = (Inr i, e1)"
    "leases l i = None" "leases e1 = (leases l)(i \<mapsto> None)" unfolding etcd_laws_def by blast
  then have "leases e1 i \<noteq> None" by simp
  with assms obtain e2 where p: "ec_PutWithLease client key [] i e1 = (None, e2)"
    "leases e2 = (leases e1)(i \<mapsto> Some key)" unfolding etcd_laws_def by blast
  with 1 g show ?case
    by (auto simp: etcd_manager_def etcd_Grant_def bound_leases_def all_bound_def fun_eq_iff)
next
  case (2 n l i y l')
  from assms obtain e' where "leases e' = leases l" "ec_KeepAliveOnce client i l =
    (if leases l i = None then Some Rpc_ErrLeaseNotFound else None, e')"
    unfolding etcd_laws_def by blast
  with 2 show ?case
    by (cases "leases l i")
      (auto simp: etcd_manager_def etcd_Renew_def bound_leases_def all_bound_def fun_eq_iff)
next
  case (3 n l i y l')
  from assms obtain e' where "leases e' = leases l" "ec_KeepAliveOnce client i l =
    (if leases l i = None then Some Rpc_ErrLeaseNotFound else None, e')"
    unfolding etcd_laws_def by blast
  with 3 show ?case
    by (cases "leases l i")
      (auto simp: etcd_manager_def etcd_Renew_def bound_leases_def all_bound_def fun_eq_iff)
next
  case (4 n l i y l')
  from assms obtain e' where "leases e' = (leases l)(i := None)" "ec_Revoke client i l =
    (if leases l i = None then Some Rpc_ErrLeaseNotFound else None, e')"
    unfolding etcd_laws_def by blast
  with 4 show ?case
    by (cases "leases l i")
      (auto simp: etcd_manager_def etcd_Revoke_def bound_leases_def all_bound_def fun_eq_iff)
qed (simp add: all_bound_def)

end
