(* ===== verification/Jobs.thy ===== *)
theory Jobs
  imports Float64
begin

text \<open>
  The job domain type and request validation: \<^verbatim>\<open>internal/jobs/job.go\<close>,
  \<^verbatim>\<open>internal/jobs/validation.go\<close>, \<^verbatim>\<open>internal/jobs/id.go\<close>.
  Integer fields are \<open>int\<close>; \<open>job_ranges\<close> states the ranges their Go types give them.
\<close>

section \<open>job.go\<close>

text \<open>\<^verbatim>\<open>State\<close> is a string type in the source; \<open>StateZero\<close> is its zero value
  \<^verbatim>\<open>""\<close>, which no job carries and which means "no filter" in \<^verbatim>\<open>ListOptions\<close>.\<close>

datatype State =
    StateQueued | StateScheduled | StateRunning | StateCheckpointing | StateSucceeded
  | StateFailed | StateRetrying | StateCancelRequested | StateCancelled | StatePreempted
  | StateLost | StateZero

fun state_string :: "State \<Rightarrow> string" where
  "state_string StateQueued = ''QUEUED''"
| "state_string StateScheduled = ''SCHEDULED''"
| "state_string StateRunning = ''RUNNING''"
| "state_string StateCheckpointing = ''CHECKPOINTING''"
| "state_string StateSucceeded = ''SUCCEEDED''"
| "state_string StateFailed = ''FAILED''"
| "state_string StateRetrying = ''RETRYING''"
| "state_string StateCancelRequested = ''CANCEL_REQUESTED''"
| "state_string StateCancelled = ''CANCELLED''"
| "state_string StatePreempted = ''PREEMPTED''"
| "state_string StateLost = ''LOST''"
| "state_string StateZero = []"

fun Terminal :: "State \<Rightarrow> bool" where
  "Terminal s = (case s of StateSucceeded \<Rightarrow> True | StateFailed \<Rightarrow> True | StateCancelled \<Rightarrow> True | _ \<Rightarrow> False)"

record ResourceRequest =
  GPUCount :: int
  MinGPUMemoryBytes :: int
  CPUCores :: float64
  MemoryBytes :: int

record Job =
  job_ID :: string
  job_Name :: string
  job_SubmissionID :: string
  job_Owner :: string
  job_Image :: string
  job_Command :: "string slice"
  job_Resources :: ResourceRequest
  job_Priority :: int
  job_Preemptible :: bool
  job_RetryLimit :: int
  job_CurrentAttempt :: int
  job_TimeoutSeconds :: int
  job_CheckpointIntervalSeconds :: int
  job_State :: State
  job_AssignedWorkerIDs :: "string slice"
  job_FailureReason :: string
  job_CreatedAt :: Time
  job_StartedAt :: "Time option"
  job_CompletedAt :: "Time option"
  job_FailedAt :: "Time option"

definition resource_ranges :: "ResourceRequest \<Rightarrow> bool" where
  "resource_ranges r \<longleftrightarrow> in_u32 (GPUCount r) \<and> in_i64 (MinGPUMemoryBytes r) \<and> in_i64 (MemoryBytes r)"

definition job_ranges :: "Job \<Rightarrow> bool" where
  "job_ranges j \<longleftrightarrow>
     resource_ranges (job_Resources j) \<and> in_i32 (job_Priority j) \<and> in_i32 (job_RetryLimit j)
     \<and> in_i32 (job_CurrentAttempt j) \<and> in_i64 (job_TimeoutSeconds j)
     \<and> in_i64 (job_CheckpointIntervalSeconds j)"

lemma Terminal_iff: "Terminal s \<longleftrightarrow> s \<in> {StateSucceeded, StateFailed, StateCancelled}"
  by (cases s) simp_all

section \<open>id.go\<close>

text \<open>\<^verbatim>\<open>hex.EncodeToString\<close> of the bytes \<^verbatim>\<open>crypto/rand\<close> delivers.\<close>

definition hex_char :: "nat \<Rightarrow> char" where
  "hex_char n = (if n < 10 then char_of (48 + n) else char_of (87 + n))"

definition hex_encode :: "nat list \<Rightarrow> string" where
  "hex_encode bs = concat (map (\<lambda>b. [hex_char (b div 16), hex_char (b mod 16)]) bs)"

definition newRandomID :: "string \<Rightarrow> nat list \<Rightarrow> string" where
  "newRandomID pre b = pre @ ''-'' @ hex_encode b"

section \<open>validation.go\<close>

definition MaxNameLength :: nat where "MaxNameLength = 253"
definition MaxOwnerLength :: nat where "MaxOwnerLength = 253"
definition MaxCommandArgs :: nat where "MaxCommandArgs = 256"
definition MaxCommandArgLength :: nat where "MaxCommandArgLength = 4096"
definition MaxSubmissionIDLength :: nat where "MaxSubmissionIDLength = 256"
definition MaxGPUCount :: int where "MaxGPUCount = 64"
definition MaxPriority :: int where "MaxPriority = 100"
definition MaxRetryLimit :: int where "MaxRetryLimit = 100"

lemmas submit_limits =
  MaxNameLength_def MaxOwnerLength_def MaxCommandArgs_def MaxCommandArgLength_def
  MaxSubmissionIDLength_def MaxGPUCount_def MaxPriority_def MaxRetryLimit_def

record SubmitInput =
  in_Name :: string
  in_Owner :: string
  in_Image :: string
  in_Command :: "string slice"
  in_Resources :: ResourceRequest
  in_Priority :: int
  in_Preemptible :: bool
  in_RetryLimit :: int
  in_TimeoutSeconds :: int
  in_CheckpointIntervalSeconds :: int
  in_SubmissionID :: string

definition submit_ranges :: "SubmitInput \<Rightarrow> bool" where
  "submit_ranges i \<longleftrightarrow>
     resource_ranges (in_Resources i) \<and> in_i32 (in_Priority i) \<and> in_i32 (in_RetryLimit i)
     \<and> in_i64 (in_TimeoutSeconds i) \<and> in_i64 (in_CheckpointIntervalSeconds i)"

text \<open>The loop over \<^verbatim>\<open>in.Command\<close> with its \<^verbatim>\<open>break\<close>: the first overlong argument only.\<close>

fun long_arg_problem :: "nat \<Rightarrow> string list \<Rightarrow> string list" where
  "long_arg_problem i [] = []"
| "long_arg_problem i (arg # args) =
     (if length arg > MaxCommandArgLength
      then [''command['' @ itoa (int i) @ ''] exceeds max length '' @ itoa (int MaxCommandArgLength)]
      else long_arg_problem (Suc i) args)"

definition submit_problems :: "SubmitInput \<Rightarrow> string list" where
  "submit_problems i =
     (if TrimSpace (in_Name i) = [] then [''name must not be empty'']
      else if length (in_Name i) > MaxNameLength
      then [''name must be at most '' @ itoa (int MaxNameLength) @ '' characters''] else [])
     @ (if TrimSpace (in_Owner i) = [] then [''owner must not be empty'']
        else if length (in_Owner i) > MaxOwnerLength
        then [''owner must be at most '' @ itoa (int MaxOwnerLength) @ '' characters''] else [])
     @ (if TrimSpace (in_Image i) = [] then [''image must not be empty''] else [])
     @ (if length (elems (in_Command i)) > MaxCommandArgs
        then [''command must have at most '' @ itoa (int MaxCommandArgs) @ '' arguments''] else [])
     @ long_arg_problem 0 (elems (in_Command i))
     @ (if GPUCount (in_Resources i) > MaxGPUCount
        then [''gpu_count must be at most '' @ itoa MaxGPUCount] else [])
     @ (if MinGPUMemoryBytes (in_Resources i) < 0
        then [''min_gpu_memory_bytes must not be negative''] else [])
     @ (if f_lt (CPUCores (in_Resources i)) f_zero then [''cpu_cores must not be negative''] else [])
     @ (if MemoryBytes (in_Resources i) < 0 then [''memory_bytes must not be negative''] else [])
     @ (if in_Priority i < 0 \<or> in_Priority i > MaxPriority
        then [''priority must be between 0 and '' @ itoa MaxPriority] else [])
     @ (if in_RetryLimit i < 0 then [''retry_limit must not be negative'']
        else if in_RetryLimit i > MaxRetryLimit
        then [''retry_limit must be at most '' @ itoa MaxRetryLimit] else [])
     @ (if in_TimeoutSeconds i < 0 then [''timeout_seconds must not be negative''] else [])
     @ (if in_CheckpointIntervalSeconds i < 0
        then [''checkpoint_interval_seconds must not be negative''] else [])
     @ (if length (in_SubmissionID i) > MaxSubmissionIDLength
        then [''submission_id must be at most '' @ itoa (int MaxSubmissionIDLength) @ '' characters'']
        else [])"

definition ValidateSubmit :: "SubmitInput \<Rightarrow> goerr option" where
  "ValidateSubmit i =
     (let problems = submit_problems i
      in if problems = [] then None else Some (Jobs_ValidationError problems))"

text \<open>The request shape \<^verbatim>\<open>ValidateSubmit\<close> accepts, stated on its own.\<close>

definition valid_submit :: "SubmitInput \<Rightarrow> bool" where
  "valid_submit i \<longleftrightarrow>
     TrimSpace (in_Name i) \<noteq> [] \<and> length (in_Name i) \<le> 253
     \<and> TrimSpace (in_Owner i) \<noteq> [] \<and> length (in_Owner i) \<le> 253
     \<and> TrimSpace (in_Image i) \<noteq> []
     \<and> length (elems (in_Command i)) \<le> 256
     \<and> list_all (\<lambda>a. length a \<le> 4096) (elems (in_Command i))
     \<and> GPUCount (in_Resources i) \<le> 64
     \<and> 0 \<le> MinGPUMemoryBytes (in_Resources i)
     \<and> \<not> f_lt (CPUCores (in_Resources i)) f_zero
     \<and> 0 \<le> MemoryBytes (in_Resources i)
     \<and> 0 \<le> in_Priority i \<and> in_Priority i \<le> 100
     \<and> 0 \<le> in_RetryLimit i \<and> in_RetryLimit i \<le> 100
     \<and> 0 \<le> in_TimeoutSeconds i \<and> 0 \<le> in_CheckpointIntervalSeconds i
     \<and> length (in_SubmissionID i) \<le> 256"

lemma long_arg_problem_Nil:
  "long_arg_problem n args = [] \<longleftrightarrow> list_all (\<lambda>a. length a \<le> 4096) args"
  by (induction args arbitrary: n) (auto simp: MaxCommandArgLength_def)

lemma submit_problems_Nil: "submit_problems i = [] \<longleftrightarrow> valid_submit i"
  unfolding submit_problems_def valid_submit_def append_is_Nil_conv problem_Nil long_arg_problem_Nil
  unfolding submit_limits not_less de_Morgan_disj conj_assoc ..

lemma ValidateSubmit_None: "ValidateSubmit i = None \<longleftrightarrow> valid_submit i"
  by (simp add: ValidateSubmit_def submit_problems_Nil Let_def)

lemma ValidateSubmit_Some:
  "\<not> valid_submit i \<Longrightarrow> ValidateSubmit i = Some (Jobs_ValidationError (submit_problems i))"
  by (simp add: ValidateSubmit_def submit_problems_Nil Let_def)

text \<open>Identifiers differ when the random bytes differ.\<close>

lemma of_hex_char: "a < 16 \<Longrightarrow> of_char (hex_char a) = (if a < 10 then 48 + a else 87 + a)"
  by (simp add: hex_char_def)

lemma hex_char_inj:
  assumes "a < 16" "b < 16" "hex_char a = hex_char b"
  shows "a = b"
proof -
  from assms have "(if a < 10 then 48 + a else 87 + a) = (if b < 10 then 48 + b else 87 + b)"
    by (metis of_hex_char)
  then show ?thesis by (simp split: if_splits)
qed

lemma hex_encode_inj:
  assumes "\<forall>x \<in> set as. x < 256" "\<forall>x \<in> set bs. x < 256" "hex_encode as = hex_encode bs"
  shows "as = bs"
  using assms
proof (induction as arbitrary: bs)
  case Nil
  then show ?case by (cases bs) (simp_all add: hex_encode_def)
next
  case (Cons a as)
  then obtain b bs' where bs: "bs = b # bs'" by (cases bs) (simp_all add: hex_encode_def)
  have lt: "a div 16 < 16" "b div 16 < 16" "a mod 16 < 16" "b mod 16 < 16"
    using Cons.prems(1,2) bs by (simp_all add: less_mult_imp_div_less)
  from Cons.prems(3) bs have "hex_char (a div 16) = hex_char (b div 16)"
    "hex_char (a mod 16) = hex_char (b mod 16)" and r: "hex_encode as = hex_encode bs'"
    by (simp_all add: hex_encode_def)
  then have "a div 16 = b div 16" "a mod 16 = b mod 16" by (auto intro: hex_char_inj lt)
  then have "a = b" by (metis div_mult_mod_eq)
  moreover have "as = bs'" using Cons.IH [OF _ _ r] Cons.prems(1,2) bs by simp
  ultimately show ?case using bs by simp
qed

end
