(* ===== verification/Job_Repository.thy ===== *)
theory Job_Repository
  imports Jobs Page_Token
begin

text \<open>
  Storage of jobs.  The Go interface \<^verbatim>\<open>jobs.Repository\<close>
  (\<^verbatim>\<open>internal/jobs/repository.go\<close>) is a record of functions over an arbitrary store; the
  locale \<open>job_repository\<close> states what every implementation promises, against an abstract
  map from identifiers to jobs.  \<^verbatim>\<open>MemoryRepository\<close>
  (\<^verbatim>\<open>internal/jobs/memory_repository.go\<close>) is modelled in full and interprets the locale.
\<close>

section \<open>repository.go\<close>

record ListOptions =
  opt_PageSize :: int
  opt_PageToken :: string
  opt_StateFilter :: State

record ListResult =
  res_Jobs :: "Job list"
  res_NextPageToken :: string

record 'r JobRepository =
  repo_Create :: "Job \<Rightarrow> 'r \<Rightarrow> (Job \<times> bool) result \<times> 'r"
  repo_Get :: "string \<Rightarrow> 'r \<Rightarrow> Job result"
  repo_List :: "ListOptions \<Rightarrow> 'r \<Rightarrow> ListResult result"
  repo_Update :: "string \<Rightarrow> (Job \<Rightarrow> Job result) \<Rightarrow> 'r \<Rightarrow> Job result \<times> 'r"
  repo_ListActive :: "'r \<Rightarrow> Job list result"

text \<open>The two orders of the interface comments: \<open>(CreatedAt, ID)\<close> ascending for
  \<^verbatim>\<open>List\<close>, and priority descending before them for \<^verbatim>\<open>ListActive\<close>.\<close>

definition created_less :: "Job \<Rightarrow> Job \<Rightarrow> bool" where
  "created_less a b =
     (if job_CreatedAt a = job_CreatedAt b then job_ID a < job_ID b
      else job_CreatedAt a < job_CreatedAt b)"

definition active_less :: "Job \<Rightarrow> Job \<Rightarrow> bool" where
  "active_less a b =
     (if job_Priority a \<noteq> job_Priority b then job_Priority a > job_Priority b
      else if job_CreatedAt a = job_CreatedAt b then job_ID a < job_ID b
      else job_CreatedAt a < job_CreatedAt b)"

interpretation created: keyed_less created_less job_ID
  by unfold_locales (auto simp: created_less_def split: if_splits)

interpretation active: keyed_less active_less job_ID
  by unfold_locales (auto simp: active_less_def split: if_splits)

text \<open>
  What a store keeps of a job: a durable store may round timestamps and replace a nil slice
  by an empty one.  \<open>norm_job\<close> is the identity for the in-memory store.
\<close>

definition norm_job :: "(Time \<Rightarrow> Time) \<Rightarrow> (string slice \<Rightarrow> string slice) \<Rightarrow> Job \<Rightarrow> Job" where
  "norm_job tn sn j =
     j\<lparr>job_Command := sn (job_Command j),
       job_AssignedWorkerIDs := sn (job_AssignedWorkerIDs j),
       job_CreatedAt := tn (job_CreatedAt j),
       job_StartedAt := map_option tn (job_StartedAt j),
       job_CompletedAt := map_option tn (job_CompletedAt j),
       job_FailedAt := map_option tn (job_FailedAt j)\<rparr>"

lemma norm_job_fields [simp]:
  "job_ID (norm_job tn sn j) = job_ID j"
  "job_SubmissionID (norm_job tn sn j) = job_SubmissionID j"
  "job_State (norm_job tn sn j) = job_State j"
  "job_Resources (norm_job tn sn j) = job_Resources j"
  "job_Priority (norm_job tn sn j) = job_Priority j"
  "job_Preemptible (norm_job tn sn j) = job_Preemptible j"
  "job_RetryLimit (norm_job tn sn j) = job_RetryLimit j"
  "job_CurrentAttempt (norm_job tn sn j) = job_CurrentAttempt j"
  "job_FailureReason (norm_job tn sn j) = job_FailureReason j"
  by (simp_all add: norm_job_def)

lemma norm_job_id [simp]: "norm_job (\<lambda>t. t) (\<lambda>s. s) j = j"
  by (simp add: norm_job_def option.map_ident)

text \<open>A function handed to \<^verbatim>\<open>Update\<close> leaves the identity columns alone and stays within the Go types.\<close>

definition keeps_identity :: "(Job \<Rightarrow> Job result) \<Rightarrow> bool" where
  "keeps_identity f \<longleftrightarrow>
     (\<forall>j j'. f j = Inr j' \<longrightarrow> job_ID j' = job_ID j \<and> job_SubmissionID j' = job_SubmissionID j
        \<and> (job_ranges j \<longrightarrow> job_ranges j'))"

definition submission_free :: "string \<Rightarrow> (string \<rightharpoonup> Job) \<Rightarrow> bool" where
  "submission_free s m \<longleftrightarrow> s = [] \<or> (\<forall>k j. m k = Some j \<longrightarrow> job_SubmissionID j \<noteq> s)"

section \<open>The contract of a repository\<close>

text \<open>Two contracts.  A \<open>job_store\<close> may refuse any write, for a reason of its own, but a refused
  write changes nothing and a performed one does exactly what was asked: this is what a database
  promises.  A \<open>job_repository\<close> refuses nothing.\<close>

locale job_store =
  fixes repo :: "'r JobRepository"
    and jobs_of :: "'r \<Rightarrow> string \<rightharpoonup> Job"
    and repo_ok :: "'r \<Rightarrow> bool"
    and tn :: "Time \<Rightarrow> Time"
    and sn :: "string slice \<Rightarrow> string slice"
  assumes sn_elems: "elems (sn s) = elems s"
    and stored_id: "repo_ok r \<Longrightarrow> jobs_of r k = Some j \<Longrightarrow> job_ID j = k"
    and stored_norm: "repo_ok r \<Longrightarrow> jobs_of r k = Some j \<Longrightarrow> norm_job tn sn j = j"
    and submission_unique:
      "repo_ok r \<Longrightarrow> jobs_of r k = Some j \<Longrightarrow> jobs_of r k' = Some j' \<Longrightarrow>
       job_SubmissionID j = job_SubmissionID j' \<Longrightarrow> job_SubmissionID j \<noteq> [] \<Longrightarrow> k = k'"
    and create_effect:
      "repo_ok r \<Longrightarrow> job_ranges j \<Longrightarrow> jobs_of r (job_ID j) = None \<Longrightarrow> repo_Create repo j r = (x, r') \<Longrightarrow>
       (\<exists>e. x = Inl e) \<and> r' = r
       \<or> (\<exists>k j0. jobs_of r k = Some j0 \<and> job_SubmissionID j0 = job_SubmissionID j \<and> job_SubmissionID j \<noteq> []
            \<and> x = Inr (j0, False) \<and> r' = r)
       \<or> submission_free (job_SubmissionID j) (jobs_of r) \<and> x = Inr (norm_job tn sn j, True) \<and> repo_ok r'
            \<and> jobs_of r' = (jobs_of r)(job_ID j \<mapsto> norm_job tn sn j)"
    and get_found: "repo_ok r \<Longrightarrow> jobs_of r k = Some j \<Longrightarrow> repo_Get repo k r = Inr j"
    and get_missing: "repo_ok r \<Longrightarrow> jobs_of r k = None \<Longrightarrow> \<exists>e. repo_Get repo k r = Inl e"
    and update_effect:
      "repo_ok r \<Longrightarrow> keeps_identity f \<Longrightarrow> repo_Update repo k f r = (y, r') \<Longrightarrow>
       (\<exists>e. y = Inl e) \<and> r' = r
       \<or> (\<exists>j j'. jobs_of r k = Some j \<and> f j = Inr j' \<and> y = Inr (norm_job tn sn j') \<and> repo_ok r'
            \<and> jobs_of r' = (jobs_of r)(k \<mapsto> norm_job tn sn j'))"
    and active_law:
      "repo_ok r \<Longrightarrow> \<exists>xs. repo_ListActive repo r = Inr xs \<and> ordered_by active_less xs \<and>
       distinct (map job_ID xs) \<and>
       set xs = {j. (\<exists>k. jobs_of r k = Some j) \<and> \<not> Terminal (job_State j)}"
begin

lemma update_store:
  assumes "repo_ok r" "keeps_identity f" "repo_Update repo k f r = (x, r')"
  obtains (refused) e where "x = Inl e" "r' = r"
  | (written) j j' where "jobs_of r k = Some j" "f j = Inr j'" "x = Inr (norm_job tn sn j')"
      "repo_ok r'" "jobs_of r' = (jobs_of r)(k \<mapsto> norm_job tn sn j')"
  using update_effect [OF assms] by blast

lemma unused_id: "repo_ok r \<Longrightarrow> repo_Get repo k r = Inl e \<Longrightarrow> jobs_of r k = None"
  using get_found [of r k] by (cases "jobs_of r k") auto

lemma norm_elems [simp]:
  "elems (job_AssignedWorkerIDs (norm_job tn sn j)) = elems (job_AssignedWorkerIDs j)"
  "elems (job_Command (norm_job tn sn j)) = elems (job_Command j)"
  by (simp_all add: norm_job_def sn_elems)

end

locale job_repository = job_store +
  assumes create_existing:
      "repo_ok r \<Longrightarrow> job_SubmissionID j \<noteq> [] \<Longrightarrow> jobs_of r k = Some j0 \<Longrightarrow>
       job_SubmissionID j0 = job_SubmissionID j \<Longrightarrow> repo_Create repo j r = (Inr (j0, False), r)"
    and create_new:
      "repo_ok r \<Longrightarrow> submission_free (job_SubmissionID j) (jobs_of r) \<Longrightarrow>
       jobs_of r (job_ID j) = None \<Longrightarrow> repo_Create repo j r = (x, r') \<Longrightarrow>
       x = Inr (norm_job tn sn j, True) \<and> repo_ok r' \<and>
       jobs_of r' = (jobs_of r)(job_ID j \<mapsto> norm_job tn sn j)"
    and get_law:
      "repo_ok r \<Longrightarrow> repo_Get repo k r =
       (case jobs_of r k of None \<Rightarrow> Inl Jobs_ErrNotFound | Some j \<Rightarrow> Inr j)"
    and update_missing:
      "repo_ok r \<Longrightarrow> jobs_of r k = None \<Longrightarrow> repo_Update repo k f r = (Inl Jobs_ErrNotFound, r)"
    and update_error:
      "repo_ok r \<Longrightarrow> jobs_of r k = Some j \<Longrightarrow> f j = Inl e \<Longrightarrow> repo_Update repo k f r = (Inl e, r)"
    and update_ok:
      "repo_ok r \<Longrightarrow> jobs_of r k = Some j \<Longrightarrow> f j = Inr j' \<Longrightarrow>
       job_ID j' = job_ID j \<Longrightarrow> job_SubmissionID j' = job_SubmissionID j \<Longrightarrow>
       repo_Update repo k f r = (y, r') \<Longrightarrow>
       y = Inr (norm_job tn sn j') \<and> repo_ok r' \<and>
       jobs_of r' = (jobs_of r)(k \<mapsto> norm_job tn sn j')"
begin

text \<open>One law for \<^verbatim>\<open>Update\<close>: what becomes of the store for every outcome of the function.\<close>

lemma update_cases:
  assumes "repo_ok r" "keeps_identity f" "repo_Update repo k f r = (x, r')"
  obtains (missing) "jobs_of r k = None" "x = Inl Jobs_ErrNotFound" "r' = r"
  | (error) j e where "jobs_of r k = Some j" "f j = Inl e" "x = Inl e" "r' = r"
  | (ok) j j' where "jobs_of r k = Some j" "f j = Inr j'" "x = Inr (norm_job tn sn j')"
      "repo_ok r'" "jobs_of r' = (jobs_of r)(k \<mapsto> norm_job tn sn j')"
proof (cases "jobs_of r k")
  case None
  then show ?thesis using missing update_missing [OF assms(1) None, of f] assms(3) by simp
next
  case (Some j)
  show ?thesis
  proof (cases "f j")
    case (Inl e)
    then show ?thesis using error [OF Some Inl] update_error [of r k j f e] Some assms(1,3) by simp
  next
    case (Inr j')
    with assms(2) have "job_ID j' = job_ID j" "job_SubmissionID j' = job_SubmissionID j"
      by (auto simp: keeps_identity_def)
    from update_ok [OF assms(1) Some Inr this assms(3)] show ?thesis
      by (elim conjE) (rule ok [OF Some Inr])
  qed
qed

lemma update_keeps_ok:
  assumes "repo_ok r" "keeps_identity f" "repo_Update repo k f r = (x, r')"
  shows "repo_ok r'"
  by (rule update_cases [OF assms]) (use assms in simp_all)

end

section \<open>memory_repository.go\<close>

record MemoryRepository =
  jobsByID :: "(string \<times> Job) list"
  idBySubmission :: "(string \<times> string) list"

definition NewMemoryRepository :: MemoryRepository where
  "NewMemoryRepository = \<lparr>jobsByID = [], idBySubmission = []\<rparr>"

definition zero_resources :: ResourceRequest where
  "zero_resources = \<lparr>GPUCount = 0, MinGPUMemoryBytes = 0, CPUCores = f_zero, MemoryBytes = 0\<rparr>"

text \<open>The zero value \<^verbatim>\<open>Job{}\<close>; \<^verbatim>\<open>time.Time{}\<close> is year 1 of the calendar.\<close>

definition zero_time :: Time where "zero_time = - 62135596800000000000"

definition zero_job :: Job where
  "zero_job = \<lparr>job_ID = [], job_Name = [], job_SubmissionID = [], job_Owner = [], job_Image = [],
     job_Command = None, job_Resources = zero_resources, job_Priority = 0, job_Preemptible = False,
     job_RetryLimit = 0, job_CurrentAttempt = 0, job_TimeoutSeconds = 0,
     job_CheckpointIntervalSeconds = 0, job_State = StateZero, job_AssignedWorkerIDs = None,
     job_FailureReason = [], job_CreatedAt = zero_time, job_StartedAt = None,
     job_CompletedAt = None, job_FailedAt = None\<rparr>"

definition mem_Create :: "Job \<Rightarrow> MemoryRepository \<Rightarrow> (Job \<times> bool) result \<times> MemoryRepository" where
  "mem_Create job r =
     (case (if job_SubmissionID job \<noteq> [] then map_of (idBySubmission r) (job_SubmissionID job) else None) of
        Some existingID \<Rightarrow>
          (Inr (case map_of (jobsByID r) existingID of None \<Rightarrow> zero_job | Some j \<Rightarrow> j, False), r)
      | None \<Rightarrow>
          (Inr (job, True),
           r\<lparr>jobsByID := AList.update (job_ID job) job (jobsByID r),
             idBySubmission :=
               (if job_SubmissionID job \<noteq> []
                then AList.update (job_SubmissionID job) (job_ID job) (idBySubmission r)
                else idBySubmission r)\<rparr>))"

definition mem_Get :: "string \<Rightarrow> MemoryRepository \<Rightarrow> Job result" where
  "mem_Get k r = (case map_of (jobsByID r) k of None \<Rightarrow> Inl Jobs_ErrNotFound | Some j \<Rightarrow> Inr j)"

text \<open>The slice \<^verbatim>\<open>all\<close> of \<^verbatim>\<open>List\<close>: the jobs that pass the filter, sorted.\<close>

definition mem_listing :: "State \<Rightarrow> MemoryRepository \<Rightarrow> Job list" where
  "mem_listing f r =
     sort_slice created_less
       (filter (\<lambda>j. \<not> (f \<noteq> StateZero \<and> job_State j \<noteq> f)) (map snd (jobsByID r)))"

definition mem_List :: "ListOptions \<Rightarrow> MemoryRepository \<Rightarrow> ListResult result" where
  "mem_List opts r =
     (case page_slice (mem_listing (opt_StateFilter opts) r) (opt_PageSize opts) (opt_PageToken opts) of
        Inl e \<Rightarrow> Inl e
      | Inr (page, next) \<Rightarrow> Inr \<lparr>res_Jobs = page, res_NextPageToken = next\<rparr>)"

definition mem_Update ::
    "string \<Rightarrow> (Job \<Rightarrow> Job result) \<Rightarrow> MemoryRepository \<Rightarrow> Job result \<times> MemoryRepository" where
  "mem_Update k f r =
     (case map_of (jobsByID r) k of
        None \<Rightarrow> (Inl Jobs_ErrNotFound, r)
      | Some job \<Rightarrow>
          (case f job of
             Inl e \<Rightarrow> (Inl e, r)
           | Inr updated \<Rightarrow> (Inr updated, r\<lparr>jobsByID := AList.update k updated (jobsByID r)\<rparr>)))"

definition mem_ListActive :: "MemoryRepository \<Rightarrow> Job list result" where
  "mem_ListActive r =
     Inr (sort_slice active_less (filter (\<lambda>j. \<not> Terminal (job_State j)) (map snd (jobsByID r))))"

definition memory_repository :: "MemoryRepository JobRepository" where
  "memory_repository =
     \<lparr>repo_Create = mem_Create, repo_Get = mem_Get, repo_List = mem_List,
      repo_Update = mem_Update, repo_ListActive = mem_ListActive\<rparr>"

lemma memory_repository_simps [simp]:
  "repo_Create memory_repository = mem_Create"
  "repo_Get memory_repository = mem_Get"
  "repo_List memory_repository = mem_List"
  "repo_Update memory_repository = mem_Update"
  "repo_ListActive memory_repository = mem_ListActive"
  by (simp_all add: memory_repository_def)

section \<open>The in-memory repository keeps the contract\<close>

abbreviation mem_jobs :: "MemoryRepository \<Rightarrow> string \<rightharpoonup> Job" where
  "mem_jobs r \<equiv> map_of (jobsByID r)"

text \<open>Jobs are filed under their identifier, and the submission index holds exactly the
  stored jobs that have a submission identifier.\<close>

definition mem_ok :: "MemoryRepository \<Rightarrow> bool" where
  "mem_ok r \<longleftrightarrow> keys_ok (jobsByID r)
     \<and> (\<forall>k j. mem_jobs r k = Some j \<longrightarrow> job_ID j = k)
     \<and> (\<forall>s k. map_of (idBySubmission r) s = Some k \<longleftrightarrow>
          s \<noteq> [] \<and> (\<exists>j. mem_jobs r k = Some j \<and> job_SubmissionID j = s))"

lemma mem_ok_new [simp]: "mem_ok NewMemoryRepository"
  by (simp add: mem_ok_def NewMemoryRepository_def)

lemma mem_ok_id: "mem_ok r \<Longrightarrow> mem_jobs r k = Some j \<Longrightarrow> job_ID j = k"
  by (simp add: mem_ok_def)

lemma mem_ok_index:
  "mem_ok r \<Longrightarrow> map_of (idBySubmission r) s = Some k \<longleftrightarrow>
     s \<noteq> [] \<and> (\<exists>j. mem_jobs r k = Some j \<and> job_SubmissionID j = s)"
  by (simp add: mem_ok_def)

lemma mem_ok_values: "mem_ok r \<Longrightarrow> set (map snd (jobsByID r)) = {j. \<exists>k. mem_jobs r k = Some j}"
  using map_of_values [of "jobsByID r"] by (auto simp: mem_ok_def)

lemma mem_ok_distinct: "mem_ok r \<Longrightarrow> distinct (map job_ID (map snd (jobsByID r)))"
proof -
  assume ok: "mem_ok r"
  then have "\<forall>p \<in> set (jobsByID r). job_ID (snd p) = fst p"
    by (auto simp: mem_ok_def keys_ok_def)
  then have "map job_ID (map snd (jobsByID r)) = map fst (jobsByID r)" by simp
  then show ?thesis using ok by (simp only: mem_ok_def keys_ok_def)
qed

lemma mem_Create_existing:
  assumes "mem_ok r" "job_SubmissionID j \<noteq> []" "mem_jobs r k = Some j0"
    "job_SubmissionID j0 = job_SubmissionID j"
  shows "mem_Create j r = (Inr (j0, False), r)"
proof -
  from assms have "map_of (idBySubmission r) (job_SubmissionID j) = Some k"
    by (simp add: mem_ok_index)
  with assms show ?thesis by (simp add: mem_Create_def)
qed

lemma mem_Create_new:
  assumes ok: "mem_ok r" and free: "submission_free (job_SubmissionID j) (mem_jobs r)"
    and new: "mem_jobs r (job_ID j) = None" and c: "mem_Create j r = (x, r')"
  shows "x = Inr (j, True) \<and> mem_ok r' \<and> mem_jobs r' = (mem_jobs r)(job_ID j \<mapsto> j)"
proof -
  have none: "(if job_SubmissionID j \<noteq> [] then map_of (idBySubmission r) (job_SubmissionID j) else None) = None"
  proof (cases "map_of (idBySubmission r) (job_SubmissionID j)")
    case (Some k)
    with ok free show ?thesis by (auto simp: submission_free_def mem_ok_index)
  qed simp
  from c have r': "x = Inr (j, True)" "r' = r\<lparr>jobsByID := AList.update (job_ID j) j (jobsByID r),
     idBySubmission := (if job_SubmissionID j \<noteq> []
       then AList.update (job_SubmissionID j) (job_ID j) (idBySubmission r) else idBySubmission r)\<rparr>"
    by (simp_all add: mem_Create_def none)
  have m: "mem_jobs r' = (mem_jobs r)(job_ID j \<mapsto> j)"
    by (simp add: r' update_conv')
  have "map_of (idBySubmission r') s = Some k \<longleftrightarrow>
      s \<noteq> [] \<and> (\<exists>i. mem_jobs r' k = Some i \<and> job_SubmissionID i = s)" for s k
    unfolding m using ok free new mem_ok_index [OF ok, of s k]
    by (auto simp: r' update_conv' submission_free_def split: if_splits)
  with ok m show ?thesis by (simp add: r' mem_ok_def)
qed

lemma mem_Update_ok:
  assumes ok: "mem_ok r" and j: "mem_jobs r k = Some j" "f j = Inr j'"
    "job_ID j' = job_ID j" "job_SubmissionID j' = job_SubmissionID j"
    and u: "mem_Update k f r = (x, r')"
  shows "x = Inr j' \<and> mem_ok r' \<and> mem_jobs r' = (mem_jobs r)(k \<mapsto> j')"
proof -
  from j u have r': "x = Inr j'" "r' = r\<lparr>jobsByID := AList.update k j' (jobsByID r)\<rparr>"
    by (simp_all add: mem_Update_def)
  have m: "mem_jobs r' = (mem_jobs r)(k \<mapsto> j')" by (simp add: r' update_conv')
  have "map_of (idBySubmission r') s = Some i \<longleftrightarrow>
      s \<noteq> [] \<and> (\<exists>x. mem_jobs r' i = Some x \<and> job_SubmissionID x = s)" for s i
    unfolding m using ok j mem_ok_index [OF ok, of s i] by (auto simp: r')
  with ok j m show ?thesis by (simp add: r' mem_ok_def)
qed

lemma mem_Create_cases:
  assumes "mem_ok r" "mem_jobs r (job_ID j) = None" "mem_Create j r = (x, r')"
  shows "(\<exists>k j0. mem_jobs r k = Some j0 \<and> job_SubmissionID j0 = job_SubmissionID j \<and> job_SubmissionID j \<noteq> []
      \<and> x = Inr (j0, False) \<and> r' = r)
    \<or> submission_free (job_SubmissionID j) (mem_jobs r) \<and> x = Inr (j, True) \<and> mem_ok r'
      \<and> mem_jobs r' = (mem_jobs r)(job_ID j \<mapsto> j)"
proof (cases "submission_free (job_SubmissionID j) (mem_jobs r)")
  case True
  then show ?thesis using mem_Create_new [OF assms(1) True assms(2,3)] by blast
next
  case False
  then obtain k j0 where "job_SubmissionID j \<noteq> []" "mem_jobs r k = Some j0"
    "job_SubmissionID j0 = job_SubmissionID j" by (auto simp: submission_free_def)
  with mem_Create_existing [OF assms(1) this] assms(3) show ?thesis by auto
qed

lemma mem_Update_cases:
  assumes "mem_ok r" "keeps_identity f" "mem_Update k f r = (x, r')"
  shows "(\<exists>e. x = Inl e) \<and> r' = r
    \<or> (\<exists>j j'. mem_jobs r k = Some j \<and> f j = Inr j' \<and> x = Inr j' \<and> mem_ok r'
         \<and> mem_jobs r' = (mem_jobs r)(k \<mapsto> j'))"
proof (cases "\<exists>j j'. mem_jobs r k = Some j \<and> f j = Inr j'")
  case True
  then obtain j j' where j: "mem_jobs r k = Some j" "f j = Inr j'" by blast
  with assms(2) have "job_ID j' = job_ID j" "job_SubmissionID j' = job_SubmissionID j"
    by (auto simp: keeps_identity_def)
  from mem_Update_ok [OF assms(1) j this assms(3)] j show ?thesis by blast
next
  case False
  then have "(\<exists>e. x = Inl e) \<and> r' = r" using assms(3)
    by (cases "mem_jobs r k"; cases "f (the (mem_jobs r k))") (auto simp: mem_Update_def dest: sym)
  then show ?thesis by blast
qed

lemma mem_ListActive_spec:
  assumes "mem_ok r"
  shows "\<exists>xs. mem_ListActive r = Inr xs \<and> ordered_by active_less xs \<and> distinct (map job_ID xs) \<and>
    set xs = {j. (\<exists>k. mem_jobs r k = Some j) \<and> \<not> Terminal (job_State j)}"
proof -
  let ?xs = "filter (\<lambda>j. \<not> Terminal (job_State j)) (map snd (jobsByID r))"
  have "distinct (map job_ID ?xs)" using mem_ok_distinct [OF assms] by (rule distinct_map_filter)
  then show ?thesis using mem_ok_values [OF assms] active.ordered_sort [of ?xs]
    by (auto simp: mem_ListActive_def)
qed

interpretation mem: job_repository memory_repository mem_jobs mem_ok "\<lambda>t. t" "\<lambda>s. s"
proof (unfold_locales, goal_cases)
  case (4 r k j k' j')
  then show ?case using mem_ok_index [of r "job_SubmissionID j" k]
      mem_ok_index [of r "job_SubmissionID j" k'] by simp
next
  case (5 r j x r')
  then show ?case using mem_Create_cases [of r j x r'] by simp
next
  case (8 r f k x r')
  then show ?case using mem_Update_cases [of r f k x r'] by simp
next
  case (9 r)
  then show ?case using mem_ListActive_spec by simp
next
  case (10 r j k j0)
  then show ?case using mem_Create_existing [of r j k j0] by simp
next
  case (11 r j x r')
  then show ?case using mem_Create_new [of r j x r'] by simp
next
  case (15 r k j f j' y r')
  then show ?case using mem_Update_ok [of r k j f j' y r'] by simp
qed (simp_all add: mem_ok_id mem_Get_def mem_Update_def)

section \<open>Listing\<close>

lemma mem_listing_order_free:
  assumes "mem_ok r" "mset (jobsByID r') = mset (jobsByID r)"
  shows "mem_listing f r' = mem_listing f r"
  unfolding mem_listing_def
proof (rule created.sort_perm)
  show "distinct (map job_ID (filter (\<lambda>j. \<not> (f \<noteq> StateZero \<and> job_State j \<noteq> f)) (map snd (jobsByID r))))"
    using mem_ok_distinct [OF assms(1)] by (rule distinct_map_filter)
  have "mset (map snd (jobsByID r')) = mset (map snd (jobsByID r))"
    using assms(2) by simp
  then show "mset (filter (\<lambda>j. \<not> (f \<noteq> StateZero \<and> job_State j \<noteq> f)) (map snd (jobsByID r')))
      = mset (filter (\<lambda>j. \<not> (f \<noteq> StateZero \<and> job_State j \<noteq> f)) (map snd (jobsByID r)))"
    by (simp only: mset_filter)
qed

lemma mem_ListActive_order_free:
  assumes "mem_ok r" "mset (jobsByID r') = mset (jobsByID r)"
  shows "mem_ListActive r' = mem_ListActive r"
proof -
  let ?P = "\<lambda>j. \<not> Terminal (job_State j)"
  have "distinct (map job_ID (filter ?P (map snd (jobsByID r))))"
    using mem_ok_distinct [OF assms(1)] by (rule distinct_map_filter)
  moreover have "mset (map snd (jobsByID r')) = mset (map snd (jobsByID r))"
    using assms(2) by simp
  then have "mset (filter ?P (map snd (jobsByID r'))) = mset (filter ?P (map snd (jobsByID r)))"
    by (simp only: mset_filter)
  ultimately show ?thesis unfolding mem_ListActive_def by (metis active.sort_perm)
qed

lemma mem_listing_set:
  assumes "mem_ok r"
  shows "set (mem_listing f r) =
    {j. (\<exists>k. mem_jobs r k = Some j) \<and> (f = StateZero \<or> job_State j = f)}"
  using mem_ok_values [OF assms] by (auto simp: mem_listing_def)

lemma mem_listing_ordered: "ordered_by created_less (mem_listing f r)"
  unfolding mem_listing_def by (rule created.ordered_sort)

lemma mem_listing_distinct:
  assumes "mem_ok r"
  shows "distinct (map job_ID (mem_listing f r))"
  using distinct_map_filter [OF mem_ok_distinct [OF assms]] by (simp add: mem_listing_def)

text \<open>\<^verbatim>\<open>List\<close> as a client sees it, one page per token.\<close>

definition mem_fetch :: "ListOptions \<Rightarrow> MemoryRepository \<Rightarrow> string \<Rightarrow> (Job list \<times> string) result" where
  "mem_fetch opts r token =
     map_sum id (\<lambda>p. (res_Jobs p, res_NextPageToken p)) (mem_List (opts\<lparr>opt_PageToken := token\<rparr>) r)"

lemma mem_fetch_eq: "mem_fetch opts r = page_slice (mem_listing (opt_StateFilter opts) r) (opt_PageSize opts)"
  by (auto simp: mem_fetch_def mem_List_def fun_eq_iff split: sum.splits)

end
