(* ===== verification/Job_Service.thy ===== *)
theory Job_Service
  imports Job_Repository
begin

text \<open>
  The job business logic of \<^verbatim>\<open>internal/jobs/service.go\<close>.  Every operation that changes a
  job is a function handed to \<^verbatim>\<open>Repository.Update\<close>; it is defined here under the name of
  the operation with the suffix \<open>_fn\<close>, and the operation itself runs it through any
  repository.  The clock value read by an operation is its argument \<open>now\<close>;
  \<^verbatim>\<open>LoseWorker\<close>, which reads the clock once per job, takes a clock indexed by the
  iteration.  Identifiers produced by \<^verbatim>\<open>newID\<close> are arguments too.
\<close>

section \<open>The functions handed to Update\<close>

fun containsString :: "string list \<Rightarrow> string \<Rightarrow> bool" where
  "containsString [] v = False"
| "containsString (x # xs) v = (if x = v then True else containsString xs v)"

lemma containsString_iff [simp]: "containsString xs v \<longleftrightarrow> v \<in> set xs"
  by (induction xs) auto

definition invalid_state :: "string \<Rightarrow> goerr" where
  "invalid_state detail = Wrap [] Jobs_ErrInvalidState ('': '' @ detail)"

definition applyFailureOrRetry :: "Job \<Rightarrow> string \<Rightarrow> Time \<Rightarrow> Job" where
  "applyFailureOrRetry job reason now =
     (let job = job\<lparr>job_FailureReason := reason\<rparr>
      in if job_CurrentAttempt job < job_RetryLimit job
         then job\<lparr>job_State := StateQueued,
                  job_CurrentAttempt := i32 (job_CurrentAttempt job + 1),
                  job_StartedAt := None,
                  job_AssignedWorkerIDs := None\<rparr>
         else job\<lparr>job_State := StateFailed, job_FailedAt := Some now\<rparr>)"

definition Cancel_fn :: "Time \<Rightarrow> Job \<Rightarrow> Job result" where
  "Cancel_fn now job =
     (if Terminal (job_State job) \<or> job_State job = StateCancelRequested then Inr job
      else if job_State job = StateQueued \<or> job_State job = StateRetrying \<or> job_State job = StateScheduled
      then Inr (job\<lparr>job_State := StateCancelled, job_CompletedAt := Some now\<rparr>)
      else if job_State job = StateRunning \<or> job_State job = StateCheckpointing
      then Inr (job\<lparr>job_State := StateCancelRequested\<rparr>)
      else Inl (invalid_state (''cannot cancel a job in state '' @ state_string (job_State job))))"

definition AssignToWorkers_fn :: "string list \<Rightarrow> Job \<Rightarrow> Job result" where
  "AssignToWorkers_fn workerIDs job =
     (if job_State job \<noteq> StateQueued
      then Inl (invalid_state (''AssignToWorkers requires state QUEUED, job is '' @ state_string (job_State job)))
      else Inr (job\<lparr>job_State := StateScheduled, job_AssignedWorkerIDs := copy_slice workerIDs\<rparr>))"

definition Start_fn :: "Time \<Rightarrow> Job \<Rightarrow> Job result" where
  "Start_fn now job =
     (if job_State job \<noteq> StateScheduled
      then Inl (invalid_state (''Start requires state SCHEDULED, job is '' @ state_string (job_State job)))
      else Inr (job\<lparr>job_State := StateRunning, job_StartedAt := Some now\<rparr>))"

definition Complete_fn :: "Time \<Rightarrow> Job \<Rightarrow> Job result" where
  "Complete_fn now job =
     (if job_State job \<noteq> StateRunning
      then Inl (invalid_state (''Complete requires state RUNNING, job is '' @ state_string (job_State job)))
      else Inr (job\<lparr>job_State := StateSucceeded, job_CompletedAt := Some now\<rparr>))"

definition Fail_fn :: "string \<Rightarrow> Time \<Rightarrow> Job \<Rightarrow> Job result" where
  "Fail_fn reason now job =
     (if job_State job \<noteq> StateRunning
      then Inl (invalid_state (''Fail requires state RUNNING, job is '' @ state_string (job_State job)))
      else Inr (applyFailureOrRetry job reason now))"

definition ReportStopped_fn :: "Time \<Rightarrow> Job \<Rightarrow> Job result" where
  "ReportStopped_fn now job =
     (case job_State job of
        StateCancelRequested \<Rightarrow> Inr (job\<lparr>job_State := StateCancelled, job_CompletedAt := Some now\<rparr>)
      | StatePreempted \<Rightarrow>
          Inr (job\<lparr>job_State := StateQueued, job_StartedAt := None, job_AssignedWorkerIDs := None\<rparr>)
      | _ \<Rightarrow> Inr job)"

definition Preempt_fn :: "string \<Rightarrow> Job \<Rightarrow> Job result" where
  "Preempt_fn reason job =
     (if job_State job \<noteq> StateRunning
      then Inl (invalid_state (''Preempt requires state RUNNING, job is '' @ state_string (job_State job)))
      else if \<not> job_Preemptible job
      then Inl (invalid_state (''job '' @ job_ID job @ '' is not preemptible''))
      else Inr (job\<lparr>job_State := StatePreempted, job_FailureReason := reason\<rparr>))"

definition LoseWorker_fn :: "string \<Rightarrow> Time \<Rightarrow> Job \<Rightarrow> Job result" where
  "LoseWorker_fn reason now j =
     (case job_State j of
        StateScheduled \<Rightarrow> Inr (applyFailureOrRetry j reason now)
      | StateRunning \<Rightarrow> Inr (applyFailureOrRetry j reason now)
      | StateCancelRequested \<Rightarrow> Inr (j\<lparr>job_State := StateCancelled, job_CompletedAt := Some now\<rparr>)
      | StatePreempted \<Rightarrow>
          Inr (j\<lparr>job_State := StateQueued, job_StartedAt := None, job_AssignedWorkerIDs := None\<rparr>)
      | _ \<Rightarrow> Inr j)"

definition Retry_fn :: "Job \<Rightarrow> Job result" where
  "Retry_fn job =
     (if job_State job \<noteq> StateFailed
      then Inl (invalid_state (''RetryJob requires state FAILED, job is '' @ state_string (job_State job)))
      else if job_CurrentAttempt job \<ge> job_RetryLimit job
      then Inl (Wrap [] Jobs_ErrRetryLimitExceeded
             ('': attempt '' @ itoa (job_CurrentAttempt job) @ '' of '' @ itoa (job_RetryLimit job)))
      else Inr (job\<lparr>job_State := StateQueued,
                    job_CurrentAttempt := i32 (job_CurrentAttempt job + 1),
                    job_FailureReason := [],
                    job_StartedAt := None, job_CompletedAt := None, job_FailedAt := None\<rparr>))"

section \<open>The operations\<close>

definition Submit :: "'r JobRepository \<Rightarrow> string \<Rightarrow> Time \<Rightarrow> SubmitInput \<Rightarrow> 'r \<Rightarrow> Job result \<times> 'r" where
  "Submit repo newID now i r =
     (case ValidateSubmit i of
        Some e \<Rightarrow> (Inl e, r)
      | None \<Rightarrow>
          (let job = \<lparr>job_ID = newID, job_Name = in_Name i, job_SubmissionID = in_SubmissionID i,
                 job_Owner = in_Owner i, job_Image = in_Image i,
                 job_Command = copy_slice (elems (in_Command i)), job_Resources = in_Resources i,
                 job_Priority = in_Priority i, job_Preemptible = in_Preemptible i,
                 job_RetryLimit = in_RetryLimit i, job_CurrentAttempt = 1,
                 job_TimeoutSeconds = in_TimeoutSeconds i,
                 job_CheckpointIntervalSeconds = in_CheckpointIntervalSeconds i,
                 job_State = StateQueued, job_AssignedWorkerIDs = None, job_FailureReason = [],
                 job_CreatedAt = now, job_StartedAt = None, job_CompletedAt = None,
                 job_FailedAt = None\<rparr>
           in case repo_Create repo job r of
                (Inl e, r') \<Rightarrow> (Inl e, r')
              | (Inr (result, created), r') \<Rightarrow> (Inr result, r')))"

definition Get :: "'r JobRepository \<Rightarrow> string \<Rightarrow> 'r \<Rightarrow> Job result" where
  "Get repo k r = repo_Get repo k r"

definition List_jobs :: "'r JobRepository \<Rightarrow> ListOptions \<Rightarrow> 'r \<Rightarrow> ListResult result" where
  "List_jobs repo opts r = repo_List repo opts r"

definition Cancel :: "'r JobRepository \<Rightarrow> Time \<Rightarrow> string \<Rightarrow> 'r \<Rightarrow> Job result \<times> 'r" where
  "Cancel repo now k r = repo_Update repo k (Cancel_fn now) r"

definition AssignToWorkers :: "'r JobRepository \<Rightarrow> string \<Rightarrow> string list \<Rightarrow> 'r \<Rightarrow> Job result \<times> 'r" where
  "AssignToWorkers repo k workerIDs r = repo_Update repo k (AssignToWorkers_fn workerIDs) r"

definition ListActive :: "'r JobRepository \<Rightarrow> 'r \<Rightarrow> Job list result" where
  "ListActive repo r = repo_ListActive repo r"

definition ListAssignedToWorker :: "'r JobRepository \<Rightarrow> string \<Rightarrow> 'r \<Rightarrow> Job list result" where
  "ListAssignedToWorker repo workerID r =
     (case repo_ListActive repo r of
        Inl e \<Rightarrow> Inl e
      | Inr active \<Rightarrow>
          Inr (filter (\<lambda>job. job_State job = StateScheduled
                         \<and> containsString (elems (job_AssignedWorkerIDs job)) workerID) active))"

definition ListStoppableForWorker :: "'r JobRepository \<Rightarrow> string \<Rightarrow> 'r \<Rightarrow> Job list result" where
  "ListStoppableForWorker repo workerID r =
     (case repo_ListActive repo r of
        Inl e \<Rightarrow> Inl e
      | Inr active \<Rightarrow>
          Inr (filter (\<lambda>job. (job_State job = StateCancelRequested \<or> job_State job = StatePreempted)
                         \<and> containsString (elems (job_AssignedWorkerIDs job)) workerID) active))"

definition Start :: "'r JobRepository \<Rightarrow> Time \<Rightarrow> string \<Rightarrow> 'r \<Rightarrow> Job result \<times> 'r" where
  "Start repo now k r = repo_Update repo k (Start_fn now) r"

definition Complete :: "'r JobRepository \<Rightarrow> Time \<Rightarrow> string \<Rightarrow> 'r \<Rightarrow> Job result \<times> 'r" where
  "Complete repo now k r = repo_Update repo k (Complete_fn now) r"

definition Fail :: "'r JobRepository \<Rightarrow> Time \<Rightarrow> string \<Rightarrow> string \<Rightarrow> 'r \<Rightarrow> Job result \<times> 'r" where
  "Fail repo now k reason r = repo_Update repo k (Fail_fn reason now) r"

definition ReportStopped :: "'r JobRepository \<Rightarrow> Time \<Rightarrow> string \<Rightarrow> 'r \<Rightarrow> Job result \<times> 'r" where
  "ReportStopped repo now k r = repo_Update repo k (ReportStopped_fn now) r"

definition Preempt :: "'r JobRepository \<Rightarrow> string \<Rightarrow> string \<Rightarrow> 'r \<Rightarrow> Job result \<times> 'r" where
  "Preempt repo k reason r = repo_Update repo k (Preempt_fn reason) r"

definition Retry :: "'r JobRepository \<Rightarrow> string \<Rightarrow> 'r \<Rightarrow> Job result \<times> 'r" where
  "Retry repo k r = repo_Update repo k Retry_fn r"

definition held_states :: "State list" where
  "held_states = [StateScheduled, StateRunning, StateCancelRequested, StatePreempted]"

fun LoseWorker_loop ::
    "'r JobRepository \<Rightarrow> (nat \<Rightarrow> Time) \<Rightarrow> string \<Rightarrow> string \<Rightarrow> Job list \<Rightarrow> nat \<Rightarrow> 'r \<Rightarrow> (goerr option \<times> nat) \<times> 'r"
where
  "LoseWorker_loop repo clock reason workerID [] recovered r = ((None, recovered), r)"
| "LoseWorker_loop repo clock reason workerID (job # jobs) recovered r =
     (if job_State job \<notin> set held_states
         \<or> \<not> containsString (elems (job_AssignedWorkerIDs job)) workerID
      then LoseWorker_loop repo clock reason workerID jobs recovered r
      else case repo_Update repo (job_ID job) (LoseWorker_fn reason (clock recovered)) r of
             (Inl e, r') \<Rightarrow>
               ((Some (Wrap (''jobs: recover job '' @ job_ID job @ '' from lost worker '' @ workerID @ '': '') e []),
                 recovered), r')
           | (Inr j, r') \<Rightarrow> LoseWorker_loop repo clock reason workerID jobs (Suc recovered) r')"

text \<open>The result is the error, if any, with the number of jobs recovered so far.\<close>

definition LoseWorker ::
    "'r JobRepository \<Rightarrow> (nat \<Rightarrow> Time) \<Rightarrow> string \<Rightarrow> 'r \<Rightarrow> (goerr option \<times> nat) \<times> 'r" where
  "LoseWorker repo clock workerID r =
     (case repo_ListActive repo r of
        Inl e \<Rightarrow> ((Some (Wrap ''jobs: list active jobs for lost-worker recovery: '' e []), 0), r)
      | Inr active \<Rightarrow>
          LoseWorker_loop repo clock (''worker '' @ workerID @ '' was lost'') workerID active 0 r)"

lemmas service_fn_defs =
  Cancel_fn_def AssignToWorkers_fn_def Start_fn_def Complete_fn_def Fail_fn_def
  ReportStopped_fn_def Preempt_fn_def LoseWorker_fn_def Retry_fn_def

lemmas service_defs =
  Submit_def Get_def List_jobs_def Cancel_def AssignToWorkers_def ListActive_def Start_def
  Complete_def Fail_def ReportStopped_def Preempt_def Retry_def

text \<open>The requeue-or-fail decision, field by field.\<close>

lemma applyFailureOrRetry_fields [simp]:
  "job_State (applyFailureOrRetry j reason now) =
     (if job_CurrentAttempt j < job_RetryLimit j then StateQueued else StateFailed)"
  "job_CurrentAttempt (applyFailureOrRetry j reason now) =
     (if job_CurrentAttempt j < job_RetryLimit j then i32 (job_CurrentAttempt j + 1)
      else job_CurrentAttempt j)"
  "job_StartedAt (applyFailureOrRetry j reason now) =
     (if job_CurrentAttempt j < job_RetryLimit j then None else job_StartedAt j)"
  "job_AssignedWorkerIDs (applyFailureOrRetry j reason now) =
     (if job_CurrentAttempt j < job_RetryLimit j then None else job_AssignedWorkerIDs j)"
  "job_FailedAt (applyFailureOrRetry j reason now) =
     (if job_CurrentAttempt j < job_RetryLimit j then job_FailedAt j else Some now)"
  "job_FailureReason (applyFailureOrRetry j reason now) = reason"
  "job_CompletedAt (applyFailureOrRetry j reason now) = job_CompletedAt j"
  "job_ID (applyFailureOrRetry j reason now) = job_ID j"
  "job_SubmissionID (applyFailureOrRetry j reason now) = job_SubmissionID j"
  "job_Name (applyFailureOrRetry j reason now) = job_Name j"
  "job_Owner (applyFailureOrRetry j reason now) = job_Owner j"
  "job_Image (applyFailureOrRetry j reason now) = job_Image j"
  "job_Command (applyFailureOrRetry j reason now) = job_Command j"
  "job_Resources (applyFailureOrRetry j reason now) = job_Resources j"
  "job_Priority (applyFailureOrRetry j reason now) = job_Priority j"
  "job_Preemptible (applyFailureOrRetry j reason now) = job_Preemptible j"
  "job_RetryLimit (applyFailureOrRetry j reason now) = job_RetryLimit j"
  "job_TimeoutSeconds (applyFailureOrRetry j reason now) = job_TimeoutSeconds j"
  "job_CheckpointIntervalSeconds (applyFailureOrRetry j reason now) = job_CheckpointIntervalSeconds j"
  "job_CreatedAt (applyFailureOrRetry j reason now) = job_CreatedAt j"
  by (simp_all add: applyFailureOrRetry_def Let_def)

end
