(* ===== verification/Job_Lifecycle.thy ===== *)
theory Job_Lifecycle
  imports Job_Service
begin

text \<open>
  The life of one job.  \<open>job_op\<close> names the calls of \<^verbatim>\<open>jobs.Service\<close> that reach a stored
  job, \<open>job_edge\<close> is the abstract state diagram, \<open>job_reachable\<close> the jobs that submission
  followed by any sequence of calls can produce, and \<open>job_inv\<close> the invariant they keep.
\<close>

datatype job_op =
    OpCancel Time
  | OpAssign "string list"
  | OpStart Time
  | OpComplete Time
  | OpFail string Time
  | OpStopped Time
  | OpPreempt string
  | OpLose string Time
  | OpRetry

fun op_fn :: "job_op \<Rightarrow> Job \<Rightarrow> Job result" where
  "op_fn (OpCancel t) = Cancel_fn t"
| "op_fn (OpAssign ws) = AssignToWorkers_fn ws"
| "op_fn (OpStart t) = Start_fn t"
| "op_fn (OpComplete t) = Complete_fn t"
| "op_fn (OpFail reason t) = Fail_fn reason t"
| "op_fn (OpStopped t) = ReportStopped_fn t"
| "op_fn (OpPreempt reason) = Preempt_fn reason"
| "op_fn (OpLose reason t) = LoseWorker_fn reason t"
| "op_fn OpRetry = Retry_fn"

section \<open>The state diagram\<close>

definition job_edge :: "State \<Rightarrow> State \<Rightarrow> bool" where
  "job_edge s s' \<longleftrightarrow>
     (case s of
        StateQueued \<Rightarrow> s' \<in> {StateScheduled, StateCancelled}
      | StateScheduled \<Rightarrow> s' \<in> {StateRunning, StateQueued, StateFailed, StateCancelled}
      | StateRunning \<Rightarrow>
          s' \<in> {StateSucceeded, StateQueued, StateFailed, StateCancelRequested, StatePreempted}
      | StateCancelRequested \<Rightarrow> s' = StateCancelled
      | StatePreempted \<Rightarrow> s' = StateQueued
      | StateFailed \<Rightarrow> s' = StateQueued
      | StateRetrying \<Rightarrow> s' = StateCancelled
      | StateCheckpointing \<Rightarrow> s' = StateCancelRequested
      | _ \<Rightarrow> False)"

text \<open>No call rewrites what the client submitted.\<close>

definition same_request :: "Job \<Rightarrow> Job \<Rightarrow> bool" where
  "same_request j j' \<longleftrightarrow>
     job_ID j' = job_ID j \<and> job_SubmissionID j' = job_SubmissionID j \<and> job_Name j' = job_Name j
     \<and> job_Owner j' = job_Owner j \<and> job_Image j' = job_Image j \<and> job_Command j' = job_Command j
     \<and> job_Resources j' = job_Resources j \<and> job_Priority j' = job_Priority j
     \<and> job_Preemptible j' = job_Preemptible j \<and> job_RetryLimit j' = job_RetryLimit j
     \<and> job_TimeoutSeconds j' = job_TimeoutSeconds j
     \<and> job_CheckpointIntervalSeconds j' = job_CheckpointIntervalSeconds j
     \<and> job_CreatedAt j' = job_CreatedAt j"

text \<open>An operation leaves the stored job alone or moves it along an edge of the diagram.\<close>

definition op_effect :: "Job \<Rightarrow> Job \<Rightarrow> bool" where
  "op_effect j j' \<longleftrightarrow> same_request j j'
     \<and> (if job_State j' = job_State j then j' = j else job_edge (job_State j) (job_State j'))"

lemma op_fn_effect:
  assumes "op_fn f j = Inr j'"
  shows "op_effect j j'"
proof (cases f)
  case (OpCancel t)
  with assms show ?thesis by (cases "job_State j") (auto simp: Cancel_fn_def op_effect_def same_request_def job_edge_def)
next
  case (OpAssign ws)
  with assms show ?thesis by (auto simp: AssignToWorkers_fn_def op_effect_def same_request_def job_edge_def split: if_splits)
next
  case (OpStart t)
  with assms show ?thesis by (auto simp: Start_fn_def op_effect_def same_request_def job_edge_def split: if_splits)
next
  case (OpComplete t)
  with assms show ?thesis by (auto simp: Complete_fn_def op_effect_def same_request_def job_edge_def split: if_splits)
next
  case (OpFail reason t)
  with assms show ?thesis by (auto simp: Fail_fn_def op_effect_def same_request_def job_edge_def split: if_splits)
next
  case (OpStopped t)
  with assms show ?thesis by (cases "job_State j") (auto simp: ReportStopped_fn_def op_effect_def same_request_def job_edge_def)
next
  case (OpPreempt reason)
  with assms show ?thesis by (auto simp: Preempt_fn_def op_effect_def same_request_def job_edge_def split: if_splits)
next
  case (OpLose reason t)
  with assms show ?thesis
    by (cases "job_State j") (auto simp: LoseWorker_fn_def op_effect_def same_request_def job_edge_def split: if_splits)
next
  case OpRetry
  with assms show ?thesis by (auto simp: Retry_fn_def op_effect_def same_request_def job_edge_def split: if_splits)
qed

lemma op_fn_same_request: "op_fn f j = Inr j' \<Longrightarrow> same_request j j'"
  using op_fn_effect by (auto simp: op_effect_def)

lemma op_fn_attempt:
  assumes "op_fn f j = Inr j'" "in_i32 (job_CurrentAttempt j)"
  shows "in_i32 (job_CurrentAttempt j')"
  using assms
  by (cases f) (auto simp: service_fn_defs split: if_splits State.splits)

lemma op_fn_keeps_identity [simp]: "keeps_identity (op_fn f)"
  using op_fn_same_request op_fn_attempt by (auto simp: keeps_identity_def same_request_def job_ranges_def)

lemma service_fns_keep_identity [simp]:
  "keeps_identity (Cancel_fn t)" "keeps_identity (AssignToWorkers_fn ws)"
  "keeps_identity (Start_fn t)" "keeps_identity (Complete_fn t)"
  "keeps_identity (Fail_fn reason t)" "keeps_identity (ReportStopped_fn t)"
  "keeps_identity (Preempt_fn reason)" "keeps_identity (LoseWorker_fn reason t)"
  "keeps_identity Retry_fn"
  using op_fn_keeps_identity by (metis op_fn.simps)+

section \<open>Reachable jobs\<close>

definition submitted_job :: "string \<Rightarrow> Time \<Rightarrow> SubmitInput \<Rightarrow> Job" where
  "submitted_job newID now i =
     \<lparr>job_ID = newID, job_Name = in_Name i, job_SubmissionID = in_SubmissionID i,
      job_Owner = in_Owner i, job_Image = in_Image i,
      job_Command = copy_slice (elems (in_Command i)), job_Resources = in_Resources i,
      job_Priority = in_Priority i, job_Preemptible = in_Preemptible i,
      job_RetryLimit = in_RetryLimit i, job_CurrentAttempt = 1,
      job_TimeoutSeconds = in_TimeoutSeconds i,
      job_CheckpointIntervalSeconds = in_CheckpointIntervalSeconds i,
      job_State = StateQueued, job_AssignedWorkerIDs = None, job_FailureReason = [],
      job_CreatedAt = now, job_StartedAt = None, job_CompletedAt = None, job_FailedAt = None\<rparr>"

inductive job_reachable :: "Job \<Rightarrow> bool" where
  submitted: "valid_submit i \<Longrightarrow> job_reachable (submitted_job newID now i)"
| operated: "job_reachable j \<Longrightarrow> op_fn f j = Inr j' \<Longrightarrow> job_reachable j'"
| stored: "job_reachable j \<Longrightarrow> (\<And>s. elems (sn s) = elems s) \<Longrightarrow> job_reachable (norm_job tn sn j)"

definition used_states :: "State set" where
  "used_states = {StateQueued, StateScheduled, StateRunning, StateSucceeded, StateFailed,
     StateCancelRequested, StateCancelled, StatePreempted}"

definition job_inv :: "Job \<Rightarrow> bool" where
  "job_inv j \<longleftrightarrow>
     job_State j \<in> used_states
     \<and> 0 \<le> job_RetryLimit j \<and> job_RetryLimit j \<le> 100
     \<and> 0 \<le> job_Priority j \<and> job_Priority j \<le> 100
     \<and> 1 \<le> job_CurrentAttempt j \<and> job_CurrentAttempt j \<le> max 1 (job_RetryLimit j)
     \<and> (job_State j = StateFailed \<longrightarrow> job_RetryLimit j \<le> job_CurrentAttempt j)
     \<and> (job_State j = StateFailed \<longleftrightarrow> job_FailedAt j \<noteq> None)
     \<and> (job_State j \<in> {StateSucceeded, StateCancelled} \<longleftrightarrow> job_CompletedAt j \<noteq> None)
     \<and> (job_State j \<in> {StateRunning, StateSucceeded, StateCancelRequested, StatePreempted}
          \<longrightarrow> job_StartedAt j \<noteq> None)
     \<and> (job_State j \<in> {StateQueued, StateScheduled} \<longrightarrow> job_StartedAt j = None)
     \<and> (job_State j = StatePreempted \<longrightarrow> job_Preemptible j)
     \<and> (job_State j = StateQueued \<longrightarrow> elems (job_AssignedWorkerIDs j) = [])"

lemma job_inv_submitted: "valid_submit i \<Longrightarrow> job_inv (submitted_job newID now i)"
  by (simp add: job_inv_def submitted_job_def valid_submit_def used_states_def)

lemma job_inv_norm:
  "job_inv j \<Longrightarrow> (\<And>s. elems (sn s) = elems s) \<Longrightarrow> job_inv (norm_job tn sn j)"
  by (simp add: job_inv_def norm_job_def)

lemma job_inv_attempts:
  "job_inv j \<Longrightarrow> 1 \<le> job_CurrentAttempt j \<and> job_CurrentAttempt j \<le> max 1 (job_RetryLimit j)
     \<and> job_RetryLimit j \<le> 100"
  unfolding job_inv_def by blast

lemma attempt_succ:
  assumes "job_inv j" "job_CurrentAttempt j < job_RetryLimit j"
  shows "i32 (job_CurrentAttempt j + 1) = job_CurrentAttempt j + 1"
  by (rule i32_id) (use job_inv_attempts [OF assms(1)] assms(2) in \<open>simp add: in_i32_def\<close>)

lemma job_inv_failure:
  assumes "job_inv j" "job_State j = StateScheduled \<or> job_State j = StateRunning"
  shows "job_inv (applyFailureOrRetry j reason now)"
proof (cases "job_CurrentAttempt j < job_RetryLimit j")
  case True
  show ?thesis using assms(2) assms(1) attempt_succ [OF assms(1) True] True
    by (elim disjE) (simp_all add: job_inv_def used_states_def)
next
  case False
  show ?thesis using assms(2) assms(1) False
    by (elim disjE) (simp_all add: job_inv_def used_states_def)
qed

lemma Retry_never_applies: "job_inv j \<Longrightarrow> \<exists>e. Retry_fn j = Inl e"
  by (auto simp: Retry_fn_def job_inv_def)

lemma op_fn_terminal:
  assumes "job_inv j" "Terminal (job_State j)" "op_fn f j = Inr j'"
  shows "j' = j"
proof (cases "f = OpRetry")
  case True
  then show ?thesis using Retry_never_applies [OF assms(1)] assms(3) by auto
next
  case False
  from assms(2) have "job_State j = StateSucceeded \<or> job_State j = StateFailed \<or> job_State j = StateCancelled"
    by (cases "job_State j") simp_all
  then show ?thesis using assms(3) False
    by (elim disjE; cases f) (simp_all add: service_fn_defs)
qed

lemma job_inv_op:
  assumes "job_inv j" "op_fn f j = Inr j'"
  shows "job_inv j'"
proof (cases f)
  case (OpLose reason t)
  show ?thesis
  proof (cases "job_State j = StateScheduled \<or> job_State j = StateRunning")
    case True
    then show ?thesis using assms(2) OpLose job_inv_failure [OF assms(1) True]
      by (elim disjE) (simp_all add: LoseWorker_fn_def, blast+)
  next
    case False
    with assms OpLose show ?thesis
      by (cases "job_State j") (auto simp: LoseWorker_fn_def job_inv_def used_states_def)
  qed
next
  case (OpFail reason t)
  with assms show ?thesis
    by (auto simp: Fail_fn_def split: if_splits intro: job_inv_failure)
next
  case OpRetry
  with assms Retry_never_applies [OF assms(1)] show ?thesis by auto
next
  case (OpStopped t)
  with assms show ?thesis
    by (cases "job_State j") (auto simp: ReportStopped_fn_def job_inv_def used_states_def)
next
  case (OpCancel t)
  with assms show ?thesis
    by (cases "job_State j") (auto simp: Cancel_fn_def job_inv_def used_states_def)
qed (use assms in \<open>auto simp: AssignToWorkers_fn_def Start_fn_def Complete_fn_def Preempt_fn_def
      job_inv_def used_states_def split: if_splits\<close>)

lemma job_reachable_inv: "job_reachable j \<Longrightarrow> job_inv j"
  by (induction rule: job_reachable.induct)
    (auto intro: job_inv_submitted job_inv_op job_inv_norm)

section \<open>Runs of the service over a repository\<close>

text \<open>
  The calls of \<^verbatim>\<open>jobs.Service\<close> as seen by one job.  \<open>OpLose\<close> is one iteration of
  \<^verbatim>\<open>LoseWorker\<close>: each iteration locks the store on its own, so other calls may run in
  between, and a run may interleave them in any order.
\<close>

fun job_call :: "'r JobRepository \<Rightarrow> job_op \<Rightarrow> string \<Rightarrow> 'r \<Rightarrow> Job result \<times> 'r" where
  "job_call repo (OpCancel t) k r = Cancel repo t k r"
| "job_call repo (OpAssign ws) k r = AssignToWorkers repo k ws r"
| "job_call repo (OpStart t) k r = Start repo t k r"
| "job_call repo (OpComplete t) k r = Complete repo t k r"
| "job_call repo (OpFail reason t) k r = Fail repo t k reason r"
| "job_call repo (OpStopped t) k r = ReportStopped repo t k r"
| "job_call repo (OpPreempt reason) k r = Preempt repo k reason r"
| "job_call repo (OpLose reason t) k r = repo_Update repo k (LoseWorker_fn reason t) r"
| "job_call repo OpRetry k r = Retry repo k r"

lemma job_call_update: "job_call repo f k r = repo_Update repo k (op_fn f) r"
  by (cases f) (simp_all add: service_defs)

lemma submitted_job_fields [simp]:
  "job_ID (submitted_job newID now i) = newID"
  "job_SubmissionID (submitted_job newID now i) = in_SubmissionID i"
  "job_State (submitted_job newID now i) = StateQueued"
  "job_Resources (submitted_job newID now i) = in_Resources i"
  by (simp_all add: submitted_job_def)

lemma submitted_job_ranges: "submit_ranges i \<Longrightarrow> job_ranges (submitted_job newID now i)"
  by (simp add: submit_ranges_def job_ranges_def submitted_job_def in_i32_def)

lemma Submit_invalid: "\<not> valid_submit i \<Longrightarrow>
    Submit repo newID now i r = (Inl (Jobs_ValidationError (submit_problems i)), r)"
  by (simp add: Submit_def ValidateSubmit_Some)

lemma Submit_valid:
  assumes "valid_submit i"
  shows "Submit repo newID now i r =
    (case repo_Create repo (submitted_job newID now i) r of
       (Inl e, r') \<Rightarrow> (Inl e, r') | (Inr (j, c), r') \<Rightarrow> (Inr j, r'))"
proof -
  have "ValidateSubmit i = None" using assms by (simp add: ValidateSubmit_None)
  then show ?thesis by (simp add: Submit_def submitted_job_def Let_def)
qed

text \<open>Requests carry integers of their Go types.  \<^verbatim>\<open>newID\<close> never repeats an identifier in use; that
  is the only thing assumed of \<^verbatim>\<open>crypto/rand\<close>.\<close>

inductive jobs_step :: "'r JobRepository \<Rightarrow> 'r \<Rightarrow> 'r \<Rightarrow> bool" for repo :: "'r JobRepository" where
  step_submit: "repo_Get repo newID r = Inl Jobs_ErrNotFound \<Longrightarrow> submit_ranges i \<Longrightarrow>
     Submit repo newID now i r = (x, r') \<Longrightarrow> jobs_step repo r r'"
| step_call: "job_call repo f k r = (y, r') \<Longrightarrow> jobs_step repo r r'"

inductive_cases jobs_stepE: "jobs_step repo r r'"

definition all_reachable :: "(string \<rightharpoonup> Job) \<Rightarrow> bool" where
  "all_reachable m \<longleftrightarrow> (\<forall>k j. m k = Some j \<longrightarrow> job_reachable j)"

lemma all_reachable_upd:
  "all_reachable m \<Longrightarrow> job_reachable j \<Longrightarrow> all_reachable (m(k \<mapsto> j))"
  by (simp add: all_reachable_def)

lemma all_reachable_empty [simp]: "all_reachable Map.empty"
  by (simp add: all_reachable_def)

context job_store
begin

text \<open>A submission creates exactly one queued job, or returns the job of an earlier submission with
  the same identifier and changes nothing, or fails and changes nothing.\<close>

lemma Submit_effect:
  assumes "repo_ok r" "submit_ranges i" "jobs_of r newID = None" "Submit repo newID now i r = (x, r')"
  obtains (refused) e where "x = Inl e" "r' = r"
  | (known) k j where "jobs_of r k = Some j" "job_SubmissionID j = in_SubmissionID i" "in_SubmissionID i \<noteq> []"
      "x = Inr j" "r' = r"
  | (created) "valid_submit i" "submission_free (in_SubmissionID i) (jobs_of r)"
      "x = Inr (norm_job tn sn (submitted_job newID now i))" "repo_ok r'"
      "jobs_of r' = (jobs_of r)(newID \<mapsto> norm_job tn sn (submitted_job newID now i))"
proof (cases "valid_submit i")
  case False
  with assms(4) show ?thesis by (intro refused) (auto simp: Submit_invalid)
next
  case valid: True
  obtain y r1 where c: "repo_Create repo (submitted_job newID now i) r = (y, r1)" by fastforce
  have new: "jobs_of r (job_ID (submitted_job newID now i)) = None" using assms(3) by simp
  have out: "x = map_sum id fst y \<and> r' = r1"
    using assms(4) c by (auto simp: Submit_valid [OF valid] split: sum.splits prod.splits)
  from create_effect [OF assms(1) submitted_job_ranges [OF assms(2)] new c] show ?thesis
    by (elim disjE conjE exE) (use out valid in \<open>auto intro: refused known created\<close>)
qed

lemma Submit_keeps:
  assumes "repo_ok r" "submit_ranges i" "jobs_of r newID = None" "Submit repo newID now i r = (x, r')"
    "jobs_of r k = Some j"
  shows "jobs_of r' k = Some j"
  using assms(1-4) by (cases rule: Submit_effect) (use assms(3,5) in auto)

lemma Submit_step:
  assumes "repo_ok r" "all_reachable (jobs_of r)" "submit_ranges i" "jobs_of r newID = None"
    "Submit repo newID now i r = (x, r')"
  shows "repo_ok r' \<and> all_reachable (jobs_of r')"
  using assms(1,3,4,5)
proof (cases rule: Submit_effect)
  case created
  have "job_reachable (norm_job tn sn (submitted_job newID now i))"
    by (rule job_reachable.stored [OF job_reachable.submitted [OF created(1)] sn_elems])
  with created assms(2) show ?thesis by (simp add: all_reachable_upd)
qed (use assms(1,2) in simp_all)

lemma job_call_step:
  assumes "repo_ok r" "all_reachable (jobs_of r)" "job_call repo f k r = (x, r')"
  shows "repo_ok r' \<and> all_reachable (jobs_of r')"
proof -
  from assms(3) have u: "repo_Update repo k (op_fn f) r = (x, r')" by (simp add: job_call_update)
  from assms(1) op_fn_keeps_identity u show ?thesis
  proof (cases rule: update_store)
    case (written j j')
    have "job_reachable j" using written(1) assms(2) by (simp add: all_reachable_def)
    then have "job_reachable (norm_job tn sn j')"
      by (rule job_reachable.stored [OF job_reachable.operated [OF _ written(2)] sn_elems])
    with written assms(2) show ?thesis by (simp add: all_reachable_upd)
  qed (use assms in simp)
qed

lemma jobs_step_inv:
  assumes "jobs_step repo r r'" "repo_ok r" "all_reachable (jobs_of r)"
  shows "repo_ok r' \<and> all_reachable (jobs_of r')"
  using assms(1)
proof (cases rule: jobs_step.cases)
  case (step_submit newID i now x)
  with Submit_step assms unused_id show ?thesis by blast
next
  case (step_call f k y)
  with job_call_step assms show ?thesis by blast
qed

lemma jobs_run_inv:
  assumes "(jobs_step repo)\<^sup>*\<^sup>* r0 r" "repo_ok r0" "all_reachable (jobs_of r0)"
  shows "repo_ok r \<and> all_reachable (jobs_of r)"
  using assms by (induction rule: rtranclp_induct) (auto dest: jobs_step_inv)

text \<open>In a run that starts from an empty store, every stored job keeps \<open>job_inv\<close>.\<close>

lemma jobs_run_job_inv:
  assumes "(jobs_step repo)\<^sup>*\<^sup>* r0 r" "repo_ok r0" "jobs_of r0 = Map.empty" "jobs_of r k = Some j"
  shows "job_inv j"
proof -
  have "all_reachable (jobs_of r0)" by (simp add: assms(3))
  with jobs_run_inv [OF assms(1,2)] assms(4) have "job_reachable j" by (auto simp: all_reachable_def)
  then show ?thesis by (rule job_reachable_inv)
qed

text \<open>Terminal jobs do not change any more.\<close>

lemma terminal_step:
  assumes "jobs_step repo r r'" "repo_ok r" "all_reachable (jobs_of r)"
    "jobs_of r k = Some j" "Terminal (job_State j)"
  shows "jobs_of r' k = Some j"
  using assms(1)
proof (cases rule: jobs_step.cases)
  case (step_submit newID i now x)
  with Submit_keeps assms(2,4) unused_id show ?thesis by blast
next
  case (step_call f i y)
  then have u: "repo_Update repo i (op_fn f) r = (y, r')" by (simp add: job_call_update)
  have inv: "job_inv j" using assms(3,4) by (auto simp: all_reachable_def intro: job_reachable_inv)
  from assms(2) op_fn_keeps_identity u show ?thesis
  proof (cases rule: update_store)
    case (written ja j')
    show ?thesis
    proof (cases "i = k")
      case True
      then have "ja = j" using written(1) assms(4) by simp
      with op_fn_terminal [OF inv assms(5)] written(2) have "j' = j" by simp
      with written(5) True show ?thesis using stored_norm [OF assms(2,4)] by simp
    qed (use written assms(4) in simp)
  qed (use assms(4) in simp)
qed

lemma terminal_kept:
  assumes "(jobs_step repo)\<^sup>*\<^sup>* r r'" "repo_ok r" "all_reachable (jobs_of r)"
    "jobs_of r k = Some j" "Terminal (job_State j)"
  shows "jobs_of r' k = Some j"
  using assms(1)
proof (induction rule: rtranclp_induct)
  case (step r1 r2)
  with terminal_step [OF step.hyps(2) _ _ step.IH assms(5)] jobs_run_inv [OF step.hyps(1) assms(2,3)]
  show ?case by blast
qed (use assms in simp)

lemma Retry_refused:
  assumes "(jobs_step repo)\<^sup>*\<^sup>* r0 r" "repo_ok r0" "jobs_of r0 = Map.empty"
  shows "\<exists>e. Retry repo k r = (Inl e, r)"
proof -
  have ok: "repo_ok r" using jobs_run_inv [OF assms(1,2)] by (simp add: assms(3))
  obtain x r' where u: "repo_Update repo k Retry_fn r = (x, r')" by fastforce
  from ok service_fns_keep_identity(9) u show ?thesis
  proof (cases rule: update_store)
    case (refused e)
    with u show ?thesis by (simp add: Retry_def)
  next
    case (written j j')
    with Retry_never_applies [OF jobs_run_job_inv [OF assms written(1)]] show ?thesis by auto
  qed
qed

end

context job_repository
begin

lemma Submit_new:
  assumes "repo_ok r" "valid_submit i" "jobs_of r newID = None"
    "submission_free (in_SubmissionID i) (jobs_of r)" "Submit repo newID now i r = (x, r')"
  shows "x = Inr (norm_job tn sn (submitted_job newID now i)) \<and> repo_ok r' \<and>
    jobs_of r' = (jobs_of r)(newID \<mapsto> norm_job tn sn (submitted_job newID now i))"
proof -
  obtain y r'' where c: "repo_Create repo (submitted_job newID now i) r = (y, r'')" by fastforce
  from create_new [OF assms(1) _ _ c] assms(3,4)
  have "y = Inr (norm_job tn sn (submitted_job newID now i), True) \<and> repo_ok r'' \<and>
    jobs_of r'' = (jobs_of r)(newID \<mapsto> norm_job tn sn (submitted_job newID now i))" by simp
  with c assms(5) show ?thesis by (simp add: Submit_valid [OF assms(2)])
qed

lemma Submit_existing:
  assumes "repo_ok r" "valid_submit i" "in_SubmissionID i \<noteq> []" "jobs_of r k = Some j"
    "job_SubmissionID j = in_SubmissionID i"
  shows "Submit repo newID now i r = (Inr j, r)"
  using create_existing [of r "submitted_job newID now i" k j] assms
  by (simp add: Submit_valid [OF assms(2)])

end

end
