(* ===== verification/Job_Recovery.thy ===== *)
theory Job_Recovery
  imports Job_Lifecycle
begin

text \<open>
  Recovery of the jobs of a lost worker (\<^verbatim>\<open>LoseWorker\<close>) and the two per-worker listings
  that a heartbeat delivers, proved once for every repository that keeps the contract.
\<close>

definition held_by :: "string \<Rightarrow> Job \<Rightarrow> bool" where
  "held_by w j \<longleftrightarrow> job_State j \<in> set held_states \<and> w \<in> set (elems (job_AssignedWorkerIDs j))"

definition lost_reason :: "string \<Rightarrow> string" where
  "lost_reason w = ''worker '' @ w @ '' was lost''"

text \<open>\<open>recovered j j'\<close>: what recovery makes of a held job at some clock value.\<close>

definition recovered :: "string \<Rightarrow> Job \<Rightarrow> Job \<Rightarrow> bool" where
  "recovered w j j' \<longleftrightarrow> (\<exists>t. LoseWorker_fn (lost_reason w) t j = Inr j')"

lemma LoseWorker_fn_total: "\<exists>j'. LoseWorker_fn reason t j = Inr j'"
  by (cases "job_State j") (simp_all add: LoseWorker_fn_def)

lemma held_not_terminal: "held_by w j \<Longrightarrow> \<not> Terminal (job_State j)"
  by (auto simp: held_by_def held_states_def)

lemma recovered_state:
  assumes "job_State j \<in> set held_states" "recovered w j j'"
  shows "job_State j' = (if job_State j = StateCancelRequested then StateCancelled
     else if job_State j = StatePreempted \<or> job_CurrentAttempt j < job_RetryLimit j
     then StateQueued else StateFailed)"
  using assms by (cases "job_State j") (auto simp: recovered_def LoseWorker_fn_def held_states_def)

lemma recovered_not_held: "job_State j \<in> set held_states \<Longrightarrow> recovered w j j' \<Longrightarrow> \<not> held_by v j'"
  by (simp add: recovered_state held_by_def held_states_def)

lemma recovered_identity: "recovered w j j' \<Longrightarrow> same_request j j'"
  using op_fn_same_request [of "OpLose (lost_reason w) t" j j' for t] by (auto simp: recovered_def)

context job_store
begin

lemma not_held_norm [simp]: "held_by w (norm_job tn sn j) = held_by w j"
  by (simp add: held_by_def)

lemma active_list:
  assumes "repo_ok r"
  obtains xs where "repo_ListActive repo r = Inr xs" "distinct (map job_ID xs)"
    "ordered_by active_less xs"
    "\<And>j. j \<in> set xs \<longleftrightarrow> jobs_of r (job_ID j) = Some j \<and> \<not> Terminal (job_State j)"
proof -
  from active_law [OF assms] obtain xs where xs: "repo_ListActive repo r = Inr xs"
    "ordered_by active_less xs" "distinct (map job_ID xs)"
    "set xs = {j. (\<exists>k. jobs_of r k = Some j) \<and> \<not> Terminal (job_State j)}" by blast
  show ?thesis by (rule that [OF xs(1,3,2)]) (use xs(4) stored_id [OF assms] in auto)
qed

text \<open>The heartbeat listings.\<close>

lemma ListAssigned_set:
  assumes "repo_ok r"
  obtains xs where "ListAssignedToWorker repo w r = Inr xs"
    "set xs = {j. jobs_of r (job_ID j) = Some j \<and> job_State j = StateScheduled
       \<and> w \<in> set (elems (job_AssignedWorkerIDs j))}"
proof -
  obtain ys where ys: "repo_ListActive repo r = Inr ys"
    "\<And>j. j \<in> set ys \<longleftrightarrow> jobs_of r (job_ID j) = Some j \<and> \<not> Terminal (job_State j)"
    using active_list [OF assms] by metis
  show ?thesis
  proof (rule that)
    show "ListAssignedToWorker repo w r = Inr (filter (\<lambda>j. job_State j = StateScheduled \<and> w \<in> set (elems (job_AssignedWorkerIDs j))) ys)"
      by (simp add: ListAssignedToWorker_def ys(1))
  qed (auto simp: ys(2))
qed

lemma ListStoppable_set:
  assumes "repo_ok r"
  obtains xs where "ListStoppableForWorker repo w r = Inr xs"
    "set xs = {j. jobs_of r (job_ID j) = Some j
       \<and> (job_State j = StateCancelRequested \<or> job_State j = StatePreempted)
       \<and> w \<in> set (elems (job_AssignedWorkerIDs j))}"
proof -
  obtain ys where ys: "repo_ListActive repo r = Inr ys"
    "\<And>j. j \<in> set ys \<longleftrightarrow> jobs_of r (job_ID j) = Some j \<and> \<not> Terminal (job_State j)"
    using active_list [OF assms] by metis
  show ?thesis
  proof (rule that)
    show "ListStoppableForWorker repo w r = Inr (filter (\<lambda>j. (job_State j = StateCancelRequested \<or> job_State j = StatePreempted) \<and> w \<in> set (elems (job_AssignedWorkerIDs j))) ys)"
      by (simp add: ListStoppableForWorker_def ys(1))
  qed (auto simp: ys(2))
qed

end

context job_repository
begin

lemma update_lose:
  assumes "repo_ok r" "jobs_of r k = Some j"
    "repo_Update repo k (LoseWorker_fn (lost_reason w) t) r = (x, r')"
  obtains j' where "x = Inr (norm_job tn sn j')" "recovered w j j'" "repo_ok r'"
    "jobs_of r' = (jobs_of r)(k \<mapsto> norm_job tn sn j')"
proof -
  obtain j' where j': "LoseWorker_fn (lost_reason w) t j = Inr j'" using LoseWorker_fn_total by blast
  then have rec: "recovered w j j'" by (auto simp: recovered_def)
  then have "job_ID j' = job_ID j" "job_SubmissionID j' = job_SubmissionID j"
    using recovered_identity by (auto simp: same_request_def)
  from update_ok [OF assms(1,2) j' this assms(3)] show ?thesis
    by (elim conjE) (rule that [OF _ rec])
qed

lemma lose_loop:
  assumes "repo_ok r" "\<forall>job \<in> set js. jobs_of r (job_ID job) = Some job" "distinct (map job_ID js)"
    "LoseWorker_loop repo clock (lost_reason w) w js n r = (x, r')"
  shows "x = (None, n + length (filter (held_by w) js)) \<and> repo_ok r'
    \<and> (\<forall>k. k \<notin> job_ID ` {job \<in> set js. held_by w job} \<longrightarrow> jobs_of r' k = jobs_of r k)
    \<and> (\<forall>job \<in> set js. held_by w job \<longrightarrow>
         (\<exists>j'. recovered w job j' \<and> jobs_of r' (job_ID job) = Some (norm_job tn sn j')))"
  using assms
proof (induction js arbitrary: n r)
  case (Cons job js)
  show ?case
  proof (cases "held_by w job")
    case False
    then have "LoseWorker_loop repo clock (lost_reason w) w js n r = (x, r')"
      using Cons.prems(4) by (auto simp: held_by_def)
    from Cons.IH [OF Cons.prems(1) _ _ this] Cons.prems(2,3) False show ?thesis by auto
  next
    case True
    obtain y r1 where u: "repo_Update repo (job_ID job) (LoseWorker_fn (lost_reason w) (clock n)) r = (y, r1)"
      by fastforce
    have "jobs_of r (job_ID job) = Some job" using Cons.prems(2) by simp
    from update_lose [OF Cons.prems(1) this u] obtain j1 where
      j1: "y = Inr (norm_job tn sn j1)" "recovered w job j1" "repo_ok r1"
      "jobs_of r1 = (jobs_of r)(job_ID job \<mapsto> norm_job tn sn j1)" .
    have loop: "LoseWorker_loop repo clock (lost_reason w) w js (Suc n) r1 = (x, r')"
      using Cons.prems(4) True u j1(1) by (simp add: held_by_def)
    have rest: "\<forall>i \<in> set js. jobs_of r1 (job_ID i) = Some i"
    proof
      fix i assume "i \<in> set js"
      moreover from this have "job_ID i \<noteq> job_ID job" by (rule distinct_map_Cons_neq [OF Cons.prems(3)])
      ultimately show "jobs_of r1 (job_ID i) = Some i" using Cons.prems(2) j1(4) by simp
    qed
    have IH: "x = (None, Suc n + length (filter (held_by w) js)) \<and> repo_ok r'
      \<and> (\<forall>k. k \<notin> job_ID ` {job \<in> set js. held_by w job} \<longrightarrow> jobs_of r' k = jobs_of r1 k)
      \<and> (\<forall>job \<in> set js. held_by w job \<longrightarrow>
         (\<exists>j'. recovered w job j' \<and> jobs_of r' (job_ID job) = Some (norm_job tn sn j')))"
      by (rule Cons.IH [OF j1(3) rest _ loop]) (use Cons.prems(3) in simp)
    moreover have "job_ID job \<notin> job_ID ` {job \<in> set js. held_by w job}"
      using Cons.prems(3) by auto
    ultimately have "jobs_of r' (job_ID job) = Some (norm_job tn sn j1)" by (simp add: j1(4))
    moreover have "jobs_of r' k = jobs_of r k"
      if k: "k \<notin> job_ID ` {i \<in> set (job # js). held_by w i}" for k
    proof -
      from k True have "k \<notin> job_ID ` {i \<in> set js. held_by w i}" "k \<noteq> job_ID job" by auto
      with IH j1(4) show ?thesis by simp
    qed
    ultimately show ?thesis using IH True j1(2) by (simp; blast)
  qed
qed simp

lemma LoseWorker_recovers:
  assumes "repo_ok r" "LoseWorker repo clock w r = (x, r')"
  shows "fst x = None \<and> snd x = card {k. \<exists>j. jobs_of r k = Some j \<and> held_by w j} \<and> repo_ok r'
    \<and> (\<forall>k. case jobs_of r k of
          None \<Rightarrow> jobs_of r' k = None
        | Some j \<Rightarrow>
            if held_by w j then \<exists>j'. recovered w j j' \<and> jobs_of r' k = Some (norm_job tn sn j')
            else jobs_of r' k = Some j)"
proof -
  obtain xs where xs: "repo_ListActive repo r = Inr xs" "distinct (map job_ID xs)"
    and mem: "\<And>j. j \<in> set xs \<longleftrightarrow> jobs_of r (job_ID j) = Some j \<and> \<not> Terminal (job_State j)"
    using active_list [OF assms(1)] by metis
  have "LoseWorker_loop repo clock (lost_reason w) w xs 0 r = (x, r')"
    using assms(2) xs(1) by (simp add: LoseWorker_def lost_reason_def)
  from lose_loop [OF assms(1) _ xs(2) this] mem
  have x: "x = (None, length (filter (held_by w) xs))" and ok: "repo_ok r'"
    and same: "\<And>k. k \<notin> job_ID ` {j \<in> set xs. held_by w j} \<Longrightarrow> jobs_of r' k = jobs_of r k"
    and rec: "\<And>j. j \<in> set xs \<Longrightarrow> held_by w j \<Longrightarrow>
      \<exists>j'. recovered w j j' \<and> jobs_of r' (job_ID j) = Some (norm_job tn sn j')" by simp_all
  have held: "j \<in> set xs \<and> held_by w j \<longleftrightarrow> jobs_of r (job_ID j) = Some j \<and> held_by w j" for j
    using mem held_not_terminal by blast
  have keys: "job_ID ` {j \<in> set xs. held_by w j} = {k. \<exists>j. jobs_of r k = Some j \<and> held_by w j}"
    using held stored_id [OF assms(1)] by (auto simp: image_iff)
  have "distinct (map job_ID (filter (held_by w) xs))" using xs(2) by (rule distinct_map_filter)
  then have "length (filter (held_by w) xs) = card (job_ID ` {j \<in> set xs. held_by w j})"
    using distinct_card [of "map job_ID (filter (held_by w) xs)"] by simp
  moreover have "case jobs_of r k of None \<Rightarrow> jobs_of r' k = None
      | Some j \<Rightarrow> if held_by w j
          then \<exists>j'. recovered w j j' \<and> jobs_of r' k = Some (norm_job tn sn j')
          else jobs_of r' k = Some j" for k
  proof (cases "jobs_of r k")
    case None
    then have "jobs_of r' k = None" using same [of k] keys by simp
    with None show ?thesis by simp
  next
    case (Some j)
    then have k: "job_ID j = k" by (rule stored_id [OF assms(1)])
    show ?thesis
    proof (cases "held_by w j")
      case True
      then show ?thesis using rec [of j] held [of j] Some k by simp
    next
      case False
      then have "jobs_of r' k = jobs_of r k" using same [of k] keys Some by simp
      with False Some show ?thesis by simp
    qed
  qed
  ultimately show ?thesis using x ok keys by simp
qed

lemma LoseWorker_none_held:
  assumes "repo_ok r" "LoseWorker repo clock w r = (x, r')" "jobs_of r' k = Some j'"
  shows "\<not> held_by w j'"
proof -
  from LoseWorker_recovers [OF assms(1,2)] have
    "case jobs_of r k of None \<Rightarrow> jobs_of r' k = None
     | Some j \<Rightarrow> if held_by w j
         then \<exists>j'. recovered w j j' \<and> jobs_of r' k = Some (norm_job tn sn j')
         else jobs_of r' k = Some j" by blast
  with assms(3) show ?thesis
    by (auto split: option.splits if_splits dest: recovered_not_held simp: held_by_def)
qed

end

end
