(* ===== verification/Worker_Service.thy ===== *)
theory Worker_Service
  imports Workers Leases Job_Recovery
begin

text \<open>
  The worker business logic of \<^verbatim>\<open>internal/workers/service.go\<close> over any repository and any
  lease manager: registration, heartbeats that renew or re-grant the lease, loss, and the loop
  of \<^verbatim>\<open>WatchExpirations\<close> with the callback that \<^verbatim>\<open>cmd/api/main.go\<close> gives it.  The lease
  TTL of the service, the clock value and the generated identifier are arguments.
\<close>

section \<open>Definitions\<close>

definition DefaultLeaseTTL :: Duration where "DefaultLeaseTTL = 20 * Second"
definition heartbeatFractionOfTTL :: int where "heartbeatFractionOfTTL = 4"
definition leaseKeyPrefix :: string where "leaseKeyPrefix = ''/orionqueue/workers/leases/''"

definition LeaseKey :: "string \<Rightarrow> string" where
  "LeaseKey workerID = leaseKeyPrefix @ workerID"

definition WorkerIDFromLeaseKey :: "string \<Rightarrow> string \<times> bool" where
  "WorkerIDFromLeaseKey key =
     (if \<not> HasPrefix key leaseKeyPrefix then ([], False)
      else let workerID = drop (length leaseKeyPrefix) key in (workerID, workerID \<noteq> []))"

text \<open>\<^verbatim>\<open>newRandomID\<close> of \<^verbatim>\<open>internal/workers/id.go\<close>, the same function as for jobs.\<close>

definition worker_newRandomID :: "string \<Rightarrow> nat list \<Rightarrow> string" where
  "worker_newRandomID pre b = pre @ ''-'' @ hex_encode b"

text \<open>Go's \<^verbatim>\<open>/\<close> on integers truncates toward zero.\<close>

definition HeartbeatInterval :: "Duration \<Rightarrow> Duration" where
  "HeartbeatInterval leaseTTL =
     (let interval = (if leaseTTL < 0 then - (- leaseTTL div heartbeatFractionOfTTL)
                      else leaseTTL div heartbeatFractionOfTTL)
      in if interval < Second then Second else interval)"

definition Register ::
    "'w WorkerRepository \<Rightarrow> 'l Manager \<Rightarrow> Duration \<Rightarrow> string \<Rightarrow> Time \<Rightarrow> RegisterInput \<Rightarrow> 'w \<times> 'l
     \<Rightarrow> Worker result \<times> 'w \<times> 'l" where
  "Register wrepo mgr ttl newID now i = (\<lambda>(w, l).
     case ValidateRegister i of
       Some e \<Rightarrow> (Inl e, w, l)
     | None \<Rightarrow>
         (case lm_Grant mgr (LeaseKey newID) ttl l of
            (Inl e, l') \<Rightarrow> (Inl (Wrap ''workers: grant lease: '' e []), w, l')
          | (Inr leaseID, l') \<Rightarrow>
              (let worker = \<lparr>w_ID = newID, w_Hostname = reg_Hostname i, w_Status = StatusActive,
                     w_LeaseID = Some leaseID, w_CPUCapacity = reg_CPUCapacity i,
                     w_MemoryCapacityBytes = reg_MemoryCapacityBytes i, w_GPUs = reg_GPUs i,
                     w_SoftwareVersion = reg_SoftwareVersion i,
                     w_Labels = reg_Labels i, w_RunningJobIDs = None, w_RegisteredAt = now, w_LastHeartbeatAt = now\<rparr>
               in case wrepo_Create wrepo worker w of (x, w') \<Rightarrow> (x, w', l'))))"

text \<open>The lease part of a heartbeat: the new lease, if one had to be granted.\<close>

definition Heartbeat_lease ::
    "'l Manager \<Rightarrow> Duration \<Rightarrow> string \<Rightarrow> Worker \<Rightarrow> 'l \<Rightarrow> int option result \<times> 'l" where
  "Heartbeat_lease mgr ttl workerID current l =
     (case w_LeaseID current of
        None \<Rightarrow>
          (case lm_Grant mgr (LeaseKey workerID) ttl l of
             (Inl e, l') \<Rightarrow> (Inl (Wrap ''workers: grant lease for recovering worker: '' e []), l')
           | (Inr i, l') \<Rightarrow> (Inr (Some i), l'))
      | Some lease \<Rightarrow>
          (case lm_Renew mgr lease l of
             (None, l') \<Rightarrow> (Inr None, l')
           | (Some e, l') \<Rightarrow>
               (if \<not> errors_Is e ErrLeaseNotFound
                then (Inl (Wrap ''workers: renew lease: '' e []), l')
                else case lm_Grant mgr (LeaseKey workerID) ttl l' of
                       (Inl g, l'') \<Rightarrow> (Inl (Wrap ''workers: re-grant lease after expiry: '' g []), l'')
                     | (Inr i, l'') \<Rightarrow> (Inr (Some i), l''))))"

definition Heartbeat_fn ::
    "Time \<Rightarrow> int option \<Rightarrow> GPU slice \<Rightarrow> string slice \<Rightarrow> Worker \<Rightarrow> Worker result" where
  "Heartbeat_fn now newLeaseID gpus runningJobIDs v =
     (let v = v\<lparr>w_Status := StatusActive, w_LastHeartbeatAt := now\<rparr>;
          v = (if newLeaseID \<noteq> None then v\<lparr>w_LeaseID := newLeaseID\<rparr> else v);
          v = (if gpus \<noteq> None then v\<lparr>w_GPUs := gpus\<rparr> else v);
          v = (if runningJobIDs \<noteq> None then v\<lparr>w_RunningJobIDs := runningJobIDs\<rparr> else v)
      in Inr v)"

definition Heartbeat ::
    "'w WorkerRepository \<Rightarrow> 'l Manager \<Rightarrow> Duration \<Rightarrow> Time \<Rightarrow> string \<Rightarrow> GPU slice \<Rightarrow> string slice
     \<Rightarrow> 'w \<times> 'l \<Rightarrow> Worker result \<times> 'w \<times> 'l" where
  "Heartbeat wrepo mgr ttl now workerID gpus runningJobIDs = (\<lambda>(w, l).
     case wrepo_Get wrepo workerID w of
       Inl e \<Rightarrow> (Inl e, w, l)
     | Inr current \<Rightarrow>
         (case Heartbeat_lease mgr ttl workerID current l of
            (Inl e, l') \<Rightarrow> (Inl e, w, l')
          | (Inr newLeaseID, l') \<Rightarrow>
              (case wrepo_Update wrepo workerID (Heartbeat_fn now newLeaseID gpus runningJobIDs) w of
                 (x, w') \<Rightarrow> (x, w', l'))))"

definition MarkLost_fn :: "Worker \<Rightarrow> Worker result" where
  "MarkLost_fn v =
     (if w_Status v = StatusLost then Inr v
      else Inr (v\<lparr>w_Status := StatusLost, w_LeaseID := None\<rparr>))"

definition MarkLost :: "'w WorkerRepository \<Rightarrow> string \<Rightarrow> 'w \<Rightarrow> Worker result \<times> 'w" where
  "MarkLost wrepo workerID w = wrepo_Update wrepo workerID MarkLost_fn w"

definition WGet :: "'w WorkerRepository \<Rightarrow> string \<Rightarrow> 'w \<Rightarrow> Worker result" where
  "WGet wrepo k w = wrepo_Get wrepo k w"

definition WList :: "'w WorkerRepository \<Rightarrow> WListOptions \<Rightarrow> 'w \<Rightarrow> WListResult result" where
  "WList wrepo opts w = wrepo_List wrepo opts w"

definition WListActive :: "'w WorkerRepository \<Rightarrow> 'w \<Rightarrow> Worker list result" where
  "WListActive wrepo w = wrepo_ListActive wrepo w"

text \<open>The loop of \<^verbatim>\<open>WatchExpirations\<close> over the keys the channel delivers; \<open>c\<close> is the state
  the callbacks work on.\<close>

fun WatchExpirations ::
    "'w WorkerRepository \<Rightarrow> (string \<Rightarrow> 'c \<Rightarrow> 'c) option \<Rightarrow> (string \<Rightarrow> goerr \<Rightarrow> 'c \<Rightarrow> 'c) option
     \<Rightarrow> string list \<Rightarrow> 'w \<times> 'c \<Rightarrow> 'w \<times> 'c" where
  "WatchExpirations wrepo onLost onError [] (w, c) = (w, c)"
| "WatchExpirations wrepo onLost onError (key # keys) (w, c) =
     (case WorkerIDFromLeaseKey key of
        (workerID, ok) \<Rightarrow>
          (if \<not> ok then WatchExpirations wrepo onLost onError keys (w, c)
           else case MarkLost wrepo workerID w of
                  (Inr v, w') \<Rightarrow>
                    WatchExpirations wrepo onLost onError keys
                      (w', case onLost of None \<Rightarrow> c | Some f \<Rightarrow> f workerID c)
                | (Inl e, w') \<Rightarrow>
                    WatchExpirations wrepo onLost onError keys
                      (w', if errors_Is e Workers_ErrNotFound then c
                           else case onError of None \<Rightarrow> c | Some f \<Rightarrow> f workerID e c)))"

text \<open>The callback of \<^verbatim>\<open>cmd/api\<close>: recover the lost worker's jobs.  \<open>clocks i\<close> is the clock
  of the \<open>i\<close>-th call; both callbacks log, which is not modelled.\<close>

definition serve_onLost ::
    "'r JobRepository \<Rightarrow> (nat \<Rightarrow> nat \<Rightarrow> Time) \<Rightarrow> string \<Rightarrow> nat \<times> 'r \<Rightarrow> nat \<times> 'r" where
  "serve_onLost repo clocks workerID = (\<lambda>(i, r). (Suc i, snd (LoseWorker repo (clocks i) workerID r)))"

definition serve_onError :: "string \<Rightarrow> goerr \<Rightarrow> nat \<times> 'r \<Rightarrow> nat \<times> 'r" where
  "serve_onError workerID e c = c"

text \<open>The interleavings of complete worker calls, the watcher's \<^verbatim>\<open>MarkLost\<close> and leases that
  run out.  A registration draws an identifier not in use.\<close>

inductive worker_step ::
    "'w WorkerRepository \<Rightarrow> ('w \<Rightarrow> string \<rightharpoonup> Worker) \<Rightarrow> 'l Manager \<Rightarrow> (int \<Rightarrow> 'l \<Rightarrow> 'l) \<Rightarrow> Duration
     \<Rightarrow> 'w \<times> 'l \<Rightarrow> 'w \<times> 'l \<Rightarrow> bool"
  for wrepo workers_of mgr expire ttl where
  ws_register: "workers_of w newID = None \<Longrightarrow> Register wrepo mgr ttl newID now i (w, l) = (x, s) \<Longrightarrow>
     worker_step wrepo workers_of mgr expire ttl (w, l) s"
| ws_heartbeat: "Heartbeat wrepo mgr ttl now k gpus running (w, l) = (x, s) \<Longrightarrow>
     worker_step wrepo workers_of mgr expire ttl (w, l) s"
| ws_lost: "MarkLost wrepo k w = (x, w') \<Longrightarrow>
     worker_step wrepo workers_of mgr expire ttl (w, l) (w', l)"
| ws_expire: "worker_step wrepo workers_of mgr expire ttl (w, l) (w, expire i l)"

inductive_cases worker_step_cases: "worker_step wrepo workers_of mgr expire ttl (w, l) (w', l')"

text \<open>A worker is ACTIVE with a lease or LOST without one.\<close>

definition lease_matches :: "Worker \<Rightarrow> bool" where
  "lease_matches v \<longleftrightarrow> w_Status v = StatusActive \<and> w_LeaseID v \<noteq> None
     \<or> w_Status v = StatusLost \<and> w_LeaseID v = None"

section \<open>Keys and intervals\<close>

lemma WorkerIDFromLeaseKey_LeaseKey: "WorkerIDFromLeaseKey (LeaseKey k) = (k, k \<noteq> [])"
  by (simp add: WorkerIDFromLeaseKey_def LeaseKey_def HasPrefix_def Let_def)

lemma WorkerIDFromLeaseKey_eq:
  "WorkerIDFromLeaseKey key = (k, True) \<longleftrightarrow> key = LeaseKey k \<and> k \<noteq> []"
proof -
  have "HasPrefix key leaseKeyPrefix \<Longrightarrow> leaseKeyPrefix @ drop (length leaseKeyPrefix) key = key"
    by (metis HasPrefix_def append_take_drop_id)
  then show ?thesis
    by (auto simp: WorkerIDFromLeaseKey_def LeaseKey_def HasPrefix_def Let_def split: if_splits)
qed

lemma WorkerIDFromLeaseKey_not_ok:
  "WorkerIDFromLeaseKey key = (k, False) \<Longrightarrow> key \<noteq> LeaseKey k' \<or> k' = []"
  by (auto simp: WorkerIDFromLeaseKey_LeaseKey)

section \<open>The functions handed to Update\<close>

lemma Heartbeat_fn_fields:
  assumes "Heartbeat_fn now newLeaseID gpus running v = Inr v'"
  shows "w_ID v' = w_ID v" "w_Status v' = StatusActive" "w_LastHeartbeatAt v' = now"
    "w_LeaseID v' = (if newLeaseID = None then w_LeaseID v else newLeaseID)"
    "w_GPUs v' = (if gpus = None then w_GPUs v else gpus)"
    "w_CPUCapacity v' = w_CPUCapacity v" "w_MemoryCapacityBytes v' = w_MemoryCapacityBytes v"
  using assms by (auto simp: Heartbeat_fn_def Let_def)

lemma Heartbeat_fn_total: "\<exists>v'. Heartbeat_fn now newLeaseID gpus running v = Inr v'"
  by (simp add: Heartbeat_fn_def Let_def)

lemma MarkLost_fn_fields:
  assumes "MarkLost_fn v = Inr v'"
  shows "w_ID v' = w_ID v" "w_Status v' = StatusLost"
    "w_LeaseID v' = (if w_Status v = StatusLost then w_LeaseID v else None)"
  using assms by (auto simp: MarkLost_fn_def split: if_splits)

lemma MarkLost_fn_total: "\<exists>v'. MarkLost_fn v = Inr v'"
  by (simp add: MarkLost_fn_def)

lemma stored_as_fields:
  assumes "stored_as v u"
  shows "w_ID u = w_ID v" "w_Status u = w_Status v" "w_LeaseID u = w_LeaseID v"
  using assms by (simp_all add: stored_as_def)

lemma lease_matches_stored: "stored_as v u \<Longrightarrow> lease_matches u = lease_matches v"
  by (simp add: lease_matches_def stored_as_def)

section \<open>The service over any repository and manager\<close>

locale worker_service =
  worker_repository wrepo workers_of wrepo_ok + expiring_manager mgr live mgr_ok expire
  for wrepo :: "'w WorkerRepository" and workers_of :: "'w \<Rightarrow> string \<rightharpoonup> Worker"
    and wrepo_ok :: "'w \<Rightarrow> bool" and mgr :: "'l Manager" and live :: "'l \<Rightarrow> int \<rightharpoonup> string"
    and mgr_ok :: "nat \<Rightarrow> 'l \<Rightarrow> bool" and expire :: "int \<Rightarrow> 'l \<Rightarrow> 'l"
begin

lemma Register_invalid:
  "\<not> valid_register i \<Longrightarrow> Register wrepo mgr ttl newID now i (w, l) =
     (Inl (Workers_ValidationError (register_problems i)), w, l)"
  by (simp add: Register_def ValidateRegister_Some)

lemma Register_valid:
  assumes "wrepo_ok w" "mgr_ok (Suc n) l" "valid_register i" "workers_of w newID = None"
    "Register wrepo mgr ttl newID now i (w, l) = (x, w', l')"
  shows "\<exists>lease u u'. x = Inr u \<and> wrepo_ok w' \<and> mgr_ok n l' \<and> live l lease = None
    \<and> live l' = (live l)(lease \<mapsto> LeaseKey newID)
    \<and> workers_of w' = (workers_of w)(newID \<mapsto> u') \<and> w_ID u = newID \<and> w_Status u = StatusActive
    \<and> w_LeaseID u = Some lease \<and> w_ID u' = newID \<and> w_Status u' = StatusActive
    \<and> w_LeaseID u' = Some lease"
proof -
  obtain y l1 where g: "lm_Grant mgr (LeaseKey newID) ttl l = (y, l1)" by fastforce
  from grant_law [OF assms(2) g] obtain lease where lease: "y = Inr lease" "live l lease = None"
    "live l1 = (live l)(lease \<mapsto> LeaseKey newID)" "mgr_ok n l1" by blast
  define v where "v = \<lparr>w_ID = newID, w_Hostname = reg_Hostname i, w_Status = StatusActive,
     w_LeaseID = Some lease, w_CPUCapacity = reg_CPUCapacity i,
     w_MemoryCapacityBytes = reg_MemoryCapacityBytes i, w_GPUs = reg_GPUs i,
     w_SoftwareVersion = reg_SoftwareVersion i, w_Labels = reg_Labels i, w_RunningJobIDs = None,
     w_RegisteredAt = now, w_LastHeartbeatAt = now\<rparr>"
  have v: "w_ID v = newID" "w_Status v = StatusActive" "w_LeaseID v = Some lease" by (simp_all add: v_def)
  have valid: "ValidateRegister i = None" using assms(3) by (simp add: ValidateRegister_None)
  obtain z w1 where c: "wrepo_Create wrepo v w = (z, w1)" by fastforce
  have out: "x = z" "w' = w1" "l' = l1"
    using assms(5) c by (simp_all add: Register_def valid g lease(1) v_def)
  have "workers_of w (w_ID v) = None" using assms(4) v by simp
  from wcreate_law [OF assms(1) this c] obtain u u' where u: "z = Inr u" "stored_as v u"
    "stored_as v u'" "wrepo_ok w1" "workers_of w1 = (workers_of w)(w_ID v \<mapsto> u')" by blast
  show ?thesis
    using u(1,4,5) lease out v stored_as_fields [OF u(2)] stored_as_fields [OF u(3)]
    by (intro exI [of _ lease] exI [of _ u] exI [of _ u']) simp
qed

lemma Heartbeat_unknown:
  "wrepo_ok w \<Longrightarrow> workers_of w k = None \<Longrightarrow>
   Heartbeat wrepo mgr ttl now k gpus running (w, l) = (Inl Workers_ErrNotFound, w, l)"
  by (simp add: Heartbeat_def wget_law)

lemma Heartbeat_lease_spec:
  assumes "mgr_ok (Suc n) l" "Heartbeat_lease mgr ttl k v l = (x, l')"
  shows "mgr_ok n l' \<and> (case w_LeaseID v of
       Some i \<Rightarrow> if live l i \<noteq> None then x = Inr None \<and> live l' = live l
         else \<exists>j. x = Inr (Some j) \<and> live l j = None \<and> live l' = (live l)(j \<mapsto> LeaseKey k)
     | None \<Rightarrow> \<exists>j. x = Inr (Some j) \<and> live l j = None \<and> live l' = (live l)(j \<mapsto> LeaseKey k))"
proof (cases "w_LeaseID v")
  case None
  obtain y l1 where g: "lm_Grant mgr (LeaseKey k) ttl l = (y, l1)" by fastforce
  from grant_law [OF assms(1) g] show ?thesis
    using assms(2) None g by (auto simp: Heartbeat_lease_def)
next
  case (Some i)
  obtain y l1 where r: "lm_Renew mgr i l = (y, l1)" by fastforce
  show ?thesis
  proof (cases "live l i")
    case None
    from renew_dead [OF assms(1) None r] have y: "y = Some ErrLeaseNotFound" "live l1 = live l"
      "mgr_ok (Suc n) l1" by simp_all
    obtain z l2 where g: "lm_Grant mgr (LeaseKey k) ttl l1 = (z, l2)" by fastforce
    from grant_law [OF y(3) g] show ?thesis
      using assms(2) Some None r y g by (auto simp: Heartbeat_lease_def)
  next
    case (Some key)
    then have "live l i \<noteq> None" by simp
    from renew_live [OF assms(1) this r] have "y = None" "live l1 = live l" "mgr_ok (Suc n) l1" by simp_all
    then show ?thesis
      using assms(2) \<open>w_LeaseID v = Some i\<close> Some r mgr_ok_less by (simp add: Heartbeat_lease_def)
  qed
qed

lemma Heartbeat_known:
  assumes "wrepo_ok w" "mgr_ok (Suc n) l" "workers_of w k = Some v"
    "Heartbeat wrepo mgr ttl now k gpus running (w, l) = (x, w', l')"
  shows "\<exists>lease u u'. x = Inr u \<and> wrepo_ok w' \<and> mgr_ok n l'
    \<and> workers_of w' = (workers_of w)(k \<mapsto> u')
    \<and> w_Status u = StatusActive \<and> w_LeaseID u = Some lease
    \<and> w_ID u' = k \<and> w_Status u' = StatusActive \<and> w_LeaseID u' = Some lease
    \<and> live l' lease \<noteq> None
    \<and> (if w_LeaseID v \<noteq> None \<and> live l (the (w_LeaseID v)) \<noteq> None
       then w_LeaseID v = Some lease \<and> live l' = live l
       else live l lease = None \<and> live l' = (live l)(lease \<mapsto> LeaseKey k))"
proof -
  obtain y l1 where h: "Heartbeat_lease mgr ttl k v l = (y, l1)" by fastforce
  note lease = Heartbeat_lease_spec [OF assms(2) h]
  then obtain nl where y: "y = Inr nl" by (auto split: option.splits if_splits)
  obtain v' where v': "Heartbeat_fn now nl gpus running v = Inr v'" using Heartbeat_fn_total by blast
  obtain z w1 where z: "wrepo_Update wrepo k (Heartbeat_fn now nl gpus running) w = (z, w1)" by fastforce
  have out: "x = z" "w' = w1" "l' = l1"
    using assms(4) by (simp_all add: Heartbeat_def wget_law [OF assms(1)] assms(3) h y z)
  have id: "w_ID v' = k" using Heartbeat_fn_fields(1) [OF v'] wstored_id [OF assms(1,3)] by simp
  from wupdate_ok [OF assms(1,3) v' id z] obtain u u' where u: "z = Inr u" "stored_as v' u"
    "stored_as v' u'" "wrepo_ok w1" "workers_of w1 = (workers_of w)(k \<mapsto> u')" by blast
  have nl: "w_LeaseID v' = (if nl = None then w_LeaseID v else nl)" "w_Status v' = StatusActive"
    using Heartbeat_fn_fields [OF v'] by simp_all
  have "\<exists>i. w_LeaseID v' = Some i \<and> live l1 i \<noteq> None \<and>
    (if w_LeaseID v \<noteq> None \<and> live l (the (w_LeaseID v)) \<noteq> None
       then w_LeaseID v = Some i \<and> live l1 = live l
       else live l i = None \<and> live l1 = (live l)(i \<mapsto> LeaseKey k))"
  proof (cases "w_LeaseID v \<noteq> None \<and> live l (the (w_LeaseID v)) \<noteq> None")
    case True
    then show ?thesis using lease y nl(1) by auto
  next
    case False
    then obtain j where j: "nl = Some j" "live l j = None" "live l1 = (live l)(j \<mapsto> LeaseKey k)"
      using lease y by (cases "w_LeaseID v") auto
    show ?thesis
      using nl(1) j by (simp only: if_not_P [OF False]) simp
  qed
  then obtain i where i: "w_LeaseID v' = Some i" "live l1 i \<noteq> None"
    "if w_LeaseID v \<noteq> None \<and> live l (the (w_LeaseID v)) \<noteq> None
       then w_LeaseID v = Some i \<and> live l1 = live l
       else live l i = None \<and> live l1 = (live l)(i \<mapsto> LeaseKey k)" by blast
  have ok1: "mgr_ok n l1" using lease by (rule conjunct1)
  show ?thesis
    unfolding out using u(1,4,5) i ok1 nl(2) id stored_as_fields [OF u(2)] stored_as_fields [OF u(3)]
    by (intro exI [of _ i] exI [of _ u] exI [of _ u'] conjI) simp_all
qed

lemma MarkLost_known:
  assumes "wrepo_ok w" "workers_of w k = Some v" "MarkLost wrepo k w = (x, w')"
  shows "\<exists>u u'. x = Inr u \<and> wrepo_ok w' \<and> workers_of w' = (workers_of w)(k \<mapsto> u')
    \<and> w_Status u = StatusLost \<and> w_ID u' = k \<and> w_Status u' = StatusLost
    \<and> w_LeaseID u' = (if w_Status v = StatusLost then w_LeaseID v else None)"
proof -
  obtain v' where v': "MarkLost_fn v = Inr v'" using MarkLost_fn_total by blast
  have id: "w_ID v' = k" using MarkLost_fn_fields(1) [OF v'] wstored_id [OF assms(1,2)] by simp
  have z: "wrepo_Update wrepo k MarkLost_fn w = (x, w')" using assms(3) by (simp add: MarkLost_def)
  from wupdate_ok [OF assms(1,2) v' id z] obtain u u' where u: "x = Inr u" "stored_as v' u"
    "stored_as v' u'" "wrepo_ok w'" "workers_of w' = (workers_of w)(k \<mapsto> u')" by blast
  show ?thesis
    using u(1,4,5) id MarkLost_fn_fields [OF v'] stored_as_fields [OF u(2)] stored_as_fields [OF u(3)]
    by (intro exI [of _ u] exI [of _ u']) simp
qed

lemma MarkLost_unknown:
  "wrepo_ok w \<Longrightarrow> workers_of w k = None \<Longrightarrow> MarkLost wrepo k w = (Inl Workers_ErrNotFound, w)"
  by (simp add: MarkLost_def wupdate_missing)

end

end
