(* ===== verification/Worker_Loss.thy ===== *)
theory Worker_Loss
  imports Worker_Service
begin

text \<open>
  What holds of the workers after any sequence of calls, and the path from an expired lease to
  the recovered jobs: \<^verbatim>\<open>WatchExpirations\<close>, \<^verbatim>\<open>MarkLost\<close> and \<^verbatim>\<open>LoseWorker\<close> together, over any
  two repositories that keep their contracts.
\<close>

definition all_match :: "(string \<rightharpoonup> Worker) \<Rightarrow> bool" where
  "all_match m \<longleftrightarrow> (\<forall>k v. m k = Some v \<longrightarrow> lease_matches v)"

lemma all_match_upd: "all_match m \<Longrightarrow> lease_matches v \<Longrightarrow> all_match (m(k \<mapsto> v))"
  by (auto simp: all_match_def)

lemma all_match_empty [simp]: "all_match Map.empty"
  by (simp add: all_match_def)

context worker_service
begin

lemma Register_match:
  assumes "wrepo_ok w" "mgr_ok (Suc n) l" "all_match (workers_of w)" "workers_of w newID = None"
    "Register wrepo mgr ttl newID now i (w, l) = (x, w', l')"
  shows "wrepo_ok w' \<and> mgr_ok n l' \<and> all_match (workers_of w')"
proof (cases "valid_register i")
  case False
  with assms mgr_ok_less show ?thesis by (simp add: Register_invalid)
next
  case True
  from Register_valid [OF assms(1,2) True assms(4,5)] obtain u' where
    "wrepo_ok w'" "mgr_ok n l'" "workers_of w' = (workers_of w)(newID \<mapsto> u')" "lease_matches u'"
    by (auto simp: lease_matches_def)
  with assms(3) show ?thesis by (simp add: all_match_upd)
qed

lemma Heartbeat_match:
  assumes "wrepo_ok w" "mgr_ok (Suc n) l" "all_match (workers_of w)"
    "Heartbeat wrepo mgr ttl now k gpus running (w, l) = (x, w', l')"
  shows "wrepo_ok w' \<and> mgr_ok n l' \<and> all_match (workers_of w')"
proof (cases "workers_of w k")
  case None
  with assms mgr_ok_less show ?thesis by (simp add: Heartbeat_unknown)
next
  case (Some v)
  from Heartbeat_known [OF assms(1,2) Some assms(4)] obtain lease u' where
    u: "wrepo_ok w'" "mgr_ok n l'" "workers_of w' = (workers_of w)(k \<mapsto> u')"
    "w_Status u' = StatusActive" "w_LeaseID u' = Some lease" by blast
  then have "lease_matches u'" by (simp add: lease_matches_def)
  with u(1,2,3) assms(3) show ?thesis by (simp add: all_match_upd)
qed

lemma MarkLost_match:
  assumes "wrepo_ok w" "all_match (workers_of w)" "MarkLost wrepo k w = (x, w')"
  shows "wrepo_ok w' \<and> all_match (workers_of w')"
proof (cases "workers_of w k")
  case None
  with assms show ?thesis by (simp add: MarkLost_unknown)
next
  case (Some v)
  from MarkLost_known [OF assms(1) Some assms(3)] obtain u' where
    u: "wrepo_ok w'" "workers_of w' = (workers_of w)(k \<mapsto> u')" "w_Status u' = StatusLost"
    "w_LeaseID u' = (if w_Status v = StatusLost then w_LeaseID v else None)" by blast
  moreover have "lease_matches v" using assms(2) Some by (auto simp: all_match_def)
  ultimately have "lease_matches u'" by (auto simp: lease_matches_def)
  with u(1,2) assms(2) show ?thesis by (simp add: all_match_upd)
qed

lemma worker_step_match:
  assumes "worker_step wrepo workers_of mgr expire ttl (w, l) (w', l')"
    "wrepo_ok w" "mgr_ok (Suc n) l" "all_match (workers_of w)"
  shows "wrepo_ok w' \<and> mgr_ok n l' \<and> all_match (workers_of w')"
  using assms(1)
proof (elim worker_step_cases, goal_cases)
  case 1
  then show ?case by (elim Register_match [OF assms(2-4)])
next
  case 2
  then show ?case by (elim Heartbeat_match [OF assms(2-4)])
next
  case (3 k x)
  then show ?case using MarkLost_match [OF assms(2,4)] mgr_ok_less [OF assms(3)] by metis
next
  case (4 i)
  then show ?case using assms(2,4) expire_law [OF mgr_ok_less [OF assms(3)]] by simp
qed

lemma worker_run_match:
  assumes "((worker_step wrepo workers_of mgr expire ttl) ^^ m) (w, l) (w', l')"
    "wrepo_ok w" "mgr_ok (m + n) l" "all_match (workers_of w)"
  shows "wrepo_ok w' \<and> mgr_ok n l' \<and> all_match (workers_of w')"
  using assms
proof (induction m arbitrary: w' l' n)
  case (Suc m)
  from Suc.prems(1) obtain w1 l1 where
    s: "((worker_step wrepo workers_of mgr expire ttl) ^^ m) (w, l) (w1, l1)"
    "worker_step wrepo workers_of mgr expire ttl (w1, l1) (w', l')" by auto
  have "mgr_ok (m + Suc n) l" using Suc.prems(3) by simp
  from Suc.IH [OF s(1) Suc.prems(2) this Suc.prems(4)] worker_step_match [OF s(2)] show ?case by blast
qed simp

end

section \<open>From an expired lease to the recovered jobs\<close>

definition lost_ids :: "string list \<Rightarrow> string set" where
  "lost_ids keys = {k. k \<noteq> [] \<and> LeaseKey k \<in> set keys}"

text \<open>The workers in \<open>K\<close> are LOST and no other record has changed; the jobs held by a worker
  in \<open>K\<close> are recovered and no other job has changed.\<close>

definition worker_effect :: "string set \<Rightarrow> (string \<rightharpoonup> Worker) \<Rightarrow> (string \<rightharpoonup> Worker) \<Rightarrow> bool" where
  "worker_effect K ws ws' \<longleftrightarrow> dom ws' = dom ws
     \<and> (\<forall>k v. ws' k = Some v \<longrightarrow> (if k \<in> K then w_Status v = StatusLost else ws k = Some v))"

definition job_effect :: "(Job \<Rightarrow> Job) \<Rightarrow> string set \<Rightarrow> (string \<rightharpoonup> Job) \<Rightarrow> (string \<rightharpoonup> Job) \<Rightarrow> bool" where
  "job_effect nm K js js' \<longleftrightarrow> (\<forall>i. case js i of
       None \<Rightarrow> js' i = None
     | Some j \<Rightarrow> if \<exists>k\<in>K. held_by k j then \<exists>k\<in>K. \<exists>j'. recovered k j j' \<and> js' i = Some (nm j')
         else js' i = Some j)"

lemma lost_ids_Cons:
  "WorkerIDFromLeaseKey key = (k, ok) \<Longrightarrow>
   lost_ids (key # keys) = (if ok then insert k (lost_ids keys) else lost_ids keys)"
  using WorkerIDFromLeaseKey_eq [of key k] WorkerIDFromLeaseKey_not_ok [of key k]
  by (auto simp: lost_ids_def LeaseKey_def)

lemma serve_onLost_app:
  "serve_onLost repo clocks k (i, r) = (Suc i, snd (LoseWorker repo (clocks i) k r))"
  by (simp add: serve_onLost_def)

lemma worker_effect_trans:
  "worker_effect K ws ws1 \<Longrightarrow> worker_effect L ws1 ws2 \<Longrightarrow> worker_effect (K \<union> L) ws ws2"
  unfolding worker_effect_def by (auto split: if_splits) metis+

lemma worker_effect_missing:
  "ws k = None \<Longrightarrow> worker_effect K ws ws' \<Longrightarrow> worker_effect (insert k K) ws ws'"
  unfolding worker_effect_def by (auto split: if_splits)

lemma job_effect_trans:
  assumes "job_effect nm K js js1" "job_effect nm L js1 js2" "\<And>k j. held_by k (nm j) = held_by k j"
  shows "job_effect nm (K \<union> L) js js2"
  unfolding job_effect_def
proof
  fix i
  from assms(1,2) have 1: "case js i of None \<Rightarrow> js1 i = None
     | Some j \<Rightarrow> if \<exists>k\<in>K. held_by k j then \<exists>k\<in>K. \<exists>j'. recovered k j j' \<and> js1 i = Some (nm j')
         else js1 i = Some j"
    and 2: "case js1 i of None \<Rightarrow> js2 i = None
     | Some j \<Rightarrow> if \<exists>k\<in>L. held_by k j then \<exists>k\<in>L. \<exists>j'. recovered k j j' \<and> js2 i = Some (nm j')
         else js2 i = Some j" by (auto simp: job_effect_def)
  show "case js i of None \<Rightarrow> js2 i = None
     | Some j \<Rightarrow> if \<exists>k\<in>K \<union> L. held_by k j then \<exists>k\<in>K \<union> L. \<exists>j'. recovered k j j' \<and> js2 i = Some (nm j')
         else js2 i = Some j"
  proof (cases "js i")
    case None
    with 1 2 show ?thesis by simp
  next
    case (Some j)
    show ?thesis
    proof (cases "\<exists>k\<in>K. held_by k j")
      case True
      with 1 Some obtain k j' where k: "k \<in> K" "recovered k j j'" "js1 i = Some (nm j')" by auto
      from True have "job_State j \<in> set held_states" by (auto simp: held_by_def)
      with k(2) have "\<not> held_by v (nm j')" for v using recovered_not_held assms(3) by blast
      with 2 k(3) have "js2 i = Some (nm j')" by simp
      with k True Some show ?thesis by auto
    next
      case False
      with 1 Some have "js1 i = Some j" by simp
      moreover from False have "(\<exists>k\<in>K \<union> L. held_by k j) \<longleftrightarrow> (\<exists>k\<in>L. held_by k j)" by auto
      ultimately show ?thesis using 2 Some by (auto split: if_splits)
    qed
  qed
qed

lemma job_effect_none_held:
  assumes "job_effect nm K js js'" "k \<in> K" "js' i = Some j'" "\<And>k j. held_by k (nm j) = held_by k j"
  shows "\<not> held_by k j'"
proof -
  from assms(1) have e: "case js i of None \<Rightarrow> js' i = None
     | Some j \<Rightarrow> if \<exists>k\<in>K. held_by k j then \<exists>k\<in>K. \<exists>j'. recovered k j j' \<and> js' i = Some (nm j')
         else js' i = Some j" by (simp add: job_effect_def)
  then obtain j where j: "js i = Some j" using assms(3) by (cases "js i") auto
  show ?thesis
  proof (cases "\<exists>k\<in>K. held_by k j")
    case True
    with e j assms(3) obtain a j1 where "recovered a j j1" "j' = nm j1" by auto
    moreover have "job_State j \<in> set held_states" using True by (auto simp: held_by_def)
    ultimately show ?thesis using recovered_not_held assms(4) by blast
  next
    case False
    with e j assms(2,3) show ?thesis by auto
  qed
qed

locale loss_watch =
  worker_repository wrepo workers_of wrepo_ok + job_repository repo jobs_of repo_ok tn sn
  for wrepo :: "'w WorkerRepository" and workers_of :: "'w \<Rightarrow> string \<rightharpoonup> Worker"
    and wrepo_ok :: "'w \<Rightarrow> bool" and repo :: "'r JobRepository"
    and jobs_of :: "'r \<Rightarrow> string \<rightharpoonup> Job" and repo_ok :: "'r \<Rightarrow> bool"
    and tn :: "Time \<Rightarrow> Time" and sn :: "string slice \<Rightarrow> string slice"
begin

lemma mark_lost_cases:
  assumes "wrepo_ok w" "MarkLost wrepo k w = (x, w')"
  obtains (missing) "workers_of w k = None" "x = Inl Workers_ErrNotFound" "w' = w"
  | (marked) v u u' where "workers_of w k = Some v" "x = Inr u" "wrepo_ok w'"
      "workers_of w' = (workers_of w)(k \<mapsto> u')" "w_Status u' = StatusLost"
      "w_LeaseID u' = (if w_Status v = StatusLost then w_LeaseID v else None)"
proof (cases "workers_of w k")
  case None
  then show ?thesis using missing assms by (simp add: MarkLost_def wupdate_missing)
next
  case (Some v)
  obtain v' where v': "MarkLost_fn v = Inr v'" using MarkLost_fn_total by blast
  have id: "w_ID v' = k" using MarkLost_fn_fields(1) [OF v'] wstored_id [OF assms(1) Some] by simp
  have z: "wrepo_Update wrepo k MarkLost_fn w = (x, w')" using assms(2) by (simp add: MarkLost_def)
  from wupdate_ok [OF assms(1) Some v' id z] obtain u u' where u: "x = Inr u" "stored_as v' u'"
    "wrepo_ok w'" "workers_of w' = (workers_of w)(k \<mapsto> u')" by blast
  show ?thesis
    by (rule marked [OF Some u(1,3,4)])
      (use MarkLost_fn_fields [OF v'] stored_as_fields [OF u(2)] in simp_all)
qed

lemma job_effect_step:
  assumes "repo_ok r" "r' = snd (LoseWorker repo clock k r)"
  shows "repo_ok r' \<and> job_effect (norm_job tn sn) {k} (jobs_of r) (jobs_of r')"
proof -
  obtain x where l: "LoseWorker repo clock k r = (x, r')" using assms(2) by (metis prod.collapse)
  from LoseWorker_recovers [OF assms(1) l] show ?thesis by (simp only: job_effect_def bex_simps simp_thms)
qed

lemma watch_loop:
  assumes "wrepo_ok w" "repo_ok r"
    "WatchExpirations wrepo (Some (serve_onLost repo clocks)) onError keys (w, n, r) = (w', n', r')"
  shows "wrepo_ok w' \<and> repo_ok r'
    \<and> worker_effect (lost_ids keys) (workers_of w) (workers_of w')
    \<and> job_effect (norm_job tn sn) (lost_ids keys \<inter> dom (workers_of w)) (jobs_of r) (jobs_of r')"
  using assms
proof (induction keys arbitrary: w n r)
  case (Cons key keys)
  obtain k ok where key: "WorkerIDFromLeaseKey key = (k, ok)" by fastforce
  show ?case
  proof (cases ok)
    case False
    then have "WatchExpirations wrepo (Some (serve_onLost repo clocks)) onError keys (w, n, r) = (w', n', r')"
      using Cons.prems(3) key by simp
    from Cons.IH [OF Cons.prems(1,2) this] show ?thesis using key False by (simp add: lost_ids_Cons)
  next
    case True
    then have ids: "lost_ids (key # keys) = insert k (lost_ids keys)" using key by (simp add: lost_ids_Cons)
    obtain x w1 where m: "MarkLost wrepo k w = (x, w1)" by fastforce
    from Cons.prems(1) m show ?thesis
    proof (cases rule: mark_lost_cases)
      case missing
      then have "WatchExpirations wrepo (Some (serve_onLost repo clocks)) onError keys (w, n, r) = (w', n', r')"
        using Cons.prems(3) key True m by simp
      note IH = Cons.IH [OF Cons.prems(1,2) this]
      have "insert k (lost_ids keys) \<inter> dom (workers_of w) = lost_ids keys \<inter> dom (workers_of w)"
        using missing(1) by blast
      with IH worker_effect_missing [of "workers_of w" k] missing(1) show ?thesis by (simp add: ids)
    next
      case (marked v u u')
      define r1 where "r1 = snd (LoseWorker repo (clocks n) k r)"
      note step = job_effect_step [OF Cons.prems(2) r1_def]
      have "WatchExpirations wrepo (Some (serve_onLost repo clocks)) onError keys (w1, Suc n, r1) = (w', n', r')"
        using Cons.prems(3) key True m marked(2) by (simp add: serve_onLost_app r1_def)
      note IH = Cons.IH [OF marked(3) conjunct1 [OF step] this]
      have dom: "dom (workers_of w1) = dom (workers_of w)" using marked(1,4) by auto
      have "worker_effect {k} (workers_of w) (workers_of w1)"
        using marked(1,4,5) by (simp add: worker_effect_def insert_absorb domI)
      with IH have ws: "worker_effect (insert k (lost_ids keys)) (workers_of w) (workers_of w')"
        using worker_effect_trans by fastforce
      have "insert k (lost_ids keys) \<inter> dom (workers_of w) = {k} \<union> (lost_ids keys \<inter> dom (workers_of w1))"
        using marked(1) dom by auto
      with IH step job_effect_trans [where nm = "norm_job tn sn"] have
        "job_effect (norm_job tn sn) (insert k (lost_ids keys) \<inter> dom (workers_of w)) (jobs_of r) (jobs_of r')"
        by (metis not_held_norm)
      with ws IH show ?thesis by (simp add: ids)
    qed
  qed
qed (simp add: lost_ids_def worker_effect_def job_effect_def split: option.splits)

end

interpretation mem_workers: worker_service worker_memory_repository wmem_workers wmem_ok
    fake_manager fake_live fake_room fake_Expire
  by unfold_locales

interpretation mem_watch: loss_watch worker_memory_repository wmem_workers wmem_ok
    memory_repository mem_jobs mem_ok "\<lambda>t. t" "\<lambda>s. s"
  by unfold_locales

end
