(* ===== verification/Scheduler.thy ===== *)
theory Scheduler
  imports Jobs Workers Leases
begin

text \<open>
  The scheduling algorithm, \<^verbatim>\<open>internal/scheduler/fairness.go\<close>, \<^verbatim>\<open>capacity.go\<close> and
  \<^verbatim>\<open>plan.go\<close>: the pure functions from a snapshot of jobs and workers to assignments and
  preemptions.  The Go map \<^verbatim>\<open>committed\<close> is only looked up, with the zero struct as default,
  so it is a total function from worker identifiers; \<^verbatim>\<open>int\<close> and \<^verbatim>\<open>int64\<close> sums wrap at 64
  bits, CPU amounts are \<^verbatim>\<open>float64\<close>.
\<close>

section \<open>fairness.go\<close>

definition AgingInterval :: Duration where "AgingInterval = 30 * Second"
definition AgingIncrement :: int where "AgingIncrement = 1"
definition MaxAgingBonus :: int where "MaxAgingBonus = 20"

text \<open>\<^verbatim>\<open>time.Time.Sub\<close> saturates at the ends of \<^verbatim>\<open>time.Duration\<close>.\<close>

definition time_Sub :: "Time \<Rightarrow> Time \<Rightarrow> Duration" where
  "time_Sub t u = max (- (2 ^ 63)) (min (2 ^ 63 - 1) (t - u))"

definition EffectivePriority :: "int \<Rightarrow> Time \<Rightarrow> Time \<Rightarrow> int" where
  "EffectivePriority priority createdAt now =
     (if \<not> now > createdAt then priority
      else let waited = time_Sub now createdAt;
               bonus = i32 (i32 (waited div AgingInterval) * AgingIncrement);
               bonus = (if bonus > MaxAgingBonus then MaxAgingBonus else bonus)
           in i32 (priority + bonus))"

abbreviation job_priority :: "Time \<Rightarrow> Job \<Rightarrow> int" where
  "job_priority now j \<equiv> EffectivePriority (job_Priority j) (job_CreatedAt j) now"

section \<open>capacity.go\<close>

record committedResources =
  c_gpuCount :: int
  c_cpuCores :: float64
  c_memoryBytes :: int

type_synonym committed = "string \<Rightarrow> committedResources"

definition no_resources :: committedResources where
  "no_resources = \<lparr>c_gpuCount = 0, c_cpuCores = f_zero, c_memoryBytes = 0\<rparr>"

text \<open>The three sums that \<^verbatim>\<open>committedByWorker\<close>, \<^verbatim>\<open>Plan\<close> and \<^verbatim>\<open>PlanPreemptions\<close> repeat.\<close>

definition add_resources :: "committedResources \<Rightarrow> ResourceRequest \<Rightarrow> committedResources" where
  "add_resources c q =
     \<lparr>c_gpuCount = i64 (c_gpuCount c + GPUCount q),
      c_cpuCores = f_add (c_cpuCores c) (CPUCores q),
      c_memoryBytes = i64 (c_memoryBytes c + MemoryBytes q)\<rparr>"

definition reserve :: "string \<Rightarrow> ResourceRequest \<Rightarrow> committed \<Rightarrow> committed" where
  "reserve k q c = c(k := add_resources (c k) q)"

definition holds_capacity :: "State \<Rightarrow> bool" where
  "holds_capacity s \<longleftrightarrow> s = StateScheduled \<or> s = StateRunning \<or> s = StateCheckpointing"

fun committed_loop :: "Job list \<Rightarrow> committed \<Rightarrow> committed" where
  "committed_loop [] out = out"
| "committed_loop (j # js) out =
     committed_loop js
       (if holds_capacity (job_State j)
        then fold (\<lambda>workerID. reserve workerID (job_Resources j)) (elems (job_AssignedWorkerIDs j)) out
        else out)"

definition committedByWorker :: "Job list \<Rightarrow> committed" where
  "committedByWorker activeJobs = committed_loop activeJobs (\<lambda>_. no_resources)"

definition qualifying :: "Worker \<Rightarrow> int \<Rightarrow> int" where
  "qualifying v minMemoryBytes =
     int (length (filter (\<lambda>g. gpu_TotalMemoryBytes g \<ge> minMemoryBytes) (elems (w_GPUs v))))"

definition freeGPUCount :: "Worker \<Rightarrow> int \<Rightarrow> int \<Rightarrow> int" where
  "freeGPUCount v minMemoryBytes committedGPUCount =
     (let free = i64 (qualifying v minMemoryBytes - committedGPUCount)
      in if free < 0 then 0 else free)"

section \<open>plan.go: placement\<close>

record Assignment =
  a_JobID :: string
  a_WorkerID :: string
  a_Reason :: string

definition ep_less :: "Time \<Rightarrow> Job \<Rightarrow> Job \<Rightarrow> bool" where
  "ep_less now a b =
     (let pa = job_priority now a; pb = job_priority now b
      in if pa \<noteq> pb then pa > pb
         else if job_CreatedAt a \<noteq> job_CreatedAt b then job_CreatedAt a < job_CreatedAt b
         else job_ID a < job_ID b)"

definition sortByEffectivePriority :: "Time \<Rightarrow> Job list \<Rightarrow> Job list" where
  "sortByEffectivePriority now queued = sort_slice (ep_less now) queued"

text \<open>What is free on a worker: CPU, memory and, for a bar on GPU memory, GPUs.\<close>

definition free_cpu :: "Worker \<Rightarrow> committedResources \<Rightarrow> float64" where
  "free_cpu v c = f_sub (w_CPUCapacity v) (c_cpuCores c)"

definition free_memory :: "Worker \<Rightarrow> committedResources \<Rightarrow> int" where
  "free_memory v c = i64 (w_MemoryCapacityBytes v - c_memoryBytes c)"

definition free_gpus :: "Worker \<Rightarrow> ResourceRequest \<Rightarrow> committedResources \<Rightarrow> int" where
  "free_gpus v q c = freeGPUCount v (MinGPUMemoryBytes q) (c_gpuCount c)"

text \<open>The conditions of the loop of \<^verbatim>\<open>selectWorker\<close>, none of which may send it to
  \<^verbatim>\<open>continue\<close>.\<close>

definition eligible :: "ResourceRequest \<Rightarrow> committedResources \<Rightarrow> Worker \<Rightarrow> bool" where
  "eligible q c v \<longleftrightarrow>
     w_Status v = StatusActive
     \<and> \<not> f_lt (free_cpu v c) (CPUCores q)
     \<and> \<not> free_memory v c < MemoryBytes q
     \<and> \<not> free_gpus v q c < GPUCount q"

record candidate =
  cd_workerID :: string
  cd_surplus :: int

definition candidate_less :: "candidate \<Rightarrow> candidate \<Rightarrow> bool" where
  "candidate_less a b =
     (if cd_surplus a \<noteq> cd_surplus b then cd_surplus a < cd_surplus b
      else cd_workerID a < cd_workerID b)"

definition candidate_of :: "ResourceRequest \<Rightarrow> committed \<Rightarrow> Worker \<Rightarrow> candidate" where
  "candidate_of q c v =
     \<lparr>cd_workerID = w_ID v, cd_surplus = i64 (free_gpus v q (c (w_ID v)) - GPUCount q)\<rparr>"

definition selectWorker :: "Job \<Rightarrow> Worker list \<Rightarrow> committed \<Rightarrow> string option" where
  "selectWorker job activeWorkers c =
     (case sort_slice candidate_less
             (map (candidate_of (job_Resources job) c)
               (filter (\<lambda>v. eligible (job_Resources job) (c (w_ID v)) v) activeWorkers)) of
        [] \<Rightarrow> None
      | best # rest \<Rightarrow> Some (cd_workerID best))"

fun plan_loop :: "Worker list \<Rightarrow> Job list \<Rightarrow> committed \<Rightarrow> Assignment list" where
  "plan_loop activeWorkers [] c = []"
| "plan_loop activeWorkers (job # queued) c =
     (case selectWorker job activeWorkers c of
        None \<Rightarrow> plan_loop activeWorkers queued c
      | Some workerID \<Rightarrow>
          \<lparr>a_JobID = job_ID job, a_WorkerID = workerID, a_Reason = ''eligible worker found''\<rparr>
          # plan_loop activeWorkers queued (reserve workerID (job_Resources job) c))"

definition Plan :: "Job list \<Rightarrow> Worker list \<Rightarrow> Time \<Rightarrow> Assignment list" where
  "Plan activeJobs activeWorkers now =
     plan_loop activeWorkers
       (sortByEffectivePriority now (filter (\<lambda>j. job_State j = StateQueued) activeJobs))
       (committedByWorker activeJobs)"

section \<open>plan.go: preemption\<close>

record Preemption =
  p_JobID :: string
  p_WorkerID :: string
  p_Reason :: string

fun jobByID :: "Job list \<Rightarrow> string \<Rightarrow> Job option" where
  "jobByID [] k = None"
| "jobByID (j # js) k = (if job_ID j = k then Some j else jobByID js k)"

fun running_loop :: "Job list \<Rightarrow> (string \<Rightarrow> Job list) \<Rightarrow> string \<Rightarrow> Job list" where
  "running_loop [] out = out"
| "running_loop (j # js) out =
     running_loop js
       (if job_State j \<noteq> StateRunning \<or> \<not> job_Preemptible j then out
        else fold (\<lambda>workerID out. out(workerID := out workerID @ [j])) (elems (job_AssignedWorkerIDs j)) out)"

definition runningPreemptibleByWorker :: "Job list \<Rightarrow> string \<Rightarrow> Job list" where
  "runningPreemptibleByWorker activeJobs = running_loop activeJobs (\<lambda>_. [])"

text \<open>The loop over \<^verbatim>\<open>placed\<close>: the assignments of this pass claim their capacity too.\<close>

fun commit_placed :: "Job list \<Rightarrow> Assignment list \<Rightarrow> committed \<Rightarrow> committed" where
  "commit_placed activeJobs [] c = c"
| "commit_placed activeJobs (a # placed) c =
     commit_placed activeJobs placed
       (case jobByID activeJobs (a_JobID a) of
          None \<Rightarrow> c
        | Some job \<Rightarrow> reserve (a_WorkerID a) (job_Resources job) c)"

definition victim_less :: "Time \<Rightarrow> Job \<Rightarrow> Job \<Rightarrow> bool" where
  "victim_less now a b =
     (let pa = job_priority now a; pb = job_priority now b
      in if pa \<noteq> pb then pa < pb else job_ID a < job_ID b)"

text \<open>The three comparisons, with \<^verbatim>\<open>>=\<close> and with \<^verbatim>\<open><\<close>, of what is free plus what has been
  freed against the request of the pending job.\<close>

definition fits_with :: "ResourceRequest \<Rightarrow> float64 \<Rightarrow> int \<Rightarrow> int \<Rightarrow> bool" where
  "fits_with q cpu memory gpus \<longleftrightarrow>
     f_ge cpu (CPUCores q) \<and> memory \<ge> MemoryBytes q \<and> gpus \<ge> GPUCount q"

definition short_with :: "ResourceRequest \<Rightarrow> float64 \<Rightarrow> int \<Rightarrow> int \<Rightarrow> bool" where
  "short_with q cpu memory gpus \<longleftrightarrow>
     f_lt cpu (CPUCores q) \<or> memory < MemoryBytes q \<or> gpus < GPUCount q"

text \<open>The loop over the candidates of one worker, with the jobs chosen so far and the
  resources (\<^verbatim>\<open>gpuFreed\<close>, \<^verbatim>\<open>cpuFreed\<close>, \<^verbatim>\<open>memFreed\<close>) they free.\<close>

fun victim_loop ::
    "Time \<Rightarrow> int \<Rightarrow> (committedResources \<Rightarrow> bool) \<Rightarrow> string list \<Rightarrow> Job list \<Rightarrow> Job list \<Rightarrow> committedResources
     \<Rightarrow> Job list \<times> committedResources" where
  "victim_loop now pendingPriority enough preempted [] toPreempt freed = (toPreempt, freed)"
| "victim_loop now pendingPriority enough preempted (cand # cands) toPreempt freed =
     (if job_ID cand \<in> set preempted
      then victim_loop now pendingPriority enough preempted cands toPreempt freed
      else if job_priority now cand \<ge> pendingPriority then (toPreempt, freed)
      else let toPreempt = toPreempt @ [cand]; freed = add_resources freed (job_Resources cand)
           in if enough freed then (toPreempt, freed)
              else victim_loop now pendingPriority enough preempted cands toPreempt freed)"

definition sub_resources :: "committedResources \<Rightarrow> committedResources \<Rightarrow> committedResources" where
  "sub_resources c freed =
     \<lparr>c_gpuCount = i64 (c_gpuCount c - c_gpuCount freed),
      c_cpuCores = f_sub (c_cpuCores c) (c_cpuCores freed),
      c_memoryBytes = i64 (c_memoryBytes c - c_memoryBytes freed)\<rparr>"

definition preempt_reason :: "Job \<Rightarrow> string" where
  "preempt_reason job = ''preempted to free resources for higher-priority job '' @ job_ID job"

definition enough_on :: "ResourceRequest \<Rightarrow> Worker \<Rightarrow> committedResources \<Rightarrow> committedResources \<Rightarrow> bool" where
  "enough_on q v c freed \<longleftrightarrow>
     fits_with q (f_add (free_cpu v c) (c_cpuCores freed))
       (i64 (free_memory v c + c_memoryBytes freed)) (i64 (free_gpus v q c + c_gpuCount freed))"

definition short_on :: "ResourceRequest \<Rightarrow> Worker \<Rightarrow> committedResources \<Rightarrow> committedResources \<Rightarrow> bool" where
  "short_on q v c freed \<longleftrightarrow>
     short_with q (f_add (free_cpu v c) (c_cpuCores freed))
       (i64 (free_memory v c + c_memoryBytes freed)) (i64 (free_gpus v q c + c_gpuCount freed))"

text \<open>The loop over the workers for one pending job.  It returns the preemptions it adds,
  with the updated \<^verbatim>\<open>committed\<close> and \<^verbatim>\<open>preemptedThisPass\<close>.\<close>

fun preempt_workers ::
    "Time \<Rightarrow> (string \<Rightarrow> Job list) \<Rightarrow> Job \<Rightarrow> Worker list \<Rightarrow> committed \<Rightarrow> string list
     \<Rightarrow> Preemption list \<times> committed \<times> string list" where
  "preempt_workers now runningByWorker job [] c preempted = ([], c, preempted)"
| "preempt_workers now runningByWorker job (v # vs) c preempted =
     (if w_Status v \<noteq> StatusActive then preempt_workers now runningByWorker job vs c preempted
      else let q = job_Resources job; cw = c (w_ID v)
           in if fits_with q (free_cpu v cw) (free_memory v cw) (free_gpus v q cw)
              then ([], c, preempted)
              else
                (case victim_loop now (job_priority now job) (enough_on q v cw) preempted
                        (sort_slice (victim_less now) (runningByWorker (w_ID v))) [] no_resources of
                   (toPreempt, freed) \<Rightarrow>
                     (if short_on q v cw freed
                      then preempt_workers now runningByWorker job vs c preempted
                      else (map (\<lambda>cand. \<lparr>p_JobID = job_ID cand, p_WorkerID = w_ID v,
                                         p_Reason = preempt_reason job\<rparr>) toPreempt,
                            c(w_ID v := sub_resources cw freed),
                            preempted @ map job_ID toPreempt))))"

fun preempt_queue ::
    "Time \<Rightarrow> (string \<Rightarrow> Job list) \<Rightarrow> Worker list \<Rightarrow> Job list \<Rightarrow> committed \<Rightarrow> string list \<Rightarrow> Preemption list" where
  "preempt_queue now runningByWorker activeWorkers [] c preempted = []"
| "preempt_queue now runningByWorker activeWorkers (job # queued) c preempted =
     (case preempt_workers now runningByWorker job activeWorkers c preempted of
        (ps, c', preempted') \<Rightarrow>
          ps @ preempt_queue now runningByWorker activeWorkers queued c' preempted')"

definition PlanPreemptions ::
    "Job list \<Rightarrow> Worker list \<Rightarrow> Assignment list \<Rightarrow> Time \<Rightarrow> Preemption list" where
  "PlanPreemptions activeJobs activeWorkers placed now =
     preempt_queue now (runningPreemptibleByWorker activeJobs) activeWorkers
       (sortByEffectivePriority now
         (filter (\<lambda>j. job_State j = StateQueued \<and> job_ID j \<notin> a_JobID ` set placed) activeJobs))
       (commit_placed activeJobs placed (committedByWorker activeJobs)) []"

section \<open>Orders\<close>

interpretation ep: keyed_less "ep_less now" job_ID for now
  by unfold_locales (auto simp: ep_less_def Let_def split: if_splits)

interpretation candidate: keyed_less candidate_less "\<lambda>c. (cd_surplus c, cd_workerID c)"
  by unfold_locales (auto simp: candidate_less_def split: if_splits)

interpretation victim: keyed_less "victim_less now" job_ID for now
  by unfold_locales (auto simp: victim_less_def Let_def split: if_splits)

end
