(* ===== verification/Placement.thy ===== *)
theory Placement
  imports Scheduler
begin

text \<open>
  Properties of \<^verbatim>\<open>EffectivePriority\<close>, \<^verbatim>\<open>selectWorker\<close> and \<^verbatim>\<open>Plan\<close>.  Capacity safety is proved
  once, for any resource that is tracked exactly by \<^verbatim>\<open>committedResources\<close> (locale
  \<open>capacity_measure\<close>), and obtained for memory, GPUs and CPU by interpretation.
\<close>

section \<open>Effective priority\<close>

lemma time_Sub_div:
  assumes "u < t"
  shows "0 \<le> time_Sub t u div AgingInterval" "time_Sub t u div AgingInterval < 2 ^ 31"
    "min 20 (time_Sub t u div AgingInterval) = min 20 ((t - u) div AgingInterval)"
proof -
  have pos: "0 \<le> time_Sub t u" and le: "time_Sub t u \<le> 2 ^ 63 - 1"
    using assms by (simp_all add: time_Sub_def)
  from pos show "0 \<le> time_Sub t u div AgingInterval"
    by (simp add: AgingInterval_def Second_def pos_imp_zdiv_nonneg_iff)
  have "time_Sub t u div AgingInterval \<le> (2 ^ 63 - 1) div AgingInterval"
    using le by (intro zdiv_mono1) (simp_all add: AgingInterval_def Second_def)
  also have "\<dots> < 2 ^ 31" by (simp add: AgingInterval_def Second_def)
  finally show "time_Sub t u div AgingInterval < 2 ^ 31" .
  show "min 20 (time_Sub t u div AgingInterval) = min 20 ((t - u) div AgingInterval)"
  proof (cases "t - u \<le> 2 ^ 63 - 1")
    case True
    then have "time_Sub t u = t - u" using assms by (simp add: time_Sub_def)
    then show ?thesis by simp
  next
    case False
    then have s: "time_Sub t u = 2 ^ 63 - 1" by (simp add: time_Sub_def)
    have "(2 ^ 63 - 1) div AgingInterval \<le> (t - u) div AgingInterval"
      using False by (intro zdiv_mono1) (simp_all add: AgingInterval_def Second_def)
    moreover have "20 \<le> (2 ^ 63 - 1) div AgingInterval" by (simp add: AgingInterval_def Second_def)
    ultimately show ?thesis unfolding s by linarith
  qed
qed

definition aging_bonus :: "Time \<Rightarrow> Time \<Rightarrow> int" where
  "aging_bonus createdAt now = max 0 (min 20 ((now - createdAt) div AgingInterval))"

lemma EffectivePriority_closed:
  assumes "in_i32 p" "p + 20 < 2 ^ 31"
  shows "EffectivePriority p createdAt now = p + aging_bonus createdAt now"
proof (cases "now > createdAt")
  case False
  then have "(now - createdAt) div AgingInterval \<le> 0"
    by (intro div_nonpos_pos_le0) (simp_all add: AgingInterval_def Second_def)
  with False show ?thesis by (simp add: EffectivePriority_def aging_bonus_def)
next
  case True
  note b = time_Sub_div [OF True]
  let ?w = "time_Sub now createdAt div AgingInterval"
  have w: "i32 (i32 ?w * AgingIncrement) = ?w"
    using b by (simp add: i32_id in_i32_def AgingIncrement_def)
  have bonus: "(if ?w > MaxAgingBonus then MaxAgingBonus else ?w) = aging_bonus createdAt now"
    using b by (simp add: MaxAgingBonus_def aging_bonus_def) linarith
  have "in_i32 (p + aging_bonus createdAt now)"
    using assms by (simp add: in_i32_def aging_bonus_def) linarith
  then have "i32 (p + aging_bonus createdAt now) = p + aging_bonus createdAt now" by (rule i32_id)
  then show ?thesis
    using True by (simp only: EffectivePriority_def Let_def w bonus not_True_eq_False if_False)
qed

lemma aging_bonus_bounds: "0 \<le> aging_bonus createdAt now" "aging_bonus createdAt now \<le> 20"
  by (simp_all add: aging_bonus_def)

lemma aging_bonus_mono: "now \<le> now' \<Longrightarrow> aging_bonus createdAt now \<le> aging_bonus createdAt now'"
proof -
  assume "now \<le> now'"
  then have "(now - createdAt) div AgingInterval \<le> (now' - createdAt) div AgingInterval"
    by (intro zdiv_mono1) (simp_all add: AgingInterval_def Second_def)
  then show ?thesis by (simp add: aging_bonus_def)
qed

lemma aging_bonus_full: "createdAt + 20 * AgingInterval \<le> now \<Longrightarrow> aging_bonus createdAt now = 20"
proof -
  assume "createdAt + 20 * AgingInterval \<le> now"
  then have "20 * AgingInterval div AgingInterval \<le> (now - createdAt) div AgingInterval"
    by (intro zdiv_mono1) (simp_all add: AgingInterval_def Second_def)
  then show ?thesis by (simp add: aging_bonus_def AgingInterval_def Second_def)
qed

section \<open>Selecting a worker\<close>

lemma selectWorker_None:
  "selectWorker job ws c = None \<longleftrightarrow> (\<forall>v \<in> set ws. \<not> eligible (job_Resources job) (c (w_ID v)) v)"
proof -
  let ?xs = "map (candidate_of (job_Resources job) c)
    (filter (\<lambda>v. eligible (job_Resources job) (c (w_ID v)) v) ws)"
  have "selectWorker job ws c = None \<longleftrightarrow> sort_slice candidate_less ?xs = []"
    by (simp add: selectWorker_def split: list.split)
  also have "\<dots> \<longleftrightarrow> ?xs = []" by (simp only: length_sort_slice flip: length_0_conv)
  finally show ?thesis by (simp add: filter_empty_conv)
qed

lemma selectWorker_Some:
  assumes "selectWorker job ws c = Some k"
  obtains v where "v \<in> set ws" "w_ID v = k" "eligible (job_Resources job) (c k) v"
    "\<And>u. u \<in> set ws \<Longrightarrow> eligible (job_Resources job) (c (w_ID u)) u \<Longrightarrow>
       \<not> candidate_less (candidate_of (job_Resources job) c u) (candidate_of (job_Resources job) c v)"
proof -
  let ?xs = "map (candidate_of (job_Resources job) c)
    (filter (\<lambda>v. eligible (job_Resources job) (c (w_ID v)) v) ws)"
  obtain best rest where s: "sort_slice candidate_less ?xs = best # rest" and k: "cd_workerID best = k"
    using assms by (auto simp: selectWorker_def split: list.splits)
  have set: "set (best # rest) = set ?xs" unfolding s [symmetric] by (rule set_sort_slice)
  then have "best \<in> set ?xs" by auto
  then obtain v where v: "best = candidate_of (job_Resources job) c v" "v \<in> set ws"
    "eligible (job_Resources job) (c (w_ID v)) v" by auto
  have "ordered_by candidate_less (best # rest)" unfolding s [symmetric] by (rule candidate.ordered_sort)
  then have "\<forall>y \<in> set rest. \<not> candidate_less y best" by simp
  moreover have "\<not> candidate_less best best" using candidate.lt_asym by blast
  ultimately have min: "x \<in> set ?xs \<Longrightarrow> \<not> candidate_less x best" for x
    unfolding set [symmetric] set_simps by blast
  have id: "w_ID v = k" using k v(1) by (simp add: candidate_of_def)
  show ?thesis
  proof (rule that [OF v(2) id])
    show "eligible (job_Resources job) (c k) v" using v(3) id by simp
    fix u assume "u \<in> set ws" "eligible (job_Resources job) (c (w_ID u)) u"
    then have "candidate_of (job_Resources job) c u \<in> set ?xs" by simp
    from min [OF this] show
      "\<not> candidate_less (candidate_of (job_Resources job) c u) (candidate_of (job_Resources job) c v)"
      unfolding v(1) .
  qed
qed

section \<open>The loop of Plan\<close>

definition target :: "Assignment list \<Rightarrow> string \<rightharpoonup> string" where
  "target as = map_of (map (\<lambda>a. (a_JobID a, a_WorkerID a)) as)"

lemma target_simps [simp]:
  "target [] = Map.empty"
  "target (a # as) = (target as)(a_JobID a \<mapsto> a_WorkerID a)"
  by (simp_all add: target_def)

lemma plan_loop_ids: "set (map a_JobID (plan_loop ws js c)) \<subseteq> job_ID ` set js"
  by (induction js arbitrary: c) (auto split: option.splits)

lemma plan_loop_distinct: "distinct (map job_ID js) \<Longrightarrow> distinct (map a_JobID (plan_loop ws js c))"
proof (induction js arbitrary: c)
  case (Cons job js)
  have "job_ID job \<notin> set (map a_JobID (plan_loop ws js c'))" for c'
    using Cons.prems plan_loop_ids [of ws js c'] by auto
  with Cons show ?case by (auto split: option.splits)
qed simp

lemma target_ids: "target as k \<noteq> None \<longleftrightarrow> k \<in> set (map a_JobID as)"
  by (auto simp: target_def map_of_eq_None_iff image_iff)

lemma target_plan_outside:
  "k \<notin> job_ID ` set js \<Longrightarrow> target (plan_loop ws js c) k = None"
  using target_ids [of "plan_loop ws js c" k] plan_loop_ids [of ws js c] by blast

lemma plan_loop_active:
  "a \<in> set (plan_loop ws js c) \<Longrightarrow> \<exists>v \<in> set ws. w_ID v = a_WorkerID a \<and> w_Status v = StatusActive"
proof (induction js arbitrary: c)
  case (Cons job js)
  show ?case
  proof (cases "selectWorker job ws c")
    case (Some k)
    then obtain v where "v \<in> set ws" "w_ID v = k" "eligible (job_Resources job) (c k) v"
      by (rule selectWorker_Some)
    with Cons Some show ?thesis by (auto simp: eligible_def)
  qed (use Cons in simp)
qed simp

text \<open>The commitments at the end of the loop.\<close>

fun plan_commit :: "Worker list \<Rightarrow> Job list \<Rightarrow> committed \<Rightarrow> committed" where
  "plan_commit ws [] c = c"
| "plan_commit ws (job # js) c =
     (case selectWorker job ws c of
        None \<Rightarrow> plan_commit ws js c
      | Some k \<Rightarrow> plan_commit ws js (reserve k (job_Resources job) c))"

text \<open>The loop as a single step, for inductions over the queue.\<close>

lemma plan_loop_cases:
  assumes "distinct (map job_ID (job # js))" "distinct (map w_ID ws)"
  obtains (skipped) "target (plan_loop ws (job # js) c) (job_ID job) = None"
      "plan_loop ws (job # js) c = plan_loop ws js c" "selectWorker job ws c = None"
      "\<And>v. v \<in> set ws \<Longrightarrow> \<not> eligible (job_Resources job) (c (w_ID v)) v"
  | (placed) v where "v \<in> set ws" "eligible (job_Resources job) (c (w_ID v)) v"
      "target (plan_loop ws (job # js) c) (job_ID job) = Some (w_ID v)"
      "\<And>j. j \<in> set js \<Longrightarrow> target (plan_loop ws (job # js) c) (job_ID j) =
         target (plan_loop ws js (reserve (w_ID v) (job_Resources job) c)) (job_ID j)"
      "selectWorker job ws c = Some (w_ID v)"
proof (cases "selectWorker job ws c")
  case None
  then have "plan_loop ws (job # js) c = plan_loop ws js c" by simp
  moreover have "target (plan_loop ws js c) (job_ID job) = None"
    using assms(1) by (intro target_plan_outside) auto
  moreover have "\<And>v. v \<in> set ws \<Longrightarrow> \<not> eligible (job_Resources job) (c (w_ID v)) v"
    using None by (simp add: selectWorker_None)
  ultimately show ?thesis using None by (intro skipped) simp_all
next
  case (Some k)
  then obtain v where v: "v \<in> set ws" "w_ID v = k" "eligible (job_Resources job) (c k) v"
    by (rule selectWorker_Some)
  show ?thesis
  proof (rule placed [OF v(1)])
    fix j assume "j \<in> set js"
    then have "job_ID j \<noteq> job_ID job" by (rule distinct_map_Cons_neq [OF assms(1)])
    then show "target (plan_loop ws (job # js) c) (job_ID j) =
        target (plan_loop ws js (reserve (w_ID v) (job_Resources job) c)) (job_ID j)"
      using Some v(2) by simp
  qed (use v Some in simp_all)
qed

end
