(* ===== verification/Capacity.thy ===== *)
theory Capacity
  imports Placement
begin

text \<open>
  Capacity safety of \<^verbatim>\<open>Plan\<close>.  A resource is given by the amount a request asks for, the
  capacity of a worker and a relation \<open>tracks\<close> saying which exact amount a
  \<^verbatim>\<open>committedResources\<close> value stands for.  The two laws of \<open>capacity_measure\<close> are that
  the sums of the code are exact up to a bound and that an eligible worker has room.
\<close>

section \<open>Demand\<close>

text \<open>What the jobs of a snapshot hold on a worker.\<close>

definition job_demand :: "(ResourceRequest \<Rightarrow> int) \<Rightarrow> string \<Rightarrow> Job \<Rightarrow> int" where
  "job_demand amount k j =
     (if holds_capacity (job_State j)
      then int (count_list (elems (job_AssignedWorkerIDs j)) k) * amount (job_Resources j) else 0)"

definition demand :: "(ResourceRequest \<Rightarrow> int) \<Rightarrow> string \<Rightarrow> Job list \<Rightarrow> int" where
  "demand amount k js = sum_list (map (job_demand amount k) js)"

text \<open>The snapshot after the assignments of a pass have been applied.\<close>

definition apply_assignment :: "Assignment list \<Rightarrow> Job \<Rightarrow> Job" where
  "apply_assignment as j =
     (case target as (job_ID j) of
        None \<Rightarrow> j
      | Some k \<Rightarrow> j\<lparr>job_State := StateScheduled, job_AssignedWorkerIDs := Some [k]\<rparr>)"

definition placed_amount :: "(ResourceRequest \<Rightarrow> int) \<Rightarrow> string \<Rightarrow> Assignment list \<Rightarrow> Job \<Rightarrow> int" where
  "placed_amount amount k as j = (if target as (job_ID j) = Some k then amount (job_Resources j) else 0)"

locale capacity_measure =
  fixes tracks :: "committedResources \<Rightarrow> int \<Rightarrow> bool"
    and amount :: "ResourceRequest \<Rightarrow> int"
    and cap :: "Worker \<Rightarrow> int"
    and bound :: int
    and good_worker :: "Worker \<Rightarrow> bool"
    and good_request :: "ResourceRequest \<Rightarrow> bool"
  assumes amount_nonneg: "good_request q \<Longrightarrow> 0 \<le> amount q"
    and cap_bound: "good_worker v \<Longrightarrow> 0 \<le> cap v \<and> cap v \<le> bound"
    and tracks_zero: "tracks no_resources 0"
    and tracks_add:
      "good_request q \<Longrightarrow> tracks c n \<Longrightarrow> 0 \<le> n \<Longrightarrow> n + amount q \<le> bound \<Longrightarrow>
       tracks (add_resources c q) (n + amount q)"
    and eligible_room:
      "good_worker v \<Longrightarrow> good_request q \<Longrightarrow> tracks c n \<Longrightarrow> 0 \<le> n \<Longrightarrow> n \<le> cap v \<Longrightarrow>
       eligible q c v \<Longrightarrow> n + amount q \<le> cap v"
begin

lemma reserve_list_tracks:
  assumes "good_request q" "tracks (c k) n" "0 \<le> n"
    "n + int (count_list ks k) * amount q \<le> bound"
  shows "tracks (fold (\<lambda>i. reserve i q) ks c k) (n + int (count_list ks k) * amount q)"
  using assms
proof (induction ks arbitrary: c n)
  case (Cons i ks)
  have pos: "0 \<le> amount q" "0 \<le> int (count_list ks k) * amount q"
    using amount_nonneg [OF Cons.prems(1)] by simp_all
  show ?case
  proof (cases "i = k")
    case True
    have n: "n + amount q + int (count_list ks k) * amount q \<le> bound"
      using Cons.prems(4) True by (simp add: algebra_simps)
    have "tracks (reserve i q c k) (n + amount q)"
      using tracks_add [OF Cons.prems(1-3)] n pos True by (simp add: reserve_def)
    from Cons.IH [where c = "reserve i q c", OF Cons.prems(1) this _ n] Cons.prems(3) pos True show ?thesis
      by (simp add: algebra_simps)
  next
    case False
    then have "tracks (reserve i q c k) n" using Cons.prems(2) by (simp add: reserve_def)
    from Cons.IH [where c = "reserve i q c", OF Cons.prems(1) this Cons.prems(3)] Cons.prems(4) False show ?thesis by simp
  qed
qed simp

lemma demand_nonneg: "\<forall>j \<in> set js. good_request (job_Resources j) \<Longrightarrow> 0 \<le> demand amount k js"
  unfolding demand_def by (rule sum_list_nonneg) (auto simp: job_demand_def amount_nonneg)

lemma committed_loop_tracks:
  assumes "\<forall>j \<in> set js. good_request (job_Resources j)" "tracks (c k) n" "0 \<le> n"
    "n + demand amount k js \<le> bound"
  shows "tracks (committed_loop js c k) (n + demand amount k js)"
  using assms
proof (induction js arbitrary: c n)
  case (Cons j js)
  have d: "demand amount k (j # js) = job_demand amount k j + demand amount k js"
    by (simp add: demand_def)
  have pos: "0 \<le> demand amount k js" "0 \<le> job_demand amount k j"
    using demand_nonneg Cons.prems(1) by (auto simp: job_demand_def amount_nonneg)
  let ?c = "if holds_capacity (job_State j)
        then fold (\<lambda>i. reserve i (job_Resources j)) (elems (job_AssignedWorkerIDs j)) c else c"
  have "tracks (?c k) (n + job_demand amount k j)"
  proof (cases "holds_capacity (job_State j)")
    case True
    then show ?thesis
      using reserve_list_tracks [of "job_Resources j" c k n "elems (job_AssignedWorkerIDs j)"]
        Cons.prems d pos by (simp add: job_demand_def)
  qed (use Cons.prems in \<open>simp add: job_demand_def\<close>)
  from Cons.IH [where c = ?c, OF _ this] Cons.prems d pos show ?case by (simp add: add.assoc)
qed (simp add: demand_def)

lemma committed_tracks:
  assumes "\<forall>j \<in> set js. good_request (job_Resources j)" "demand amount k js \<le> bound"
  shows "tracks (committedByWorker js k) (demand amount k js)"
  using committed_loop_tracks [of js "\<lambda>_. no_resources" k 0] assms tracks_zero
  by (simp add: committedByWorker_def)

lemma plan_loop_load:
  assumes "distinct (map job_ID js)" "distinct (map w_ID ws)" "v \<in> set ws" "good_worker v"
    "\<forall>j \<in> set js. good_request (job_Resources j)" "tracks (c (w_ID v)) n" "0 \<le> n" "n \<le> cap v"
  shows "n + sum_list (map (placed_amount amount (w_ID v) (plan_loop ws js c)) js) \<le> cap v
    \<and> tracks (plan_commit ws js c (w_ID v))
        (n + sum_list (map (placed_amount amount (w_ID v) (plan_loop ws js c)) js))"
  using assms
proof (induction js arbitrary: c n)
  case (Cons job js)
  let ?as = "plan_loop ws (job # js) c"
  have good: "good_request (job_Resources job)" "\<forall>j \<in> set js. good_request (job_Resources j)"
    and dist: "distinct (map job_ID js)" using Cons.prems by simp_all
  note IH = Cons.IH [OF dist Cons.prems(2-4) good(2)]
  from Cons.prems(1,2) show ?case
  proof (cases rule: plan_loop_cases [where c = c])
    case skipped
    then have "sum_list (map (placed_amount amount (w_ID v) ?as) (job # js)) =
        sum_list (map (placed_amount amount (w_ID v) (plan_loop ws js c)) js)"
      by (simp add: placed_amount_def)
    with IH [where c = c, OF Cons.prems(6-8)] skipped(3) show ?thesis by simp
  next
    case (placed u)
    let ?c = "reserve (w_ID u) (job_Resources job) c"
    have "map (placed_amount amount (w_ID v) ?as) js =
        map (placed_amount amount (w_ID v) (plan_loop ws js ?c)) js"
      unfolding placed_amount_def using placed(4) by (intro map_cong refl) (simp only:)
    then have total: "sum_list (map (placed_amount amount (w_ID v) ?as) (job # js)) =
        (if w_ID u = w_ID v then amount (job_Resources job) else 0)
        + sum_list (map (placed_amount amount (w_ID v) (plan_loop ws js ?c)) js)"
      using placed(3) by (simp only: list.map sum_list.Cons placed_amount_def option.inject)
    show ?thesis
    proof (cases "w_ID u = w_ID v")
      case True
      then have u: "u = v" by (rule distinct_map_inj [OF Cons.prems(2) placed(1) Cons.prems(3)])
      have room: "n + amount (job_Resources job) \<le> cap v"
        using eligible_room [OF Cons.prems(4) good(1) Cons.prems(6-8)] placed(2) u by simp
      have "tracks (?c (w_ID v)) (n + amount (job_Resources job))"
        using tracks_add [OF good(1) Cons.prems(6,7)] room cap_bound [OF Cons.prems(4)] u
        by (simp add: reserve_def)
      from IH [where c = ?c, OF this _ room] amount_nonneg [OF good(1)] Cons.prems(7) True
      show ?thesis unfolding total using placed(5) by (simp add: add.assoc)
    next
      case False
      then have "tracks (?c (w_ID v)) n" using Cons.prems(6) by (simp add: reserve_def)
      from IH [where c = ?c, OF this Cons.prems(7,8)] False show ?thesis
        unfolding total using placed(5) by simp
    qed
  qed
qed simp

end

section \<open>Plan as a whole\<close>

lemma target_Plan_queued:
  assumes "distinct (map job_ID js)" "j \<in> set js" "target (Plan js ws now) (job_ID j) \<noteq> None"
  shows "job_State j = StateQueued"
proof -
  let ?q = "sortByEffectivePriority now (filter (\<lambda>j. job_State j = StateQueued) js)"
  have "job_ID j \<in> job_ID ` set ?q"
    using assms(3) target_plan_outside [of "job_ID j" ?q] by (metis Plan_def)
  then obtain i where "i \<in> set js" "job_State i = StateQueued" "job_ID i = job_ID j"
    by (auto simp: sortByEffectivePriority_def)
  with distinct_map_inj [OF assms(1), of i j] assms(2) show ?thesis by simp
qed

lemma job_demand_apply:
  assumes "target as (job_ID j) \<noteq> None \<Longrightarrow> job_State j = StateQueued"
  shows "job_demand amount k (apply_assignment as j) = job_demand amount k j + placed_amount amount k as j"
proof (cases "target as (job_ID j)")
  case None
  then show ?thesis by (simp add: apply_assignment_def placed_amount_def)
next
  case (Some i)
  with assms have "job_State j = StateQueued" by simp
  with Some show ?thesis
    by (simp add: apply_assignment_def placed_amount_def job_demand_def holds_capacity_def)
qed

lemma sum_placed_queue:
  assumes "distinct (map job_ID js)"
  shows "sum_list (map (placed_amount amount k (Plan js ws now)) js) =
    sum_list (map (placed_amount amount k (Plan js ws now))
      (sortByEffectivePriority now (filter (\<lambda>j. job_State j = StateQueued) js)))"
proof -
  let ?f = "placed_amount amount k (Plan js ws now)" and ?P = "\<lambda>j. job_State j = StateQueued"
  have "mset (map ?f (sortByEffectivePriority now (filter ?P js))) = mset (map ?f (filter ?P js))"
    by (simp add: sortByEffectivePriority_def)
  then have "sum_list (map ?f (sortByEffectivePriority now (filter ?P js))) = sum_list (map ?f (filter ?P js))"
    by (metis sum_mset_sum_list)
  also have "\<dots> = sum_list (map ?f js)"
  proof (rule sum_list_map_filter)
    fix j assume "j \<in> set js" "\<not> ?P j"
    then have "target (Plan js ws now) (job_ID j) = None" using target_Plan_queued [OF assms] by blast
    then show "?f j = 0" by (simp add: placed_amount_def)
  qed
  finally show ?thesis by simp
qed

context capacity_measure
begin

lemma demand_after:
  assumes "distinct (map job_ID js)"
  shows "demand amount k (map (apply_assignment (Plan js ws now)) js) = demand amount k js +
    sum_list (map (placed_amount amount k (Plan js ws now))
      (sortByEffectivePriority now (filter (\<lambda>j. job_State j = StateQueued) js)))"
proof -
  let ?as = "Plan js ws now"
  have "demand amount k (map (apply_assignment ?as) js) =
      sum_list (map (\<lambda>j. job_demand amount k j + placed_amount amount k ?as j) js)"
    unfolding demand_def map_map o_def
    by (intro arg_cong [where f = sum_list] map_cong refl job_demand_apply)
      (rule target_Plan_queued [OF assms])
  then show ?thesis
    by (simp add: sum_list_addf demand_def sum_placed_queue [OF assms, symmetric])
qed

lemma Plan_load:
  assumes "distinct (map job_ID js)" "distinct (map w_ID ws)" "v \<in> set ws" "good_worker v"
    "\<forall>j \<in> set js. good_request (job_Resources j)" "demand amount (w_ID v) js \<le> cap v"
  shows "demand amount (w_ID v) (map (apply_assignment (Plan js ws now)) js) \<le> cap v
    \<and> tracks (plan_commit ws (sortByEffectivePriority now (filter (\<lambda>j. job_State j = StateQueued) js))
        (committedByWorker js) (w_ID v))
        (demand amount (w_ID v) (map (apply_assignment (Plan js ws now)) js))"
  unfolding demand_after [OF assms(1)]
  unfolding Plan_def
proof (rule plan_loop_load [OF _ assms(2-4)])
  let ?q = "sortByEffectivePriority now (filter (\<lambda>j. job_State j = StateQueued) js)"
  show "tracks (committedByWorker js (w_ID v)) (demand amount (w_ID v) js)"
    using assms(5,6) cap_bound [OF assms(4)] by (intro committed_tracks) linarith+
  show "distinct (map job_ID ?q)"
    using assms(1) by (simp add: sortByEffectivePriority_def distinct_map_filter)
qed (use assms demand_nonneg in \<open>auto simp: sortByEffectivePriority_def\<close>)

lemmas Plan_within_capacity = Plan_load [THEN conjunct1]

lemma committed_after_tracks:
  assumes "distinct (map job_ID js)" "distinct (map w_ID ws)" "v \<in> set ws" "good_worker v"
    "\<forall>j \<in> set js. good_request (job_Resources j)" "demand amount (w_ID v) js \<le> cap v"
  shows "\<exists>n. tracks (committedByWorker (map (apply_assignment (Plan js ws now)) js) (w_ID v)) n
    \<and> tracks (plan_commit ws (sortByEffectivePriority now (filter (\<lambda>j. job_State j = StateQueued) js))
        (committedByWorker js) (w_ID v)) n"
proof -
  note load = Plan_load [OF assms, where now = now]
  have "tracks (committedByWorker (map (apply_assignment (Plan js ws now)) js) (w_ID v))
      (demand amount (w_ID v) (map (apply_assignment (Plan js ws now)) js))"
  proof (rule committed_tracks)
    show "\<forall>j \<in> set (map (apply_assignment (Plan js ws now)) js). good_request (job_Resources j)"
      using assms(5) by (auto simp: apply_assignment_def split: option.splits)
    show "demand amount (w_ID v) (map (apply_assignment (Plan js ws now)) js) \<le> bound"
      using load cap_bound [OF assms(4)] by linarith
  qed
  with load show ?thesis by blast
qed

end

end
