(* ===== verification/Plan_Safety.thy ===== *)
theory Plan_Safety
  imports Capacity
begin

text \<open>
  The three resources as instances of \<open>capacity_measure\<close>, and what follows for \<^verbatim>\<open>Plan\<close>: no
  worker is overcommitted, no job is passed over for a lower one that asks for as much, and
  nothing placeable is left over.  CPU amounts are multiples of \<open>1/1024\<close> core
  (\<open>fx\<close>), on which the \<^verbatim>\<open>float64\<close> sums of the code are exact.
\<close>

section \<open>Sound snapshots\<close>

fun units :: "float64 \<Rightarrow> int" where
  "units (Fin n) = n div 2 ^ 1064"
| "units x = 0"

abbreviation cpu_units :: "ResourceRequest \<Rightarrow> int" where
  "cpu_units q \<equiv> units (CPUCores q)"

definition exact_cpu :: "float64 \<Rightarrow> bool" where
  "exact_cpu x \<longleftrightarrow> x = fx (units x) \<and> 0 \<le> units x \<and> units x < 2 ^ 52"

definition mem_worker :: "Worker \<Rightarrow> bool" where
  "mem_worker v \<longleftrightarrow> 0 \<le> w_MemoryCapacityBytes v \<and> w_MemoryCapacityBytes v < 2 ^ 63"

definition gpu_worker :: "Worker \<Rightarrow> bool" where
  "gpu_worker v \<longleftrightarrow> int (length (elems (w_GPUs v))) < 2 ^ 62"

definition cpu_worker :: "Worker \<Rightarrow> bool" where
  "cpu_worker v \<longleftrightarrow> exact_cpu (w_CPUCapacity v)"

definition mem_request :: "ResourceRequest \<Rightarrow> bool" where
  "mem_request q \<longleftrightarrow> 0 \<le> MemoryBytes q \<and> MemoryBytes q < 2 ^ 63"

definition gpu_request :: "ResourceRequest \<Rightarrow> bool" where
  "gpu_request q \<longleftrightarrow> 0 \<le> GPUCount q \<and> GPUCount q < 2 ^ 32"

definition cpu_request :: "ResourceRequest \<Rightarrow> bool" where
  "cpu_request q \<longleftrightarrow> exact_cpu (CPUCores q)"

text \<open>What validation and the Go types guarantee of memory and GPUs, and exact CPU amounts.\<close>

definition sound_worker :: "Worker \<Rightarrow> bool" where
  "sound_worker v \<longleftrightarrow> mem_worker v \<and> gpu_worker v \<and> cpu_worker v"

definition sound_request :: "ResourceRequest \<Rightarrow> bool" where
  "sound_request q \<longleftrightarrow> mem_request q \<and> gpu_request q \<and> cpu_request q"

lemmas sound_defs =
  sound_worker_def mem_worker_def gpu_worker_def cpu_worker_def
  sound_request_def mem_request_def gpu_request_def cpu_request_def

definition sound_snapshot :: "Job list \<Rightarrow> Worker list \<Rightarrow> bool" where
  "sound_snapshot js ws \<longleftrightarrow> distinct (map job_ID js) \<and> distinct (map w_ID ws)
     \<and> (\<forall>v \<in> set ws. sound_worker v) \<and> (\<forall>j \<in> set js. sound_request (job_Resources j))"

definition no_overcommit :: "Job list \<Rightarrow> Worker list \<Rightarrow> bool" where
  "no_overcommit js ws \<longleftrightarrow> (\<forall>v \<in> set ws.
     demand MemoryBytes (w_ID v) js \<le> w_MemoryCapacityBytes v
     \<and> demand GPUCount (w_ID v) js \<le> int (length (elems (w_GPUs v)))
     \<and> demand cpu_units (w_ID v) js \<le> units (w_CPUCapacity v))"

lemma units_fx [simp]: "units (fx m) = m"
  by (simp add: fx_def)

lemma exact_cpu_fx: "exact_cpu (fx m) \<longleftrightarrow> 0 \<le> m \<and> m < 2 ^ 52"
  by (simp add: exact_cpu_def)

lemma no_resources_fields [simp]:
  "c_memoryBytes no_resources = 0" "c_gpuCount no_resources = 0" "c_cpuCores no_resources = fx 0"
  by (simp_all add: no_resources_def fx_0)

lemma add_resources_fields [simp]:
  "c_gpuCount (add_resources c q) = i64 (c_gpuCount c + GPUCount q)"
  "c_cpuCores (add_resources c q) = f_add (c_cpuCores c) (CPUCores q)"
  "c_memoryBytes (add_resources c q) = i64 (c_memoryBytes c + MemoryBytes q)"
  by (simp_all add: add_resources_def)

section \<open>The three measures\<close>

interpretation memory: capacity_measure "\<lambda>c n. c_memoryBytes c = n" MemoryBytes w_MemoryCapacityBytes
    "2 ^ 63 - 1" mem_worker mem_request
proof (unfold_locales, goal_cases)
  case (4 q c n)
  then have "in_i64 (n + MemoryBytes q)" by (simp add: in_i64_def sound_defs)
  with 4 show ?case by (simp add: i64_id)
next
  case (5 v q c n)
  then have "in_i64 (w_MemoryCapacityBytes v - n)" by (simp add: in_i64_def sound_defs)
  with 5 show ?case by (simp add: eligible_def free_memory_def i64_id)
qed (simp_all add: sound_defs)

lemma qualifying_bounds: "0 \<le> qualifying v m" "qualifying v m \<le> int (length (elems (w_GPUs v)))"
  by (simp_all add: qualifying_def)

lemma freeGPUCount_exact:
  "gpu_worker v \<Longrightarrow> 0 \<le> n \<Longrightarrow> n < 2 ^ 63 \<Longrightarrow> freeGPUCount v m n = max 0 (qualifying v m - n)"
proof -
  assume "gpu_worker v" "0 \<le> n" "n < 2 ^ 63"
  then have "in_i64 (qualifying v m - n)"
    using qualifying_bounds [of v m] by (simp add: in_i64_def sound_defs)
  then show ?thesis by (simp add: freeGPUCount_def Let_def i64_id)
qed

interpretation gpus: capacity_measure "\<lambda>c n. c_gpuCount c = n" GPUCount "\<lambda>v. int (length (elems (w_GPUs v)))"
    "2 ^ 62" gpu_worker gpu_request
proof (unfold_locales, goal_cases)
  case (4 q c n)
  then have "in_i64 (n + GPUCount q)" by (simp add: in_i64_def sound_defs)
  with 4 show ?case by (simp add: i64_id)
next
  case (5 v q c n)
  then have "free_gpus v q c = max 0 (qualifying v (MinGPUMemoryBytes q) - n)"
    by (simp add: free_gpus_def freeGPUCount_exact sound_defs)
  with 5 qualifying_bounds [of v "MinGPUMemoryBytes q"] show ?case
    by (simp add: eligible_def) linarith
qed (simp_all add: sound_defs)

interpretation cpu: capacity_measure "\<lambda>c n. c_cpuCores c = fx n" cpu_units "\<lambda>v. units (w_CPUCapacity v)"
    "2 ^ 52" cpu_worker cpu_request
proof (unfold_locales, goal_cases)
  case (4 q c n)
  then obtain m where m: "CPUCores q = fx m" "0 \<le> m" by (auto simp: sound_defs exact_cpu_def)
  with 4 have "\<bar>n + m\<bar> < 2 ^ 53" by simp
  from fx_add [OF this] 4 m show ?case by simp
next
  case (5 v q c n)
  then obtain m u where m: "CPUCores q = fx m" "0 \<le> m" and u: "w_CPUCapacity v = fx u" "u < 2 ^ 52"
    by (auto simp: sound_defs exact_cpu_def)
  with 5 have "\<bar>u - n\<bar> < 2 ^ 53" by simp
  from fx_sub [OF this] 5 m u show ?case by (simp add: eligible_def free_cpu_def)
qed (simp_all add: sound_defs exact_cpu_def)

lemma sound_snapshotD:
  assumes "sound_snapshot js ws" "v \<in> set ws"
  shows "distinct (map job_ID js)" "distinct (map w_ID ws)" "mem_worker v" "gpu_worker v" "cpu_worker v"
    "\<forall>j \<in> set js. mem_request (job_Resources j)" "\<forall>j \<in> set js. gpu_request (job_Resources j)"
    "\<forall>j \<in> set js. cpu_request (job_Resources j)"
  using assms by (auto simp: sound_snapshot_def sound_worker_def sound_request_def)

lemma Plan_no_overcommit:
  assumes "sound_snapshot js ws" "no_overcommit js ws"
  shows "no_overcommit (map (apply_assignment (Plan js ws now)) js) ws"
  unfolding no_overcommit_def
proof
  fix v assume v: "v \<in> set ws"
  note s = sound_snapshotD [OF assms(1) v]
  from assms(2) v have d: "demand MemoryBytes (w_ID v) js \<le> w_MemoryCapacityBytes v"
    "demand GPUCount (w_ID v) js \<le> int (length (elems (w_GPUs v)))"
    "demand cpu_units (w_ID v) js \<le> units (w_CPUCapacity v)" by (auto simp: no_overcommit_def)
  let ?js = "map (apply_assignment (Plan js ws now)) js"
  have "demand MemoryBytes (w_ID v) ?js \<le> w_MemoryCapacityBytes v"
    by (rule memory.Plan_within_capacity [OF s(1,2) v s(3,6) d(1)])
  moreover have "demand GPUCount (w_ID v) ?js \<le> int (length (elems (w_GPUs v)))"
    by (rule gpus.Plan_within_capacity [OF s(1,2) v s(4,7) d(2)])
  moreover have "demand cpu_units (w_ID v) ?js \<le> units (w_CPUCapacity v)"
    by (rule cpu.Plan_within_capacity [OF s(1,2) v s(5,8) d(3)])
  ultimately show "demand MemoryBytes (w_ID v) ?js \<le> w_MemoryCapacityBytes v
     \<and> demand GPUCount (w_ID v) ?js \<le> int (length (elems (w_GPUs v)))
     \<and> demand cpu_units (w_ID v) ?js \<le> units (w_CPUCapacity v)" by blast
qed

end
