(* ===== verification/Plan_Fairness.thy ===== *)
theory Plan_Fairness
  imports Plan_Safety
begin

text \<open>
  Commitments only grow during a pass, and a worker that is eligible under more commitments is
  eligible under fewer.  From this: a skipped job would not fit at the end of the pass either,
  and a job is not passed over for a later one that asks for at least as much.
\<close>

section \<open>Monotonicity\<close>

definition res_ok :: "committedResources \<Rightarrow> bool" where
  "res_ok c \<longleftrightarrow> 0 \<le> c_gpuCount c \<and> c_gpuCount c < 2 ^ 62
     \<and> 0 \<le> c_memoryBytes c \<and> c_memoryBytes c < 2 ^ 63 \<and> exact_cpu (c_cpuCores c)"

definition res_le :: "committedResources \<Rightarrow> committedResources \<Rightarrow> bool" where
  "res_le c c' \<longleftrightarrow> c_gpuCount c \<le> c_gpuCount c' \<and> c_memoryBytes c \<le> c_memoryBytes c'
     \<and> units (c_cpuCores c) \<le> units (c_cpuCores c')"

text \<open>\<open>asks_no_more q q'\<close>: every worker that can take \<open>q'\<close> can take \<open>q\<close>.\<close>

definition asks_no_more :: "ResourceRequest \<Rightarrow> ResourceRequest \<Rightarrow> bool" where
  "asks_no_more q q' \<longleftrightarrow> GPUCount q \<le> GPUCount q' \<and> MinGPUMemoryBytes q \<le> MinGPUMemoryBytes q'
     \<and> cpu_units q \<le> cpu_units q' \<and> MemoryBytes q \<le> MemoryBytes q'"

lemma res_le_refl [simp]: "res_le c c"
  by (simp add: res_le_def)

lemma res_le_trans: "res_le a b \<Longrightarrow> res_le b c \<Longrightarrow> res_le a c"
  by (auto simp: res_le_def)

lemma asks_no_more_refl [simp]: "asks_no_more q q"
  by (simp add: asks_no_more_def)

text \<open>Eligibility in exact arithmetic.\<close>

lemma eligible_exact:
  assumes "sound_worker v" "sound_request q" "res_ok c"
  shows "eligible q c v \<longleftrightarrow> w_Status v = StatusActive
    \<and> units (c_cpuCores c) + cpu_units q \<le> units (w_CPUCapacity v)
    \<and> c_memoryBytes c + MemoryBytes q \<le> w_MemoryCapacityBytes v
    \<and> GPUCount q \<le> max 0 (qualifying v (MinGPUMemoryBytes q) - c_gpuCount c)"
proof -
  have "free_memory v c = w_MemoryCapacityBytes v - c_memoryBytes c"
    using assms by (simp add: free_memory_def i64_id in_i64_def sound_defs res_ok_def)
  moreover have "free_gpus v q c = max 0 (qualifying v (MinGPUMemoryBytes q) - c_gpuCount c)"
    using assms by (simp add: free_gpus_def freeGPUCount_exact res_ok_def sound_worker_def)
  moreover obtain m u n where f: "CPUCores q = fx m" "w_CPUCapacity v = fx u" "c_cpuCores c = fx n"
    "0 \<le> u" "u < 2 ^ 52" "0 \<le> n" "n < 2 ^ 52"
    using assms by (auto simp: sound_defs res_ok_def exact_cpu_def)
  moreover from f have "f_sub (fx u) (fx n) = fx (u - n)" by (intro fx_sub) simp
  ultimately show ?thesis by (auto simp: eligible_def free_cpu_def)
qed

lemma qualifying_antimono: "m \<le> m' \<Longrightarrow> qualifying v m' \<le> qualifying v m"
proof -
  assume "m \<le> m'"
  then have "length (filter (\<lambda>g. gpu_TotalMemoryBytes g \<ge> m') gs)
      \<le> length (filter (\<lambda>g. gpu_TotalMemoryBytes g \<ge> m) gs)" for gs
    by (induction gs) auto
  then show ?thesis by (simp add: qualifying_def)
qed

lemma eligible_antimono:
  assumes "sound_worker v" "sound_request q" "sound_request q'" "res_ok c" "res_ok c'"
    "res_le c c'" "asks_no_more q q'" "eligible q' c' v"
  shows "eligible q c v"
proof -
  have "qualifying v (MinGPUMemoryBytes q') \<le> qualifying v (MinGPUMemoryBytes q)"
    using assms(7) by (intro qualifying_antimono) (simp add: asks_no_more_def)
  with assms show ?thesis
    by (simp add: eligible_exact res_le_def asks_no_more_def) linarith
qed

lemma reserve_step:
  assumes "sound_worker v" "sound_request q" "res_ok c" "eligible q c v"
  shows "res_ok (add_resources c q)" "res_le c (add_resources c q)"
proof -
  obtain m n where f: "CPUCores q = fx m" "c_cpuCores c = fx n" "0 \<le> m" "0 \<le> n"
    using assms by (auto simp: sound_defs res_ok_def exact_cpu_def)
  have e: "n + m \<le> units (w_CPUCapacity v)" "c_memoryBytes c + MemoryBytes q \<le> w_MemoryCapacityBytes v"
    "GPUCount q \<le> max 0 (qualifying v (MinGPUMemoryBytes q) - c_gpuCount c)"
    using assms(4) eligible_exact [OF assms(1-3)] f by auto
  have cpu: "n + m < 2 ^ 52" using e(1) assms(1) by (simp add: sound_defs exact_cpu_def)
  then have "f_add (fx n) (fx m) = fx (n + m)" using f by (intro fx_add) simp
  moreover have mem: "0 \<le> MemoryBytes q" "0 \<le> c_memoryBytes c"
    "c_memoryBytes c + MemoryBytes q < 2 ^ 63"
    using assms e(2) by (auto simp: sound_defs res_ok_def)
  moreover have gpu: "0 \<le> GPUCount q" "0 \<le> c_gpuCount c" "c_gpuCount c + GPUCount q < 2 ^ 62"
    using assms e(3) qualifying_bounds [of v "MinGPUMemoryBytes q"]
    by (auto simp: sound_defs res_ok_def)
  ultimately show "res_ok (add_resources c q)" "res_le c (add_resources c q)"
    using f cpu by (simp_all add: res_ok_def res_le_def i64_id in_i64_def exact_cpu_fx)
qed

section \<open>The commitments at the end of a pass\<close>

definition all_ok :: "Worker list \<Rightarrow> committed \<Rightarrow> bool" where
  "all_ok ws c \<longleftrightarrow> (\<forall>v \<in> set ws. res_ok (c (w_ID v)))"

definition all_le :: "Worker list \<Rightarrow> committed \<Rightarrow> committed \<Rightarrow> bool" where
  "all_le ws c c' \<longleftrightarrow> (\<forall>v \<in> set ws. res_le (c (w_ID v)) (c' (w_ID v)))"

lemma all_le_refl [simp]: "all_le ws c c"
  by (simp add: all_le_def)

lemma all_le_trans: "all_le ws a b \<Longrightarrow> all_le ws b c \<Longrightarrow> all_le ws a c"
  unfolding all_le_def by (blast intro: res_le_trans)

lemma reserve_all:
  assumes "\<forall>v \<in> set ws. sound_worker v" "sound_request (job_Resources job)" "all_ok ws c"
    "selectWorker job ws c = Some k"
  shows "all_ok ws (reserve k (job_Resources job) c)" "all_le ws c (reserve k (job_Resources job) c)"
proof -
  from assms(4) obtain v where v: "v \<in> set ws" "w_ID v = k" "eligible (job_Resources job) (c k) v"
    by (rule selectWorker_Some)
  with assms(1,3) have "sound_worker v" "res_ok (c k)" by (auto simp: all_ok_def)
  from reserve_step [OF this(1) assms(2) this(2) v(3)] assms(3)
  show "all_ok ws (reserve k (job_Resources job) c)" "all_le ws c (reserve k (job_Resources job) c)"
    by (auto simp: all_ok_def all_le_def reserve_def)
qed

lemma plan_commit_grows:
  assumes "\<forall>v \<in> set ws. sound_worker v" "\<forall>j \<in> set js. sound_request (job_Resources j)" "all_ok ws c"
  shows "all_ok ws (plan_commit ws js c) \<and> all_le ws c (plan_commit ws js c)"
  using assms(2,3)
proof (induction js arbitrary: c)
  case (Cons job js)
  show ?case
  proof (cases "selectWorker job ws c")
    case None
    with Cons show ?thesis by simp
  next
    case (Some k)
    from Cons.prems have "sound_request (job_Resources job)" by simp
    note step = reserve_all [OF assms(1) this Cons.prems(2) Some]
    from Cons.IH [OF _ step(1)] Cons.prems(1) step(2) Some show ?thesis by (auto intro: all_le_trans)
  qed
qed simp

text \<open>A job that fits nowhere now fits nowhere later in the pass.\<close>

lemma blocked_later:
  assumes "\<forall>v \<in> set ws. sound_worker v" "sound_request q" "sound_request q'" "asks_no_more q q'"
    "all_ok ws c" "all_ok ws c'" "all_le ws c c'"
    "\<forall>v \<in> set ws. \<not> eligible q (c (w_ID v)) v" "v \<in> set ws"
  shows "\<not> eligible q' (c' (w_ID v)) v"
proof
  assume e: "eligible q' (c' (w_ID v)) v"
  have "sound_worker v" "res_ok (c (w_ID v))" "res_ok (c' (w_ID v))" "res_le (c (w_ID v)) (c' (w_ID v))"
    using assms by (auto simp: all_ok_def all_le_def)
  from eligible_antimono [OF this(1) assms(2,3) this(2-4) assms(4) e] assms(8,9) show False by blast
qed

lemma blocked_unplaced:
  assumes "\<forall>v \<in> set ws. sound_worker v" "sound_request q" "all_ok ws c0"
    "\<forall>v \<in> set ws. \<not> eligible q (c0 (w_ID v)) v" "distinct (map w_ID ws)"
    "distinct (map job_ID js)" "\<forall>j \<in> set js. sound_request (job_Resources j)"
    "all_ok ws c" "all_le ws c0 c" "j \<in> set js" "asks_no_more q (job_Resources j)"
  shows "target (plan_loop ws js c) (job_ID j) = None"
  using assms(6-10)
proof (induction js arbitrary: c)
  case (Cons job js)
  from Cons.prems(1) assms(5) show ?case
  proof (cases rule: plan_loop_cases [where c = c])
    case skipped
    then show ?thesis using Cons by (cases "j = job") auto
  next
    case (placed v)
    have sq: "sound_request (job_Resources job)" using Cons.prems(2) by simp
    have "j \<noteq> job"
    proof
      assume "j = job"
      then have "asks_no_more q (job_Resources job)" using assms(11) by simp
      from blocked_later [OF assms(1,2) sq this assms(3) Cons.prems(3,4) assms(4) placed(1)] placed(2)
      show False by blast
    qed
    with Cons.prems(5) have j: "j \<in> set js" by simp
    note step = reserve_all [OF assms(1) sq Cons.prems(3) placed(5)]
    have "target (plan_loop ws js (reserve (w_ID v) (job_Resources job) c)) (job_ID j) = None"
      by (rule Cons.IH [OF _ _ step(1) all_le_trans [OF Cons.prems(4) step(2)] j])
        (use Cons.prems in simp_all)
    with placed(4) [OF j] show ?thesis by simp
  qed
qed simp

text \<open>A job ranked before another one that asks for at least as much is placed if that one is.\<close>

lemma plan_loop_no_inversion:
  assumes "\<forall>v \<in> set ws. sound_worker v" "distinct (map w_ID ws)"
    "distinct (map job_ID (xs @ j # ys))" "\<forall>i \<in> set (xs @ j # ys). sound_request (job_Resources i)"
    "all_ok ws c" "j' \<in> set ys" "asks_no_more (job_Resources j) (job_Resources j')"
    "target (plan_loop ws (xs @ j # ys) c) (job_ID j') \<noteq> None"
  shows "target (plan_loop ws (xs @ j # ys) c) (job_ID j) \<noteq> None"
  using assms(3-5,8)
proof (induction xs arbitrary: c)
  case Nil
  then have dist: "distinct (map job_ID (j # ys))" by simp
  show ?case
  proof (cases rule: plan_loop_cases [OF dist assms(2), where c = c, case_names skipped placed])
    case skipped
    have "target (plan_loop ws ys c) (job_ID j') = None"
      by (rule blocked_unplaced [OF assms(1) _ Nil(3) _ assms(2) _ _ Nil(3) all_le_refl assms(6,7)])
        (use Nil skipped(4) in auto)
    with Nil(4) skipped(2) show ?thesis by simp
  qed simp
next
  case (Cons job xs)
  have dist: "distinct (map job_ID (job # xs @ j # ys))" using Cons.prems(1) by simp
  show ?case
  proof (cases rule: plan_loop_cases [OF dist assms(2), where c = c, case_names skipped placed])
    case skipped
    then show ?thesis using Cons.IH [of c] Cons.prems by simp
  next
    case (placed v)
    let ?c = "reserve (w_ID v) (job_Resources job) c"
    have "sound_request (job_Resources job)" using Cons.prems(2) by simp
    note step = reserve_all [OF assms(1) this Cons.prems(3) placed(5)]
    have mem: "j \<in> set (xs @ j # ys)" "j' \<in> set (xs @ j # ys)" using assms(6) by simp_all
    have "target (plan_loop ws (xs @ j # ys) ?c) (job_ID j) \<noteq> None"
      by (rule Cons.IH [OF _ _ step(1)])
        (use Cons.prems placed(4) [OF mem(2)] in \<open>simp_all del: plan_loop.simps\<close>)
    with placed(4) [OF mem(1)] show ?thesis by simp
  qed
qed

text \<open>What was skipped does not fit under the final commitments.\<close>

lemma unplaced_blocked:
  assumes "\<forall>v \<in> set ws. sound_worker v" "distinct (map w_ID ws)" "distinct (map job_ID js)"
    "\<forall>i \<in> set js. sound_request (job_Resources i)" "all_ok ws c" "j \<in> set js"
    "target (plan_loop ws js c) (job_ID j) = None" "v \<in> set ws"
  shows "\<not> eligible (job_Resources j) (plan_commit ws js c (w_ID v)) v"
  using assms(3-7)
proof (induction js arbitrary: c)
  case (Cons job js)
  have sq: "sound_request (job_Resources job)" using Cons.prems(2) by simp
  from Cons.prems(1) assms(2) show ?case
  proof (cases rule: plan_loop_cases [where c = c])
    case skipped
    show ?thesis
    proof (cases "j = job")
      case True
      have grow: "all_ok ws (plan_commit ws js c)" "all_le ws c (plan_commit ws js c)"
        using plan_commit_grows [OF assms(1) _ Cons.prems(3)] Cons.prems(2) by auto
      have "\<forall>v \<in> set ws. \<not> eligible (job_Resources job) (c (w_ID v)) v" using skipped(4) by blast
      from blocked_later [OF assms(1) sq sq asks_no_more_refl Cons.prems(3) grow this assms(8)]
      show ?thesis using True skipped(3) by simp
    next
      case False
      then show ?thesis using Cons.IH [of c] Cons.prems skipped by simp
    qed
  next
    case (placed u)
    then have "j \<noteq> job" using Cons.prems(5) by auto
    then have j: "j \<in> set js" using Cons.prems(4) by simp
    note step = reserve_all [OF assms(1) sq Cons.prems(3) placed(5)]
    have "\<not> eligible (job_Resources j)
        (plan_commit ws js (reserve (w_ID u) (job_Resources job) c) (w_ID v)) v"
      by (rule Cons.IH [OF _ _ step(1) j]) (use Cons.prems placed(4) [OF j] in \<open>simp_all del: plan_loop.simps\<close>)
    with placed(5) show ?thesis by simp
  qed
qed simp

section \<open>Plan as a whole\<close>

lemma initial_ok:
  assumes "sound_snapshot js ws" "no_overcommit js ws"
  shows "all_ok ws (committedByWorker js)"
  unfolding all_ok_def
proof
  fix v assume v: "v \<in> set ws"
  let ?c = "committedByWorker js (w_ID v)"
  note s = sound_snapshotD [OF assms(1) v]
  from assms(2) v have d: "demand MemoryBytes (w_ID v) js \<le> w_MemoryCapacityBytes v"
    "demand GPUCount (w_ID v) js \<le> int (length (elems (w_GPUs v)))"
    "demand cpu_units (w_ID v) js \<le> units (w_CPUCapacity v)" by (auto simp: no_overcommit_def)
  have m: "c_memoryBytes ?c = demand MemoryBytes (w_ID v) js"
    by (rule memory.committed_tracks [OF s(6)]) (use d(1) s in \<open>simp add: sound_defs\<close>)
  have g: "c_gpuCount ?c = demand GPUCount (w_ID v) js"
    by (rule gpus.committed_tracks [OF s(7)]) (use d(2) s in \<open>simp add: sound_defs\<close>)
  have u: "c_cpuCores ?c = fx (demand cpu_units (w_ID v) js)"
    by (rule cpu.committed_tracks [OF s(8)]) (use d(3) s in \<open>simp add: sound_defs exact_cpu_def\<close>)
  show "res_ok ?c"
    unfolding res_ok_def m g u exact_cpu_fx
    using d s memory.demand_nonneg [OF s(6)] gpus.demand_nonneg [OF s(7)] cpu.demand_nonneg [OF s(8)]
    by (auto simp: sound_defs exact_cpu_def)
qed

text \<open>The code's own view of the snapshot after the pass is the commitment it ended with.\<close>

lemma committed_after:
  assumes "sound_snapshot js ws" "no_overcommit js ws" "v \<in> set ws"
  shows "committedByWorker (map (apply_assignment (Plan js ws now)) js) (w_ID v) =
    plan_commit ws (sortByEffectivePriority now (filter (\<lambda>j. job_State j = StateQueued) js))
      (committedByWorker js) (w_ID v)" (is "?l = ?r")
proof -
  note s = sound_snapshotD [OF assms(1,3)]
  from assms(2,3) have d: "demand MemoryBytes (w_ID v) js \<le> w_MemoryCapacityBytes v"
    "demand GPUCount (w_ID v) js \<le> int (length (elems (w_GPUs v)))"
    "demand cpu_units (w_ID v) js \<le> units (w_CPUCapacity v)" by (auto simp: no_overcommit_def)
  have "c_memoryBytes ?l = c_memoryBytes ?r"
    using memory.committed_after_tracks [OF s(1,2) assms(3) s(3,6) d(1), where now = now] by simp
  moreover have "c_gpuCount ?l = c_gpuCount ?r"
    using gpus.committed_after_tracks [OF s(1,2) assms(3) s(4,7) d(2), where now = now] by simp
  moreover have "c_cpuCores ?l = c_cpuCores ?r"
    using cpu.committed_after_tracks [OF s(1,2) assms(3) s(5,8) d(3), where now = now] by auto
  ultimately show ?thesis by simp
qed

lemma plan_loop_blocked:
  "\<forall>j \<in> set js. \<forall>v \<in> set ws. \<not> eligible (job_Resources j) (c (w_ID v)) v \<Longrightarrow> plan_loop ws js c = []"
proof (induction js)
  case (Cons job js)
  then have "selectWorker job ws c = None" by (simp add: selectWorker_None)
  with Cons show ?case by simp
qed simp

lemma apply_assignment_resources [simp]: "job_Resources (apply_assignment as j) = job_Resources j"
  by (simp add: apply_assignment_def split: option.split)

lemma apply_assignment_queued:
  "job_State (apply_assignment as j) = StateQueued \<longleftrightarrow> target as (job_ID j) = None \<and> job_State j = StateQueued"
  by (simp add: apply_assignment_def split: option.split)

lemma Plan_work_conserving:
  assumes "sound_snapshot js ws" "no_overcommit js ws"
  shows "Plan (map (apply_assignment (Plan js ws now)) js) ws now' = []"
proof -
  let ?as = "Plan js ws now" and ?P = "\<lambda>j. job_State j = StateQueued"
  let ?q = "sortByEffectivePriority now (filter ?P js)"
  let ?c = "committedByWorker (map (apply_assignment ?as) js)"
  from assms(1) have s: "\<forall>v \<in> set ws. sound_worker v" "distinct (map w_ID ws)"
    "distinct (map job_ID ?q)" "\<forall>j \<in> set ?q. sound_request (job_Resources j)"
    by (auto simp: sound_snapshot_def sortByEffectivePriority_def distinct_map_filter)
  have "\<not> eligible (job_Resources i) (?c (w_ID v)) v"
    if i: "i \<in> set (map (apply_assignment ?as) js)" "?P i" and v: "v \<in> set ws" for i v
  proof -
    obtain j where j: "j \<in> set js" "i = apply_assignment ?as j" using i(1) by auto
    then have t: "target ?as (job_ID j) = None" "?P j" using i(2) apply_assignment_queued by auto
    have "j \<in> set ?q" using j(1) t(2) by (simp add: sortByEffectivePriority_def)
    from unplaced_blocked [OF s initial_ok [OF assms] this _ v] t(1)
    show ?thesis using committed_after [OF assms v] j(2) by (simp add: Plan_def)
  qed
  then show ?thesis
    unfolding Plan_def [of "map (apply_assignment ?as) js"]
    by (intro plan_loop_blocked) (auto simp: sortByEffectivePriority_def)
qed

lemma Plan_no_inversion:
  assumes "sound_snapshot js ws" "no_overcommit js ws" "j \<in> set js" "j' \<in> set js"
    "job_State j = StateQueued" "ep_less now j j'"
    "asks_no_more (job_Resources j) (job_Resources j')" "target (Plan js ws now) (job_ID j') \<noteq> None"
  shows "target (Plan js ws now) (job_ID j) \<noteq> None"
proof -
  let ?q = "sortByEffectivePriority now (filter (\<lambda>j. job_State j = StateQueued) js)"
  from assms(1) have s: "\<forall>v \<in> set ws. sound_worker v" "distinct (map w_ID ws)"
    "distinct (map job_ID ?q)" "\<forall>j \<in> set ?q. sound_request (job_Resources j)" "distinct (map job_ID js)"
    by (auto simp: sound_snapshot_def sortByEffectivePriority_def distinct_map_filter)
  have j': "job_State j' = StateQueued" by (rule target_Plan_queued [OF s(5) assms(4,8)])
  then have mem: "j \<in> set ?q" "j' \<in> set ?q" using assms(3-5) by (auto simp: sortByEffectivePriority_def)
  have ord: "ordered_by (ep_less now) ?q" unfolding sortByEffectivePriority_def by (rule ep.ordered_sort)
  from mem(1) obtain xs ys where q: "?q = xs @ j # ys" by (auto dest: split_list)
  have "j' \<noteq> j" using assms(6) ep.lt_asym by blast
  moreover have "j' \<notin> set xs" using ord assms(6) unfolding q by (auto simp: sorted_wrt_append)
  ultimately have "j' \<in> set ys" using mem(2) unfolding q by auto
  from plan_loop_no_inversion [OF s(1,2) s(3,4) [unfolded q] initial_ok [OF assms(1,2)] this assms(7)]
  show ?thesis using assms(8) unfolding Plan_def q by blast
qed

end
