(* ===== verification/Preemption.thy ===== *)
theory Preemption
  imports Plan_Fairness
begin

text \<open>
  Properties of \<^verbatim>\<open>PlanPreemptions\<close>: which jobs it may choose, that it chooses each at most once,
  that it stops at the first sufficient victim, and when the capacity it frees lets the pending
  job in.
\<close>

section \<open>The pool of victims\<close>

lemma fold_append_at:
  "fold (\<lambda>i out. out(i := out i @ [j])) ks out k = out k @ replicate (count_list ks k) j"
  by (induction ks arbitrary: out) (simp_all add: replicate_app_Cons_same)

lemma running_loop_eq:
  "running_loop js out k = out k @ concat (map (\<lambda>j.
     if job_State j = StateRunning \<and> job_Preemptible j
     then replicate (count_list (elems (job_AssignedWorkerIDs j)) k) j else []) js)"
  by (induction js arbitrary: out) (auto simp: fold_append_at)

definition may_preempt :: "string \<Rightarrow> Job \<Rightarrow> bool" where
  "may_preempt k j \<longleftrightarrow> job_State j = StateRunning \<and> job_Preemptible j
     \<and> k \<in> set (elems (job_AssignedWorkerIDs j))"

lemma runningPreemptible_set: "set (runningPreemptibleByWorker js k) = {j \<in> set js. may_preempt k j}"
  unfolding runningPreemptibleByWorker_def running_loop_eq may_preempt_def
  by (auto simp: count_list_0_iff split: if_splits)

lemma count_list_distinct: "distinct xs \<Longrightarrow> count_list xs x = (if x \<in> set xs then 1 else 0)"
  by (induction xs) auto

lemma runningPreemptible_filter:
  "\<forall>j \<in> set js. distinct (elems (job_AssignedWorkerIDs j)) \<Longrightarrow>
   runningPreemptibleByWorker js k = filter (may_preempt k) js"
  unfolding runningPreemptibleByWorker_def running_loop_eq may_preempt_def
  by (induction js) (auto simp: count_list_distinct)

section \<open>The loop over the victims of one worker\<close>

definition freed_by :: "committedResources \<Rightarrow> Job list \<Rightarrow> committedResources" where
  "freed_by f vs = foldl (\<lambda>f j. add_resources f (job_Resources j)) f vs"

lemma freed_by_simps [simp]:
  "freed_by f [] = f"
  "freed_by f (j # vs) = freed_by (add_resources f (job_Resources j)) vs"
  by (simp_all add: freed_by_def)

lemma victim_loop_spec:
  assumes "victim_loop now pp enough pre cs acc f = (tp, f')"
  shows "\<exists>vs. tp = acc @ vs \<and> prefix vs (filter (\<lambda>j. job_ID j \<notin> set pre) cs)
    \<and> (\<forall>j \<in> set vs. job_priority now j < pp) \<and> f' = freed_by f vs
    \<and> (\<forall>n. 0 < n \<and> n < length vs \<longrightarrow> \<not> enough (freed_by f (take n vs)))"
  using assms
proof (induction cs arbitrary: acc f)
  case (Cons j cs)
  let ?f = "add_resources f (job_Resources j)"
  show ?case
  proof (cases "job_ID j \<in> set pre")
    case True
    with Cons show ?thesis by simp
  next
    case new: False
    show ?thesis
    proof (cases "job_priority now j \<ge> pp")
      case True
      with Cons.prems new show ?thesis by simp
    next
      case low: False
      show ?thesis
      proof (cases "enough ?f")
        case True
        with Cons.prems new low show ?thesis by (intro exI [of _ "[j]"]) (simp add: Let_def)
      next
        case False
        with Cons.prems new low have
          "victim_loop now pp enough pre cs (acc @ [j]) ?f = (tp, f')" by (simp add: Let_def)
        from Cons.IH [OF this] obtain vs where vs: "tp = acc @ j # vs"
          "prefix vs (filter (\<lambda>j. job_ID j \<notin> set pre) cs)" "\<forall>j \<in> set vs. job_priority now j < pp"
          "f' = freed_by ?f vs"
          "\<forall>n. 0 < n \<and> n < length vs \<longrightarrow> \<not> enough (freed_by ?f (take n vs))" by auto
        have "\<not> enough (freed_by f (take n (j # vs)))" if "0 < n" "n < length (j # vs)" for n
          using that vs(5) False by (cases n; cases "n - 1") auto
        with vs new low show ?thesis by (intro exI [of _ "j # vs"]) auto
      qed
    qed
  qed
qed simp

section \<open>The loop over the workers\<close>

definition victims_for :: "Time \<Rightarrow> (string \<Rightarrow> Job list) \<Rightarrow> string list \<Rightarrow> Job \<Rightarrow> Worker \<Rightarrow> committed \<Rightarrow> Job list \<Rightarrow> bool" where
  "victims_for now running pre job v c vs \<longleftrightarrow> w_Status v = StatusActive
     \<and> \<not> fits_with (job_Resources job) (free_cpu v (c (w_ID v))) (free_memory v (c (w_ID v)))
          (free_gpus v (job_Resources job) (c (w_ID v)))
     \<and> prefix vs (filter (\<lambda>j. job_ID j \<notin> set pre) (sort_slice (victim_less now) (running (w_ID v))))
     \<and> (\<forall>j \<in> set vs. job_priority now j < job_priority now job)
     \<and> \<not> short_on (job_Resources job) v (c (w_ID v)) (freed_by no_resources vs)
     \<and> (\<forall>n. 0 < n \<and> n < length vs \<longrightarrow>
          \<not> enough_on (job_Resources job) v (c (w_ID v)) (freed_by no_resources (take n vs)))"

lemma preempt_workers_spec:
  assumes "preempt_workers now running job ws c pre = (ps, c', pre')"
  shows "ps = [] \<and> c' = c \<and> pre' = pre \<or>
    (\<exists>v \<in> set ws. \<exists>vs. victims_for now running pre job v c vs
       \<and> ps = map (\<lambda>j. \<lparr>p_JobID = job_ID j, p_WorkerID = w_ID v, p_Reason = preempt_reason job\<rparr>) vs
       \<and> c' = c(w_ID v := sub_resources (c (w_ID v)) (freed_by no_resources vs))
       \<and> pre' = pre @ map job_ID vs)"
  using assms
proof (induction ws)
  case (Cons v ws)
  let ?q = "job_Resources job" and ?cw = "c (w_ID v)"
  show ?case
  proof (cases "w_Status v = StatusActive")
    case False
    with Cons show ?thesis by auto
  next
    case act: True
    show ?thesis
    proof (cases "fits_with ?q (free_cpu v ?cw) (free_memory v ?cw) (free_gpus v ?q ?cw)")
      case True
      with Cons.prems act show ?thesis by (simp add: Let_def)
    next
      case unfit: False
      obtain tp f where vl: "victim_loop now (job_priority now job) (enough_on ?q v ?cw) pre
          (sort_slice (victim_less now) (running (w_ID v))) [] no_resources = (tp, f)" by fastforce
      note spec = victim_loop_spec [OF vl]
      show ?thesis
      proof (cases "short_on ?q v ?cw f")
        case True
        with Cons.prems act unfit vl have "preempt_workers now running job ws c pre = (ps, c', pre')"
          by (simp add: Let_def)
        from Cons.IH [OF this] show ?thesis by auto
      next
        case False
        with Cons.prems act unfit vl have out:
          "ps = map (\<lambda>j. \<lparr>p_JobID = job_ID j, p_WorkerID = w_ID v, p_Reason = preempt_reason job\<rparr>) tp"
          "c' = c(w_ID v := sub_resources ?cw f)" "pre' = pre @ map job_ID tp"
          by (simp_all add: Let_def)
        have "victims_for now running pre job v c tp \<and> f = freed_by no_resources tp"
          using spec act unfit False unfolding victims_for_def by auto
        with out show ?thesis by auto
      qed
    qed
  qed
qed simp

lemma victims_for_pool: "victims_for now running pre job v c vs \<Longrightarrow> set vs \<subseteq> set (running (w_ID v))"
  unfolding victims_for_def using set_mono_prefix by fastforce

lemma victims_for_new:
  assumes "victims_for now running pre job v c vs"
  shows "job_ID ` set vs \<inter> set pre = {}"
proof -
  have "set vs \<subseteq> set (filter (\<lambda>j. job_ID j \<notin> set pre) (sort_slice (victim_less now) (running (w_ID v))))"
    using assms set_mono_prefix unfolding victims_for_def by blast
  then show ?thesis by auto
qed

lemma victims_for_distinct:
  assumes "victims_for now running pre job v c vs" "distinct (map job_ID (running (w_ID v)))"
  shows "distinct (map job_ID vs)"
proof -
  let ?xs = "filter (\<lambda>j. job_ID j \<notin> set pre) (sort_slice (victim_less now) (running (w_ID v)))"
  have "distinct (map job_ID ?xs)" using assms(2) by (intro distinct_map_filter) simp
  moreover from assms(1) obtain zs where "?xs = vs @ zs" unfolding victims_for_def prefix_def by blast
  ultimately show ?thesis by simp
qed

section \<open>The loop over the pending jobs\<close>

lemma preempt_queue_justified:
  assumes "p \<in> set (preempt_queue now running ws js c pre)"
  shows "\<exists>pending \<in> set js. \<exists>v \<in> set ws. \<exists>j \<in> set (running (w_ID v)).
    job_ID j = p_JobID p \<and> w_ID v = p_WorkerID p \<and> w_Status v = StatusActive
    \<and> job_priority now j < job_priority now pending \<and> p_Reason p = preempt_reason pending"
  using assms
proof (induction js arbitrary: c pre)
  case (Cons job js)
  obtain ps c' pre' where w: "preempt_workers now running job ws c pre = (ps, c', pre')" by (rule prod_cases3)
  show ?case
  proof (cases "p \<in> set ps")
    case True
    with preempt_workers_spec [OF w] obtain v vs j where v: "v \<in> set ws"
      "victims_for now running pre job v c vs" "j \<in> set vs"
      "p = \<lparr>p_JobID = job_ID j, p_WorkerID = w_ID v, p_Reason = preempt_reason job\<rparr>" by auto
    moreover have "j \<in> set (running (w_ID v))" using victims_for_pool v(2,3) by blast
    moreover have "w_Status v = StatusActive" "job_priority now j < job_priority now job"
      using v(2,3) unfolding victims_for_def by auto
    ultimately show ?thesis by (intro bexI [of _ job] bexI [of _ v] bexI [of _ j]) auto
  next
    case False
    with Cons.prems w have "p \<in> set (preempt_queue now running ws js c' pre')" by simp
    from Cons.IH [OF this] show ?thesis by auto
  qed
qed simp

lemma preempt_queue_distinct:
  assumes "\<And>v. v \<in> set ws \<Longrightarrow> distinct (map job_ID (running (w_ID v)))"
  shows "distinct (map p_JobID (preempt_queue now running ws js c pre))
    \<and> set (map p_JobID (preempt_queue now running ws js c pre)) \<inter> set pre = {}"
proof (induction js arbitrary: c pre)
  case (Cons job js)
  obtain ps c' pre' where w: "preempt_workers now running job ws c pre = (ps, c', pre')" by (rule prod_cases3)
  from preempt_workers_spec [OF w] show ?case
  proof
    assume "ps = [] \<and> c' = c \<and> pre' = pre"
    with w Cons show ?thesis by simp
  next
    assume "\<exists>v \<in> set ws. \<exists>vs. victims_for now running pre job v c vs
       \<and> ps = map (\<lambda>j. \<lparr>p_JobID = job_ID j, p_WorkerID = w_ID v, p_Reason = preempt_reason job\<rparr>) vs
       \<and> c' = c(w_ID v := sub_resources (c (w_ID v)) (freed_by no_resources vs))
       \<and> pre' = pre @ map job_ID vs"
    then obtain v vs where v: "v \<in> set ws" "victims_for now running pre job v c vs"
      "map p_JobID ps = map job_ID vs" "pre' = pre @ map job_ID vs" by auto
    have "distinct (map job_ID vs)" by (rule victims_for_distinct [OF v(2) assms [OF v(1)]])
    moreover note victims_for_new [OF v(2)]
    moreover have "distinct (map p_JobID (preempt_queue now running ws js c' pre'))"
      "set (map p_JobID (preempt_queue now running ws js c' pre')) \<inter> set pre' = {}"
      using Cons.IH by blast+
    ultimately show ?thesis using w v(3,4) by (auto simp flip: set_map)
  qed
qed simp

section \<open>When the pending job gets in\<close>

text \<open>Against the clamp of \<^verbatim>\<open>freeGPUCount\<close>: as long as no more GPUs are committed than qualify
  for the pending job, giving up the victims makes the worker eligible for it.\<close>

lemma victims_sufficient:
  assumes "victims_for now running pre job v c vs" "sound_worker v" "sound_request (job_Resources job)"
    "res_ok (c (w_ID v))" "res_ok (freed_by no_resources vs)"
    "res_le (freed_by no_resources vs) (c (w_ID v))"
    "c_gpuCount (c (w_ID v)) \<le> qualifying v (MinGPUMemoryBytes (job_Resources job))"
  shows "eligible (job_Resources job) (sub_resources (c (w_ID v)) (freed_by no_resources vs)) v"
proof -
  let ?q = "job_Resources job" and ?c = "c (w_ID v)" and ?f = "freed_by no_resources vs"
  obtain u n f m where fx: "w_CPUCapacity v = fx u" "c_cpuCores ?c = fx n" "c_cpuCores ?f = fx f"
    "CPUCores ?q = fx m" "0 \<le> u" "u < 2 ^ 52" "0 \<le> n" "n < 2 ^ 52" "0 \<le> f" "f < 2 ^ 52"
    using assms(2-5) by (auto simp: sound_defs res_ok_def exact_cpu_def)
  have le: "f \<le> n" "c_gpuCount ?f \<le> c_gpuCount ?c" "c_memoryBytes ?f \<le> c_memoryBytes ?c"
    using assms(6) fx by (auto simp: res_le_def)
  have nn: "0 \<le> c_gpuCount ?f" "0 \<le> c_memoryBytes ?f" "c_gpuCount ?c < 2 ^ 62" "c_memoryBytes ?c < 2 ^ 63"
    using assms(4,5) by (auto simp: res_ok_def)
  have cpu: "f_add (free_cpu v ?c) (c_cpuCores ?f) = fx (u - n + f)" "f_sub (fx n) (fx f) = fx (n - f)"
    using fx le by (simp_all add: free_cpu_def)
  have cap: "0 \<le> w_MemoryCapacityBytes v" "w_MemoryCapacityBytes v < 2 ^ 63"
    using assms(2) by (auto simp: sound_defs)
  have "free_memory v ?c = w_MemoryCapacityBytes v - c_memoryBytes ?c"
    using cap nn le by (simp add: free_memory_def i64_id in_i64_def)
  then have mem: "i64 (free_memory v ?c + c_memoryBytes ?f) = w_MemoryCapacityBytes v - c_memoryBytes ?c + c_memoryBytes ?f"
    using cap nn le by (simp add: i64_id in_i64_def)
  have "free_gpus v ?q ?c = qualifying v (MinGPUMemoryBytes ?q) - c_gpuCount ?c"
    using assms(2,7) nn le by (simp add: free_gpus_def freeGPUCount_exact sound_worker_def)
  moreover have "qualifying v (MinGPUMemoryBytes ?q) < 2 ^ 62"
    using qualifying_bounds(2) [of v "MinGPUMemoryBytes ?q"] assms(2) by (simp add: sound_defs)
  ultimately have gpu: "i64 (free_gpus v ?q ?c + c_gpuCount ?f) =
      qualifying v (MinGPUMemoryBytes ?q) - c_gpuCount ?c + c_gpuCount ?f"
    using assms(7) nn le by (simp add: i64_id in_i64_def)
  have "\<not> short_on ?q v ?c ?f" using assms(1) by (simp add: victims_for_def)
  then have enough: "m \<le> u - n + f" "MemoryBytes ?q \<le> w_MemoryCapacityBytes v - c_memoryBytes ?c + c_memoryBytes ?f"
    "GPUCount ?q \<le> qualifying v (MinGPUMemoryBytes ?q) - c_gpuCount ?c + c_gpuCount ?f"
    unfolding short_on_def short_with_def cpu mem gpu fx(4) by auto
  have sub: "c_gpuCount (sub_resources ?c ?f) = c_gpuCount ?c - c_gpuCount ?f"
    "c_memoryBytes (sub_resources ?c ?f) = c_memoryBytes ?c - c_memoryBytes ?f"
    "c_cpuCores (sub_resources ?c ?f) = fx (n - f)"
    using nn le fx cpu(2) by (simp_all add: sub_resources_def i64_id in_i64_def)
  have ok: "res_ok (sub_resources ?c ?f)"
    unfolding res_ok_def sub exact_cpu_fx using nn le fx by simp
  have "w_Status v = StatusActive" using assms(1) by (simp add: victims_for_def)
  then show ?thesis
    unfolding eligible_exact [OF assms(2,3) ok] sub using enough fx by simp
qed

text \<open>What a set of victims frees is what they ask for, and no more than is committed.\<close>

context capacity_measure
begin

lemma freed_tracks:
  assumes "\<forall>j \<in> set vs. good_request (job_Resources j)" "tracks f n" "0 \<le> n"
    "n + sum_list (map (\<lambda>j. amount (job_Resources j)) vs) \<le> bound"
  shows "tracks (freed_by f vs) (n + sum_list (map (\<lambda>j. amount (job_Resources j)) vs))"
  using assms
proof (induction vs arbitrary: f n)
  case (Cons j vs)
  let ?s = "sum_list (map (\<lambda>j. amount (job_Resources j)) vs)"
  have pos: "0 \<le> amount (job_Resources j)" "0 \<le> ?s"
    using Cons.prems(1) by (auto intro!: sum_list_nonneg amount_nonneg)
  have "tracks (add_resources f (job_Resources j)) (n + amount (job_Resources j))"
    using Cons.prems pos by (intro tracks_add) auto
  from Cons.IH [OF _ this] Cons.prems pos show ?case by (simp add: add.assoc)
qed simp

lemma victims_demand:
  assumes "distinct js" "distinct vs" "set vs \<subseteq> {j \<in> set js. may_preempt k j}"
    "\<forall>j \<in> set js. good_request (job_Resources j)"
  shows "sum_list (map (\<lambda>j. amount (job_Resources j)) vs) \<le> demand amount k js"
proof -
  have "amount (job_Resources j) \<le> job_demand amount k j" if "j \<in> set vs" for j
  proof -
    from that assms(3,4) have j: "may_preempt k j" "0 \<le> amount (job_Resources j)"
      by (auto intro: amount_nonneg)
    then have "1 \<le> count_list (elems (job_AssignedWorkerIDs j)) k"
      using count_list_0_iff [of "elems (job_AssignedWorkerIDs j)" k] by (simp add: may_preempt_def Suc_le_eq)
    then have "1 * amount (job_Resources j) \<le> int (count_list (elems (job_AssignedWorkerIDs j)) k) * amount (job_Resources j)"
      using j(2) by (intro mult_right_mono) simp_all
    with j(1) show ?thesis by (simp add: job_demand_def may_preempt_def holds_capacity_def)
  qed
  then have "(\<Sum>j \<in> set vs. amount (job_Resources j)) \<le> (\<Sum>j \<in> set vs. job_demand amount k j)"
    by (rule sum_mono)
  also have "\<dots> \<le> (\<Sum>j \<in> set js. job_demand amount k j)"
    using assms(3,4) by (intro sum_mono2) (auto simp: job_demand_def amount_nonneg)
  finally show ?thesis
    using assms(1,2) by (simp add: demand_def sum_list_distinct_conv_sum_set)
qed

lemma victims_track:
  assumes "distinct js" "distinct vs" "set vs \<subseteq> {j \<in> set js. may_preempt k j}"
    "\<forall>j \<in> set js. good_request (job_Resources j)" "demand amount k js \<le> bound"
  obtains n where "tracks (freed_by no_resources vs) n" "0 \<le> n" "n \<le> demand amount k js"
proof -
  let ?s = "sum_list (map (\<lambda>j. amount (job_Resources j)) vs)"
  have good: "\<forall>j \<in> set vs. good_request (job_Resources j)" using assms(3,4) by auto
  have le: "?s \<le> demand amount k js" by (rule victims_demand [OF assms(1-4)])
  with freed_tracks [OF good tracks_zero] assms(5) have "tracks (freed_by no_resources vs) ?s" by simp
  moreover have "0 \<le> ?s" using good by (auto intro!: sum_list_nonneg amount_nonneg)
  ultimately show thesis using le by (rule that)
qed

end

lemma freed_within_committed:
  assumes "sound_snapshot js ws" "no_overcommit js ws" "v \<in> set ws" "distinct vs"
    "set vs \<subseteq> {j \<in> set js. may_preempt (w_ID v) j}"
  shows "res_ok (committedByWorker js (w_ID v)) \<and> res_ok (freed_by no_resources vs)
    \<and> res_le (freed_by no_resources vs) (committedByWorker js (w_ID v))"
proof -
  let ?k = "w_ID v"
  note s = sound_snapshotD [OF assms(1,3)]
  have js: "distinct js" using s(1) by (simp add: distinct_map)
  have d: "demand MemoryBytes ?k js \<le> 2 ^ 63 - 1" "demand GPUCount ?k js < 2 ^ 62" "demand cpu_units ?k js < 2 ^ 52"
    using assms(2,3) s(3-5) unfolding no_overcommit_def by (force simp: sound_defs exact_cpu_def)+
  from memory.victims_track [OF js assms(4,5) s(6) d(1)] obtain m where
    m: "c_memoryBytes (freed_by no_resources vs) = m" "0 \<le> m" "m \<le> demand MemoryBytes ?k js" .
  from gpus.victims_track [OF js assms(4,5) s(7)] d(2) obtain g where
    g: "c_gpuCount (freed_by no_resources vs) = g" "0 \<le> g" "g \<le> demand GPUCount ?k js" by auto
  from cpu.victims_track [OF js assms(4,5) s(8)] d(3) obtain u where
    u: "c_cpuCores (freed_by no_resources vs) = fx u" "0 \<le> u" "u \<le> demand cpu_units ?k js" by auto
  have "c_memoryBytes (committedByWorker js ?k) = demand MemoryBytes ?k js"
    "c_gpuCount (committedByWorker js ?k) = demand GPUCount ?k js"
    "c_cpuCores (committedByWorker js ?k) = fx (demand cpu_units ?k js)"
    using memory.committed_tracks [OF s(6) d(1)] gpus.committed_tracks [OF s(7)] cpu.committed_tracks [OF s(8)] d
    by simp_all
  with m g u d show ?thesis by (simp add: res_ok_def res_le_def exact_cpu_fx)
qed

lemma first_pending_fits:
  assumes "sound_snapshot js ws" "no_overcommit js ws" "\<forall>j \<in> set js. distinct (elems (job_AssignedWorkerIDs j))"
    "sound_request (job_Resources job)"
    "\<forall>v \<in> set ws. demand GPUCount (w_ID v) js \<le> qualifying v (MinGPUMemoryBytes (job_Resources job))"
    "preempt_workers now (runningPreemptibleByWorker js) job ws (committedByWorker js) [] = (ps, c, pre)" "ps \<noteq> []"
  shows "\<exists>v \<in> set ws. eligible (job_Resources job) (c (w_ID v)) v"
proof -
  let ?c = "committedByWorker js"
  from preempt_workers_spec [OF assms(6)] assms(7) obtain v vs where v: "v \<in> set ws"
    "victims_for now (runningPreemptibleByWorker js) [] job v ?c vs"
    "c = ?c(w_ID v := sub_resources (?c (w_ID v)) (freed_by no_resources vs))" by blast
  have pre: "prefix vs (sort_slice (victim_less now) (filter (may_preempt (w_ID v)) js))"
    using v(2) by (simp add: victims_for_def runningPreemptible_filter [OF assms(3)])
  note s = sound_snapshotD [OF assms(1) v(1)]
  have "distinct (sort_slice (victim_less now) (filter (may_preempt (w_ID v)) js))"
    using s(1) distinct_map_sort_slice [of "\<lambda>j. j" "victim_less now"] by (simp add: distinct_map)
  with pre have dvs: "distinct vs" by (auto simp: prefix_def)
  have "set vs \<subseteq> set (sort_slice (victim_less now) (filter (may_preempt (w_ID v)) js))"
    by (rule set_mono_prefix [OF pre])
  then have vs: "set vs \<subseteq> {j \<in> set js. may_preempt (w_ID v) j}" by auto
  have g: "c_gpuCount (?c (w_ID v)) = demand GPUCount (w_ID v) js"
    using gpus.committed_tracks [OF s(7)] assms(2) v(1) s(4) unfolding no_overcommit_def
    by (force simp: sound_defs)
  have "sound_worker v" using assms(1) v(1) by (simp add: sound_snapshot_def)
  from victims_sufficient [OF v(2) this assms(4)] freed_within_committed [OF assms(1,2) v(1) dvs vs] assms(5) v(1) g
  have "eligible (job_Resources job) (c (w_ID v)) v" by (simp add: v(3))
  with v(1) show ?thesis ..
qed

end
