(* ===== verification/Scheduler_Service.thy ===== *)
theory Scheduler_Service
  imports Worker_Loss Preemption
begin

text \<open>
  One scheduling pass, \<^verbatim>\<open>internal/scheduler/service.go\<close>, and the decision log,
  \<^verbatim>\<open>decision_repository.go\<close>.  The pass reads both lists, plans, and then writes one job at
  a time; \<open>apply_assignments\<close> and \<open>apply_preemptions\<close> are the two writing loops, so that the
  pass can be studied both undisturbed and against a store that has changed since the read.
\<close>

section \<open>decision_repository.go\<close>

record 'd DecisionRepository =
  dec_Record :: "string \<Rightarrow> string \<Rightarrow> string \<Rightarrow> 'd \<Rightarrow> goerr option \<times> 'd"

record RecordedDecision =
  rd_JobID :: string
  rd_WorkerID :: string
  rd_Reason :: string

record MemoryDecisionRepository =
  Decisions :: "RecordedDecision list"

definition NewMemoryDecisionRepository :: MemoryDecisionRepository where
  "NewMemoryDecisionRepository = \<lparr>Decisions = []\<rparr>"

definition dmem_Record ::
    "string \<Rightarrow> string \<Rightarrow> string \<Rightarrow> MemoryDecisionRepository \<Rightarrow> goerr option \<times> MemoryDecisionRepository" where
  "dmem_Record jobID workerID reason d =
     (None, d\<lparr>Decisions := Decisions d @ [\<lparr>rd_JobID = jobID, rd_WorkerID = workerID, rd_Reason = reason\<rparr>]\<rparr>)"

definition dmem_Snapshot :: "MemoryDecisionRepository \<Rightarrow> RecordedDecision list" where
  "dmem_Snapshot d = Decisions d"

definition memory_decisions :: "MemoryDecisionRepository DecisionRepository" where
  "memory_decisions = \<lparr>dec_Record = dmem_Record\<rparr>"

section \<open>service.go\<close>

record Result =
  Considered :: nat
  Assigned :: nat
  Conflicted :: nat
  Preempted :: nat

definition lost_race :: "goerr \<Rightarrow> bool" where
  "lost_race e \<longleftrightarrow> errors_Is e Jobs_ErrInvalidState \<or> errors_Is e Jobs_ErrNotFound"

fun apply_assignments ::
    "'r JobRepository \<Rightarrow> 'd DecisionRepository \<Rightarrow> Assignment list \<Rightarrow> Result \<Rightarrow> 'r \<times> 'd
     \<Rightarrow> (goerr option \<times> Result) \<times> 'r \<times> 'd" where
  "apply_assignments repo drepo [] result (r, d) = ((None, result), r, d)"
| "apply_assignments repo drepo (a # as) result (r, d) =
     (case AssignToWorkers repo (a_JobID a) [a_WorkerID a] r of
        (Inl e, r') \<Rightarrow>
          (if lost_race e
           then apply_assignments repo drepo as (result\<lparr>Conflicted := Conflicted result + 1\<rparr>) (r', d)
           else ((Some (Wrap (''scheduler: assign job '' @ a_JobID a @ '' to '' @ a_WorkerID a @ '': '') e []),
                  result), r', d))
      | (Inr j, r') \<Rightarrow>
          (let result = result\<lparr>Assigned := Assigned result + 1\<rparr>
           in case dec_Record drepo (a_JobID a) (a_WorkerID a) (a_Reason a) d of
                (Some e, d') \<Rightarrow>
                  ((Some (Wrap (''scheduler: record decision for job '' @ a_JobID a @ '': '') e []), result), r', d')
              | (None, d') \<Rightarrow> apply_assignments repo drepo as result (r', d')))"

fun apply_preemptions ::
    "'r JobRepository \<Rightarrow> Preemption list \<Rightarrow> Result \<Rightarrow> 'r \<Rightarrow> (goerr option \<times> Result) \<times> 'r" where
  "apply_preemptions repo [] result r = ((None, result), r)"
| "apply_preemptions repo (p # ps) result r =
     (case Preempt repo (p_JobID p) (p_Reason p) r of
        (Inl e, r') \<Rightarrow>
          (if lost_race e then apply_preemptions repo ps result r'
           else ((Some (Wrap (''scheduler: preempt job '' @ p_JobID p @ '': '') e []), result), r'))
      | (Inr j, r') \<Rightarrow> apply_preemptions repo ps (result\<lparr>Preempted := Preempted result + 1\<rparr>) r')"

definition zero_result :: Result where
  "zero_result = \<lparr>Considered = 0, Assigned = 0, Conflicted = 0, Preempted = 0\<rparr>"

definition RunOnce ::
    "'r JobRepository \<Rightarrow> 'w WorkerRepository \<Rightarrow> 'd DecisionRepository \<Rightarrow> bool \<Rightarrow> Time \<Rightarrow> 'r \<times> 'w \<times> 'd
     \<Rightarrow> (goerr option \<times> Result) \<times> 'r \<times> 'w \<times> 'd" where
  "RunOnce repo wrepo drepo preemptionEnabled now = (\<lambda>(r, w, d).
     case ListActive repo r of
       Inl e \<Rightarrow> ((Some (Wrap ''scheduler: list active jobs: '' e []), zero_result), r, w, d)
     | Inr activeJobs \<Rightarrow>
         (case WListActive wrepo w of
            Inl e \<Rightarrow> ((Some (Wrap ''scheduler: list active workers: '' e []), zero_result), r, w, d)
          | Inr activeWorkers \<Rightarrow>
              (let result = zero_result\<lparr>Considered :=
                     length (filter (\<lambda>j. job_State j = StateQueued) activeJobs)\<rparr>;
                   assignments = Plan activeJobs activeWorkers now
               in case apply_assignments repo drepo assignments result (r, d) of
                    ((Some e, result), r', d') \<Rightarrow> ((Some e, result), r', w, d')
                  | ((None, result), r', d') \<Rightarrow>
                      (if preemptionEnabled
                       then case apply_preemptions repo
                                   (PlanPreemptions activeJobs activeWorkers assignments now) result r' of
                              (out, r'') \<Rightarrow> (out, r'', w, d')
                       else ((None, result), r', w, d')))))"

section \<open>Contracts\<close>

locale decision_repository =
  fixes drepo :: "'d DecisionRepository"
    and log_of :: "'d \<Rightarrow> RecordedDecision list"
  assumes record_law: "dec_Record drepo j k s d = (x, d') \<Longrightarrow>
    x = None \<and> log_of d' = log_of d @ [\<lparr>rd_JobID = j, rd_WorkerID = k, rd_Reason = s\<rparr>]"

interpretation dmem: decision_repository memory_decisions Decisions
  by unfold_locales (auto simp: memory_decisions_def dmem_Record_def)

lemma lost_race_simps [simp]:
  "lost_race Jobs_ErrNotFound" "lost_race (invalid_state s)"
  by (simp_all add: lost_race_def invalid_state_def)

lemma AssignToWorkers_fn_errors: "AssignToWorkers_fn ws j = Inl e \<Longrightarrow> lost_race e \<and> job_State j \<noteq> StateQueued"
  by (auto simp: AssignToWorkers_fn_def split: if_splits)

lemma Preempt_fn_errors: "Preempt_fn s j = Inl e \<Longrightarrow> lost_race e"
  by (auto simp: Preempt_fn_def split: if_splits)

definition decision_of :: "Assignment \<Rightarrow> RecordedDecision" where
  "decision_of a = \<lparr>rd_JobID = a_JobID a, rd_WorkerID = a_WorkerID a, rd_Reason = a_Reason a\<rparr>"

text \<open>What a successful assignment stores.\<close>

definition assigned_job :: "string \<Rightarrow> Job \<Rightarrow> Job" where
  "assigned_job k j = j\<lparr>job_State := StateScheduled, job_AssignedWorkerIDs := Some [k]\<rparr>"

lemma AssignToWorkers_fn_queued:
  "job_State j = StateQueued \<Longrightarrow> AssignToWorkers_fn [k] j = Inr (assigned_job k j)"
  by (simp add: AssignToWorkers_fn_def assigned_job_def copy_slice_def)

definition preempted_job :: "string \<Rightarrow> Job \<Rightarrow> Job" where
  "preempted_job reason j = j\<lparr>job_State := StatePreempted, job_FailureReason := reason\<rparr>"

definition victim_reason :: "Preemption list \<Rightarrow> string \<rightharpoonup> string" where
  "victim_reason ps = map_of (map (\<lambda>p. (p_JobID p, p_Reason p)) ps)"

lemma victim_reason_simps [simp]:
  "victim_reason [] = Map.empty"
  "victim_reason (p # ps) = (victim_reason ps)(p_JobID p \<mapsto> p_Reason p)"
  by (simp_all add: victim_reason_def)

lemma victim_reason_ids: "victim_reason ps k \<noteq> None \<longleftrightarrow> k \<in> set (map p_JobID ps)"
  by (auto simp: victim_reason_def map_of_eq_None_iff image_iff)

context job_store
begin

text \<open>An assignment takes effect on a QUEUED job only; otherwise nothing changes.\<close>

lemma assign_effect:
  assumes "repo_ok r" "AssignToWorkers repo i [k] r = (x, r')"
  obtains (unchanged) e where "x = Inl e" "r' = r"
  | (written) j where "jobs_of r i = Some j" "job_State j = StateQueued"
      "x = Inr (norm_job tn sn (assigned_job k j))" "repo_ok r'"
      "jobs_of r' = (jobs_of r)(i \<mapsto> norm_job tn sn (assigned_job k j))"
proof -
  have u: "repo_Update repo i (AssignToWorkers_fn [k]) r = (x, r')"
    using assms(2) by (simp add: AssignToWorkers_def)
  from assms(1) service_fns_keep_identity(2) u show ?thesis
  proof (cases rule: update_store)
    case (written j j')
    then have q: "job_State j = StateQueued" by (simp add: AssignToWorkers_fn_def split: if_splits)
    then have "j' = assigned_job k j" using written(2) by (simp add: AssignToWorkers_fn_queued)
    with written q show ?thesis by (intro that(2)) simp_all
  qed (rule that(1))
qed

end

locale scheduler_service = job_repository repo jobs_of repo_ok tn sn + decision_repository drepo log_of
  for repo :: "'r JobRepository" and jobs_of :: "'r \<Rightarrow> string \<rightharpoonup> Job" and repo_ok :: "'r \<Rightarrow> bool"
    and tn :: "Time \<Rightarrow> Time" and sn :: "string slice \<Rightarrow> string slice"
    and drepo :: "'d DecisionRepository" and log_of :: "'d \<Rightarrow> RecordedDecision list"
begin

lemma assign_cases:
  assumes "repo_ok r" "AssignToWorkers repo i [k] r = (x, r')"
  obtains (lost) e where "x = Inl e" "lost_race e" "r' = r"
      "\<And>j. jobs_of r i = Some j \<Longrightarrow> job_State j \<noteq> StateQueued"
  | (won) j where "jobs_of r i = Some j" "job_State j = StateQueued"
      "x = Inr (norm_job tn sn (assigned_job k j))" "repo_ok r'"
      "jobs_of r' = (jobs_of r)(i \<mapsto> norm_job tn sn (assigned_job k j))"
proof -
  have u: "repo_Update repo i (AssignToWorkers_fn [k]) r = (x, r')"
    using assms(2) by (simp add: AssignToWorkers_def)
  show ?thesis
  proof (rule update_cases [OF assms(1) service_fns_keep_identity(2) u])
    assume "jobs_of r i = None" "x = Inl Jobs_ErrNotFound" "r' = r"
    then show ?thesis by (intro lost [of Jobs_ErrNotFound]) simp_all
  next
    fix j e assume "jobs_of r i = Some j" "AssignToWorkers_fn [k] j = Inl e" "x = Inl e" "r' = r"
    then show ?thesis using AssignToWorkers_fn_errors [of "[k]" j e] by (intro lost [of e]) simp_all
  next
    fix j j' assume j: "jobs_of r i = Some j" "AssignToWorkers_fn [k] j = Inr j'"
      "x = Inr (norm_job tn sn j')" "repo_ok r'" "jobs_of r' = (jobs_of r)(i \<mapsto> norm_job tn sn j')"
    then have q: "job_State j = StateQueued" by (simp add: AssignToWorkers_fn_def split: if_splits)
    then have "j' = assigned_job k j" using j(2) by (simp add: AssignToWorkers_fn_queued)
    with j q show ?thesis by (intro won) simp_all
  qed
qed

text \<open>The writing loop against any store: it never fails, it counts every proposal once, and it
  touches no job that is not QUEUED when its turn comes.\<close>

lemma apply_assignments_any:
  assumes "repo_ok r" "apply_assignments repo drepo as result (r, d) = ((e, result'), r', d')"
  shows "e = None \<and> repo_ok r'
    \<and> Assigned result' + Conflicted result' = Assigned result + Conflicted result + length as
    \<and> length (log_of d') + Assigned result = length (log_of d) + Assigned result'
    \<and> (\<forall>i. jobs_of r' i \<noteq> jobs_of r i \<longrightarrow> (\<exists>j k. jobs_of r i = Some j \<and> job_State j = StateQueued
         \<and> (i, k) \<in> set (map (\<lambda>a. (a_JobID a, a_WorkerID a)) as)
         \<and> jobs_of r' i = Some (norm_job tn sn (assigned_job k j))))"
  using assms
proof (induction as arbitrary: result r d)
  case (Cons a as)
  obtain x r1 where s: "AssignToWorkers repo (a_JobID a) [a_WorkerID a] r = (x, r1)" by fastforce
  from Cons.prems(1) s show ?case
  proof (cases rule: assign_cases)
    case (lost e')
    with Cons.prems(2) s have
      "apply_assignments repo drepo as (result\<lparr>Conflicted := Conflicted result + 1\<rparr>) (r, d) = ((e, result'), r', d')"
      by simp
    from Cons.IH [OF Cons.prems(1) this] show ?thesis by (simp; blast)
  next
    case (won j)
    obtain y d1 where rec: "dec_Record drepo (a_JobID a) (a_WorkerID a) (a_Reason a) d = (y, d1)" by fastforce
    note log = record_law [OF rec]
    have loop: "apply_assignments repo drepo as (result\<lparr>Assigned := Assigned result + 1\<rparr>) (r1, d1) = ((e, result'), r', d')"
      using Cons.prems(2) s won(3) rec log by simp
    note IH = Cons.IH [OF won(4) loop]
    have queued: "\<exists>j k. jobs_of r i = Some j \<and> job_State j = StateQueued
         \<and> (i, k) \<in> set (map (\<lambda>a. (a_JobID a, a_WorkerID a)) (a # as))
         \<and> jobs_of r' i = Some (norm_job tn sn (assigned_job k j))" if i: "jobs_of r' i \<noteq> jobs_of r i" for i
    proof (cases "jobs_of r' i = jobs_of r1 i")
      case True
      with i won(5) have "i = a_JobID a" by (auto split: if_splits)
      with True won show ?thesis by auto
    next
      case False
      with IH obtain j' k where j': "jobs_of r1 i = Some j'" "job_State j' = StateQueued"
        "(i, k) \<in> set (map (\<lambda>a. (a_JobID a, a_WorkerID a)) as)"
        "jobs_of r' i = Some (norm_job tn sn (assigned_job k j'))" by blast
      have "i \<noteq> a_JobID a"
      proof
        assume "i = a_JobID a"
        with j'(1) won(5) have "j' = norm_job tn sn (assigned_job (a_WorkerID a) j)" by simp
        with j'(2) show False by (simp add: assigned_job_def)
      qed
      with j' won(5) show ?thesis by auto
    qed
    from IH log queued show ?thesis by simp
  qed
qed simp

text \<open>The writing loop against the store it was planned on: every proposal is applied.\<close>

lemma apply_assignments_planned:
  assumes "repo_ok r" "distinct (map a_JobID as)"
    "\<forall>a \<in> set as. \<exists>j. jobs_of r (a_JobID a) = Some j \<and> job_State j = StateQueued"
    "apply_assignments repo drepo as result (r, d) = ((e, result'), r', d')"
  shows "e = None \<and> repo_ok r' \<and> result' = result\<lparr>Assigned := Assigned result + length as\<rparr>
    \<and> log_of d' = log_of d @ map decision_of as
    \<and> (\<forall>i. jobs_of r' i = (case target as i of None \<Rightarrow> jobs_of r i
         | Some k \<Rightarrow> map_option (\<lambda>j. norm_job tn sn (assigned_job k j)) (jobs_of r i)))"
  using assms
proof (induction as arbitrary: result r d)
  case (Cons a as)
  obtain x r1 where s: "AssignToWorkers repo (a_JobID a) [a_WorkerID a] r = (x, r1)" by fastforce
  from Cons.prems(3) obtain ja where ja: "jobs_of r (a_JobID a) = Some ja" "job_State ja = StateQueued" by auto
  from Cons.prems(1) s show ?case
  proof (cases rule: assign_cases)
    case (lost e')
    with ja show ?thesis by blast
  next
    case (won j)
    obtain y d1 where rec: "dec_Record drepo (a_JobID a) (a_WorkerID a) (a_Reason a) d = (y, d1)" by fastforce
    note log = record_law [OF rec]
    have loop: "apply_assignments repo drepo as (result\<lparr>Assigned := Assigned result + 1\<rparr>) (r1, d1) = ((e, result'), r', d')"
      using Cons.prems(4) s won(3) rec log by simp
    have new: "a_JobID b \<noteq> a_JobID a" if "b \<in> set as" for b
      using distinct_map_Cons_neq [OF Cons.prems(2) that] .
    have "\<forall>b \<in> set as. \<exists>j. jobs_of r1 (a_JobID b) = Some j \<and> job_State j = StateQueued"
      using Cons.prems(3) won(5) new by simp
    note IH = Cons.IH [OF won(4) _ this loop]
    have t: "target as (a_JobID a) = None" using Cons.prems(2) target_ids [of as "a_JobID a"] by auto
    from IH Cons.prems(2) log t won(1,5) show ?thesis by (auto simp: decision_of_def split: option.splits)
  qed
qed simp

text \<open>The preempting loop against the store it was planned on.\<close>

lemma preempt_won:
  assumes "repo_ok r" "jobs_of r i = Some j" "job_State j = StateRunning" "job_Preemptible j"
    "Preempt repo i reason r = (x, r')"
  shows "x = Inr (norm_job tn sn (preempted_job reason j)) \<and> repo_ok r'
    \<and> jobs_of r' = (jobs_of r)(i \<mapsto> norm_job tn sn (preempted_job reason j))"
proof -
  have f: "Preempt_fn reason j = Inr (preempted_job reason j)"
    using assms(3,4) by (simp add: Preempt_fn_def preempted_job_def)
  show ?thesis
    by (rule update_ok [where f = "Preempt_fn reason", OF assms(1,2) f]) (use assms(5) in \<open>simp_all add: Preempt_def preempted_job_def\<close>)
qed

lemma apply_preemptions_planned:
  assumes "repo_ok r" "distinct (map p_JobID ps)"
    "\<forall>p \<in> set ps. \<exists>j. jobs_of r (p_JobID p) = Some j \<and> job_State j = StateRunning \<and> job_Preemptible j"
    "apply_preemptions repo ps result r = ((e, result'), r')"
  shows "e = None \<and> repo_ok r' \<and> result' = result\<lparr>Preempted := Preempted result + length ps\<rparr>
    \<and> (\<forall>i. jobs_of r' i = (case victim_reason ps i of None \<Rightarrow> jobs_of r i
         | Some s \<Rightarrow> map_option (\<lambda>j. norm_job tn sn (preempted_job s j)) (jobs_of r i)))"
  using assms
proof (induction ps arbitrary: result r)
  case (Cons p ps)
  obtain x r1 where s: "Preempt repo (p_JobID p) (p_Reason p) r = (x, r1)" by fastforce
  from Cons.prems(3) obtain j where j: "jobs_of r (p_JobID p) = Some j" "job_State j = StateRunning"
    "job_Preemptible j" by auto
  note won = preempt_won [OF Cons.prems(1) j s]
  have loop: "apply_preemptions repo ps (result\<lparr>Preempted := Preempted result + 1\<rparr>) r1 = ((e, result'), r')"
    using Cons.prems(4) s won by simp
  have new: "p_JobID q \<noteq> p_JobID p" if "q \<in> set ps" for q
    using distinct_map_Cons_neq [OF Cons.prems(2) that] .
  have "\<forall>q \<in> set ps. \<exists>j. jobs_of r1 (p_JobID q) = Some j \<and> job_State j = StateRunning \<and> job_Preemptible j"
    using Cons.prems(3) won new by simp
  note IH = Cons.IH [OF _ _ this loop]
  have t: "victim_reason ps (p_JobID p) = None"
    using Cons.prems(2) victim_reason_ids [of ps "p_JobID p"] by auto
  from IH won Cons.prems(2) t j(1) show ?case by (auto split: option.splits)
qed simp

end

text \<open>The whole pass, undisturbed.\<close>

definition planned_preemptions :: "bool \<Rightarrow> Job list \<Rightarrow> Worker list \<Rightarrow> Time \<Rightarrow> Preemption list" where
  "planned_preemptions enabled js ws now =
     (if enabled then PlanPreemptions js ws (Plan js ws now) now else [])"

text \<open>What the pass makes of a stored job.\<close>

definition pass_effect :: "(Job \<Rightarrow> Job) \<Rightarrow> Assignment list \<Rightarrow> Preemption list \<Rightarrow> (string \<rightharpoonup> Job) \<Rightarrow> string \<rightharpoonup> Job" where
  "pass_effect nm as ps m i =
     (case target as i of
        Some k \<Rightarrow> map_option (\<lambda>j. nm (assigned_job k j)) (m i)
      | None \<Rightarrow>
          (case victim_reason ps i of
             Some s \<Rightarrow> map_option (\<lambda>j. nm (preempted_job s j)) (m i)
           | None \<Rightarrow> m i))"

lemma PlanPreemptions_victims:
  assumes "p \<in> set (PlanPreemptions js ws placed now)"
  shows "\<exists>j \<in> set js. job_ID j = p_JobID p \<and> may_preempt (p_WorkerID p) j"
  using preempt_queue_justified [OF assms [unfolded PlanPreemptions_def]]
  by (auto simp: runningPreemptible_set)

lemma PlanPreemptions_distinct:
  assumes "distinct (map job_ID js)" "\<forall>j \<in> set js. distinct (elems (job_AssignedWorkerIDs j))"
  shows "distinct (map p_JobID (PlanPreemptions js ws placed now))"
  unfolding PlanPreemptions_def
  by (rule conjunct1, rule preempt_queue_distinct)
    (simp add: runningPreemptible_filter [OF assms(2)] distinct_map_filter [OF assms(1)])

locale scheduling_pass =
  scheduler_service repo jobs_of repo_ok tn sn drepo log_of + worker_repository wrepo workers_of wrepo_ok
  for repo :: "'r JobRepository" and jobs_of :: "'r \<Rightarrow> string \<rightharpoonup> Job" and repo_ok :: "'r \<Rightarrow> bool"
    and tn :: "Time \<Rightarrow> Time" and sn :: "string slice \<Rightarrow> string slice"
    and drepo :: "'d DecisionRepository" and log_of :: "'d \<Rightarrow> RecordedDecision list"
    and wrepo :: "'w WorkerRepository" and workers_of :: "'w \<Rightarrow> string \<rightharpoonup> Worker"
    and wrepo_ok :: "'w \<Rightarrow> bool"
begin

lemma RunOnce_effect:
  assumes ok: "repo_ok r" and js: "repo_ListActive repo r = Inr js" and ws: "wrepo_ListActive wrepo w = Inr ws"
    and once: "\<forall>j \<in> set js. distinct (elems (job_AssignedWorkerIDs j))"
    and run: "RunOnce repo wrepo drepo enabled now (r, w, d) = ((e, result), r', w', d')"
  shows "e = None \<and> repo_ok r' \<and> w' = w
    \<and> result = \<lparr>Considered = length (filter (\<lambda>j. job_State j = StateQueued) js),
         Assigned = length (Plan js ws now), Conflicted = 0,
         Preempted = length (planned_preemptions enabled js ws now)\<rparr>
    \<and> log_of d' = log_of d @ map decision_of (Plan js ws now)
    \<and> jobs_of r' = pass_effect (norm_job tn sn) (Plan js ws now) (planned_preemptions enabled js ws now) (jobs_of r)"
proof -
  let ?as = "Plan js ws now" and ?ps = "planned_preemptions enabled js ws now"
  let ?res = "zero_result\<lparr>Considered := length (filter (\<lambda>j. job_State j = StateQueued) js)\<rparr>"
  obtain xs where "repo_ListActive repo r = Inr xs" "distinct (map job_ID xs)"
    "\<And>j. j \<in> set xs \<longleftrightarrow> jobs_of r (job_ID j) = Some j \<and> \<not> Terminal (job_State j)"
    using active_list [OF ok] by metis
  with js have dist: "distinct (map job_ID js)" and mem: "j \<in> set js \<Longrightarrow> jobs_of r (job_ID j) = Some j" for j
    by simp_all
  obtain e1 res1 r1 d1 where a: "apply_assignments repo drepo ?as ?res (r, d) = ((e1, res1), r1, d1)"
    by (metis prod.collapse)
  have queued: "\<forall>a \<in> set ?as. \<exists>j \<in> set js. job_ID j = a_JobID a \<and> job_State j = StateQueued"
    using plan_loop_ids [of ws "sortByEffectivePriority now (filter (\<lambda>j. job_State j = StateQueued) js)"]
    unfolding Plan_def sortByEffectivePriority_def by fastforce
  have das: "distinct (map a_JobID ?as)"
    unfolding Plan_def by (rule plan_loop_distinct)
      (simp add: sortByEffectivePriority_def distinct_map_filter dist)
  have "\<forall>a \<in> set ?as. \<exists>j. jobs_of r (a_JobID a) = Some j \<and> job_State j = StateQueued"
    using queued mem by metis
  note first = apply_assignments_planned [OF ok das this a]
  have "distinct (map p_JobID ?ps)"
    using PlanPreemptions_distinct [OF dist once] by (simp add: planned_preemptions_def)
  have victims: "\<exists>j \<in> set js. job_ID j = p_JobID p \<and> job_State j = StateRunning \<and> job_Preemptible j"
    if "p \<in> set ?ps" for p
    using that PlanPreemptions_victims unfolding planned_preemptions_def may_preempt_def
    by (fastforce split: if_splits)
  have apart: "target ?as (p_JobID p) = None" if p: "p \<in> set ?ps" for p
  proof (rule ccontr)
    assume t: "target ?as (p_JobID p) \<noteq> None"
    obtain j where j: "j \<in> set js" "job_ID j = p_JobID p" "job_State j = StateRunning"
      using victims [OF p] by blast
    from target_Plan_queued [OF dist j(1)] t j(2,3) show False by auto
  qed
  have still: "\<forall>p \<in> set ?ps. \<exists>j. jobs_of r1 (p_JobID p) = Some j \<and> job_State j = StateRunning \<and> job_Preemptible j"
    using victims apart first mem by fastforce
  obtain e2 res2 r2 where b: "apply_preemptions repo ?ps res1 r1 = ((e2, res2), r2)" by (metis prod.collapse)
  from first have "repo_ok r1" by blast
  note second = apply_preemptions_planned [OF this \<open>distinct (map p_JobID ?ps)\<close> still b]
  have out: "e = e2 \<and> result = res2 \<and> r' = r2 \<and> w' = w \<and> d' = d1"
    using run first a b js ws unfolding RunOnce_def planned_preemptions_def
    by (auto simp: ListActive_def WListActive_def Let_def split: if_splits)
  have res: "res2 = \<lparr>Considered = length (filter (\<lambda>j. job_State j = StateQueued) js),
      Assigned = length ?as, Conflicted = 0, Preempted = length ?ps\<rparr>"
    using first second by (simp add: zero_result_def)
  have "jobs_of r2 i = pass_effect (norm_job tn sn) ?as ?ps (jobs_of r) i" for i
  proof (cases "victim_reason ?ps i")
    case None
    then show ?thesis using first second by (simp add: pass_effect_def split: option.splits)
  next
    case (Some s)
    then obtain p where "p \<in> set ?ps" "p_JobID p = i" using victim_reason_ids [of ?ps i] by auto
    with apart [of p] have "target ?as i = None" by simp
    with Some show ?thesis using first second by (simp add: pass_effect_def)
  qed
  with out res first second show ?thesis by auto
qed

end

interpretation mem_pass: scheduling_pass memory_repository mem_jobs mem_ok "\<lambda>t. t" "\<lambda>s. s"
    memory_decisions Decisions worker_memory_repository wmem_workers wmem_ok
  by unfold_locales

end
