(* ===== verification/Cluster.thy ===== *)
theory Cluster
  imports Scheduler_Service
begin

text \<open>
  The job store under concurrent use: clients and workers call \<^verbatim>\<open>jobs.Service\<close> at any time
  while \<open>n\<close> schedulers are each between reading their snapshot and writing their last
  assignment.  With one scheduler no interleaving overcommits a worker; \<open>cluster_step\<close> is
  proved safe for any resource that satisfies \<open>capacity_measure\<close>.
\<close>

section \<open>What a store holds on a worker\<close>

definition holding :: "(string \<rightharpoonup> Job) \<Rightarrow> string set" where
  "holding m = {i. \<exists>j. m i = Some j \<and> holds_capacity (job_State j)}"

definition stored_demand :: "(ResourceRequest \<Rightarrow> int) \<Rightarrow> string \<Rightarrow> Job option \<Rightarrow> int" where
  "stored_demand amount k x = (case x of None \<Rightarrow> 0 | Some j \<Rightarrow> job_demand amount k j)"

definition demand_map :: "(ResourceRequest \<Rightarrow> int) \<Rightarrow> string \<Rightarrow> (string \<rightharpoonup> Job) \<Rightarrow> int" where
  "demand_map amount k m = (\<Sum>i \<in> holding m. stored_demand amount k (m i))"

lemma stored_demand_simps [simp]:
  "stored_demand amount k None = 0" "stored_demand amount k (Some j) = job_demand amount k j"
  by (simp_all add: stored_demand_def)

lemma demand_map_superset:
  assumes "finite A" "holding m \<subseteq> A"
  shows "demand_map amount k m = (\<Sum>i \<in> A. stored_demand amount k (m i))"
  unfolding demand_map_def
proof (rule sum.mono_neutral_left [OF assms])
  show "\<forall>i \<in> A - holding m. stored_demand amount k (m i) = 0"
    by (auto simp: holding_def stored_demand_def job_demand_def split: option.splits)
qed

lemma holding_upd: "holding (m(i \<mapsto> j)) \<subseteq> insert i (holding m)"
  by (auto simp: holding_def)

lemma demand_map_upd:
  assumes "finite (holding m)"
  shows "demand_map amount k (m(i \<mapsto> j)) =
    demand_map amount k m - stored_demand amount k (m i) + job_demand amount k j"
proof -
  let ?A = "insert i (holding m)" and ?B = "holding m - {i}"
  have fin: "finite ?A" "finite ?B" using assms by simp_all
  have A: "?A = insert i ?B" by auto
  have "demand_map amount k (m(i \<mapsto> j)) = (\<Sum>x \<in> ?A. stored_demand amount k ((m(i \<mapsto> j)) x))"
    by (rule demand_map_superset [OF fin(1) holding_upd])
  also have "\<dots> = job_demand amount k j + (\<Sum>x \<in> ?B. stored_demand amount k (m x))"
    unfolding A by (subst sum.insert) (auto simp: assms intro!: sum.cong)
  moreover have "demand_map amount k m = (\<Sum>x \<in> ?A. stored_demand amount k (m x))"
    by (rule demand_map_superset [OF fin(1)]) auto
  moreover have "\<dots> = stored_demand amount k (m i) + (\<Sum>x \<in> ?B. stored_demand amount k (m x))"
    unfolding A by (subst sum.insert) (simp_all add: assms)
  ultimately show ?thesis by simp
qed

lemma holds_not_terminal: "holds_capacity s \<Longrightarrow> \<not> Terminal s"
  by (auto simp: holds_capacity_def)

text \<open>The snapshot a scheduler reads shows exactly this demand.\<close>

lemma demand_snapshot:
  assumes "distinct (map job_ID js)"
    "\<And>j. j \<in> set js \<longleftrightarrow> m (job_ID j) = Some j \<and> \<not> Terminal (job_State j)"
    "\<And>i j. m i = Some j \<Longrightarrow> job_ID j = i"
  shows "finite (holding m)" "demand amount k js = demand_map amount k m"
proof -
  have sub: "holding m \<subseteq> job_ID ` set js"
  proof
    fix i assume "i \<in> holding m"
    then obtain j where j: "m i = Some j" "holds_capacity (job_State j)" by (auto simp: holding_def)
    then have "job_ID j = i" "j \<in> set js" using assms(2,3) holds_not_terminal by auto
    then show "i \<in> job_ID ` set js" by blast
  qed
  then show "finite (holding m)" by (rule finite_subset) simp
  have inj: "inj_on job_ID (set js)" "distinct js" using assms(1) by (simp_all add: distinct_map)
  have "demand amount k js = (\<Sum>j \<in> set js. job_demand amount k j)"
    unfolding demand_def by (rule sum_list_distinct_conv_sum_set [OF inj(2)])
  also have "\<dots> = (\<Sum>j \<in> set js. stored_demand amount k (m (job_ID j)))"
    by (rule sum.cong) (use assms(2) in auto)
  also have "\<dots> = (\<Sum>i \<in> job_ID ` set js. stored_demand amount k (m i))"
    by (simp add: sum.reindex [OF inj(1)])
  also have "\<dots> = demand_map amount k m" by (rule demand_map_superset [symmetric, OF _ sub]) simp
  finally show "demand amount k js = demand_map amount k m" .
qed

section \<open>Steps\<close>

definition same_capacity :: "Worker \<Rightarrow> Worker \<Rightarrow> bool" where
  "same_capacity u v \<longleftrightarrow> w_ID u = w_ID v \<and> w_CPUCapacity u = w_CPUCapacity v
     \<and> w_MemoryCapacityBytes u = w_MemoryCapacityBytes v \<and> w_GPUs u = w_GPUs v"

fun is_assign :: "job_op \<Rightarrow> bool" where
  "is_assign (OpAssign ws) = True"
| "is_assign _ = False"

type_synonym 'r cluster = "'r \<times> (nat \<Rightarrow> Assignment list)"

text \<open>
  \<open>fleet\<close> are the workers with their capacities; a scheduler may see any of them, in any status.
  Submissions ask for \<open>good\<close> amounts within the Go types.  Only a scheduler calls \<^verbatim>\<open>AssignToWorkers\<close>;
  it may give up the rest of its plan, as a pass does on an error.
\<close>

inductive cluster_step ::
    "'r JobRepository \<Rightarrow> (ResourceRequest \<Rightarrow> bool) \<Rightarrow> Worker list \<Rightarrow> nat \<Rightarrow> 'r cluster \<Rightarrow> 'r cluster \<Rightarrow> bool"
  for repo good fleet n where
  cl_submit: "repo_Get repo newID r = Inl Jobs_ErrNotFound \<Longrightarrow> submit_ranges i \<Longrightarrow> good (in_Resources i) \<Longrightarrow>
     Submit repo newID now i r = (x, r') \<Longrightarrow> cluster_step repo good fleet n (r, pend) (r', pend)"
| cl_call: "\<not> is_assign f \<Longrightarrow> job_call repo f k r = (x, r') \<Longrightarrow>
     cluster_step repo good fleet n (r, pend) (r', pend)"
| cl_plan: "s < n \<Longrightarrow> pend s = [] \<Longrightarrow> ListActive repo r = Inr js \<Longrightarrow>
     distinct (map w_ID ws) \<Longrightarrow> \<forall>u \<in> set ws. \<exists>v \<in> set fleet. same_capacity u v \<Longrightarrow>
     cluster_step repo good fleet n (r, pend) (r, pend(s := Plan js ws now))"
| cl_assign: "s < n \<Longrightarrow> pend s = a # as \<Longrightarrow>
     AssignToWorkers repo (a_JobID a) [a_WorkerID a] r = (x, r') \<Longrightarrow>
     cluster_step repo good fleet n (r, pend) (r', pend(s := as))"
| cl_abandon: "cluster_step repo good fleet n (r, pend) (r, pend(s := []))"

inductive_cases cluster_stepE: "cluster_step repo good fleet n (r, pend) (r', pend')"

lemma cluster_step_mono:
  "cluster_step repo good fleet n x y \<Longrightarrow> (\<And>q. good q \<Longrightarrow> good' q) \<Longrightarrow> cluster_step repo good' fleet n x y"
  by (erule cluster_step.cases) (auto intro: cluster_step.intros)

lemma cluster_steps_mono:
  assumes "(cluster_step repo good fleet n)\<^sup>*\<^sup>* x y" "\<And>q. good q \<Longrightarrow> good' q"
  shows "(cluster_step repo good' fleet n)\<^sup>*\<^sup>* x y"
  using assms(1) by (rule rtranclp_mono [THEN predicate2D, rotated]) (auto intro: cluster_step_mono assms(2))

section \<open>Amounts still to be written\<close>

definition stored_amount :: "(ResourceRequest \<Rightarrow> int) \<Rightarrow> Job option \<Rightarrow> int" where
  "stored_amount amount x = (case x of None \<Rightarrow> 0 | Some j \<Rightarrow> amount (job_Resources j))"

definition pending_amount ::
    "(ResourceRequest \<Rightarrow> int) \<Rightarrow> string \<Rightarrow> (string \<rightharpoonup> Job) \<Rightarrow> Assignment list \<Rightarrow> int" where
  "pending_amount amount k m as =
     sum_list (map (\<lambda>a. if a_WorkerID a = k then stored_amount amount (m (a_JobID a)) else 0) as)"

lemma pending_amount_simps [simp]:
  "pending_amount amount k m [] = 0"
  "pending_amount amount k m (a # as) =
     (if a_WorkerID a = k then stored_amount amount (m (a_JobID a)) else 0) + pending_amount amount k m as"
  by (simp_all add: pending_amount_def)

lemma pending_amount_cong:
  "(\<And>a. a \<in> set as \<Longrightarrow> stored_amount amount (m (a_JobID a)) = stored_amount amount (m' (a_JobID a))) \<Longrightarrow>
   pending_amount amount k m as = pending_amount amount k m' as"
  unfolding pending_amount_def by (intro arg_cong [where f = sum_list] map_cong) auto

lemma pending_amount_plan:
  assumes "distinct (map job_ID js)" "distinct (map w_ID ws)" "\<forall>j \<in> set js. m (job_ID j) = Some j"
  shows "pending_amount amount k m (plan_loop ws js c) =
    sum_list (map (placed_amount amount k (plan_loop ws js c)) js)"
  using assms(1,3)
proof (induction js arbitrary: c)
  case (Cons job js)
  from Cons.prems(1) assms(2) show ?case
  proof (cases rule: plan_loop_cases [where c = c])
    case skipped
    then show ?thesis using Cons by (simp add: placed_amount_def)
  next
    case (placed v)
    let ?c = "reserve (w_ID v) (job_Resources job) c" and ?as = "plan_loop ws (job # js) c"
    have "map (placed_amount amount k ?as) js = map (placed_amount amount k (plan_loop ws js ?c)) js"
      unfolding placed_amount_def using placed(4) by (intro map_cong refl) (simp only:)
    then have total: "sum_list (map (placed_amount amount k ?as) (job # js)) =
        (if w_ID v = k then amount (job_Resources job) else 0)
        + sum_list (map (placed_amount amount k (plan_loop ws js ?c)) js)"
      using placed(3) by (simp only: list.map sum_list.Cons placed_amount_def option.inject)
    have IH: "pending_amount amount k m (plan_loop ws js ?c) =
        sum_list (map (placed_amount amount k (plan_loop ws js ?c)) js)"
      by (rule Cons.IH) (use Cons.prems in simp_all)
    show ?thesis
      unfolding total IH [symmetric] using placed(5) Cons.prems(2) by (simp add: stored_amount_def)
  qed
qed simp

lemma op_demand:
  assumes "op_fn f j = Inr j'" "\<not> is_assign f" "0 \<le> amount (job_Resources j)"
  shows "job_demand amount k j' \<le> job_demand amount k j"
proof (cases "holds_capacity (job_State j')")
  case False
  then show ?thesis using assms(3) by (simp add: job_demand_def)
next
  case True
  then have "j' = j \<or> (\<exists>t. f = OpStart t)"
    using assms(1,2) op_fn_effect [OF assms(1)]
    by (cases f) (auto simp: service_fn_defs holds_capacity_def split: if_splits State.splits)
  then show ?thesis
  proof
    assume "\<exists>t. f = OpStart t"
    with assms(1) show ?thesis
      by (auto simp: Start_fn_def job_demand_def holds_capacity_def split: if_splits)
  qed simp
qed

section \<open>One scheduler is safe\<close>

locale cluster =
  job_store repo jobs_of repo_ok tn sn +
  capacity_measure tracks amount cap bound good_worker good_request
  for repo :: "'r JobRepository" and jobs_of :: "'r \<Rightarrow> string \<rightharpoonup> Job" and repo_ok :: "'r \<Rightarrow> bool"
    and tn :: "Time \<Rightarrow> Time" and sn :: "string slice \<Rightarrow> string slice"
    and tracks :: "committedResources \<Rightarrow> int \<Rightarrow> bool" and amount :: "ResourceRequest \<Rightarrow> int"
    and cap :: "Worker \<Rightarrow> int" and bound :: int and good_worker :: "Worker \<Rightarrow> bool"
    and good_request :: "ResourceRequest \<Rightarrow> bool" +
  assumes capacity_fields: "same_capacity u v \<Longrightarrow> cap u = cap v \<and> good_worker u = good_worker v"
begin

definition cluster_inv :: "Worker list \<Rightarrow> 'r cluster \<Rightarrow> bool" where
  "cluster_inv fleet = (\<lambda>(r, pend). repo_ok r
     \<and> (\<forall>i j. jobs_of r i = Some j \<longrightarrow> good_request (job_Resources j))
     \<and> (\<forall>a \<in> set (pend 0). jobs_of r (a_JobID a) \<noteq> None)
     \<and> (\<forall>v \<in> set fleet. demand_map amount (w_ID v) (jobs_of r)
          + pending_amount amount (w_ID v) (jobs_of r) (pend 0) \<le> cap v))"

lemma snapshot:
  assumes "repo_ok r" "ListActive repo r = Inr js"
  shows "distinct (map job_ID js)" "j \<in> set js \<Longrightarrow> jobs_of r (job_ID j) = Some j"
    "finite (holding (jobs_of r))" "demand amount k js = demand_map amount k (jobs_of r)"
proof -
  obtain xs where "repo_ListActive repo r = Inr xs" and d: "distinct (map job_ID xs)"
    and mem: "\<And>j. j \<in> set xs \<longleftrightarrow> jobs_of r (job_ID j) = Some j \<and> \<not> Terminal (job_State j)"
    using active_list [OF assms(1)] by metis
  with assms(2) have xs: "js = xs" by (simp add: ListActive_def)
  show "distinct (map job_ID js)" "j \<in> set js \<Longrightarrow> jobs_of r (job_ID j) = Some j"
    using d mem xs by simp_all
  show "finite (holding (jobs_of r))" "demand amount k js = demand_map amount k (jobs_of r)"
    unfolding xs by (rule demand_snapshot [OF d mem stored_id [OF assms(1)]]; assumption)+
qed

lemma finite_holding: "repo_ok r \<Longrightarrow> finite (holding (jobs_of r))"
  using snapshot(3) active_law [of r] by (fastforce simp: ListActive_def)

lemma job_demand_norm [simp]: "job_demand f k (norm_job tn sn j) = job_demand f k j"
  by (simp add: job_demand_def)

text \<open>A write to one stored job that keeps its request and does not raise its demand.\<close>

lemma inv_write:
  assumes "cluster_inv fleet (r, pend)" "jobs_of r i = Some j" "repo_ok r'" "jobs_of r' = (jobs_of r)(i \<mapsto> j')"
    "job_Resources j' = job_Resources j"
    "\<And>v. v \<in> set fleet \<Longrightarrow> job_demand amount (w_ID v) j' + pending_amount amount (w_ID v) (jobs_of r) as
       \<le> job_demand amount (w_ID v) j + pending_amount amount (w_ID v) (jobs_of r) (pend 0)"
    "set as \<subseteq> set (pend 0)"
  shows "cluster_inv fleet (r', pend(0 := as))"
proof -
  from assms(1) have inv: "repo_ok r" "\<And>i j. jobs_of r i = Some j \<Longrightarrow> good_request (job_Resources j)"
    "\<And>a. a \<in> set (pend 0) \<Longrightarrow> jobs_of r (a_JobID a) \<noteq> None"
    "\<And>v. v \<in> set fleet \<Longrightarrow> demand_map amount (w_ID v) (jobs_of r)
       + pending_amount amount (w_ID v) (jobs_of r) (pend 0) \<le> cap v"
    by (auto simp: cluster_inv_def)
  have dem: "demand_map amount k (jobs_of r') = demand_map amount k (jobs_of r) - job_demand amount k j + job_demand amount k j'"
    for k using demand_map_upd [OF finite_holding [OF inv(1)], of amount k i j'] assms(2,4) by simp
  have pen: "pending_amount amount k (jobs_of r') as = pending_amount amount k (jobs_of r) as" for k
    by (rule pending_amount_cong) (use assms(2,4,5) in \<open>simp add: stored_amount_def\<close>)
  have "demand_map amount (w_ID v) (jobs_of r') + pending_amount amount (w_ID v) (jobs_of r') as \<le> cap v"
    if "v \<in> set fleet" for v
    using inv(4) [OF that] assms(6) [OF that] unfolding dem pen by linarith
  moreover have "\<forall>i j. jobs_of r' i = Some j \<longrightarrow> good_request (job_Resources j)"
    using inv(2) assms(2,4,5) by (auto split: if_splits)
  moreover have "\<forall>a \<in> set as. jobs_of r' (a_JobID a) \<noteq> None" using inv(3) assms(4,7) by auto
  ultimately show ?thesis using assms(3) by (simp add: cluster_inv_def)
qed

lemma inv_submit:
  assumes "cluster_inv fleet (r, pend)" "repo_Get repo newID r = Inl Jobs_ErrNotFound"
    "submit_ranges i" "good_request (in_Resources i)" "Submit repo newID now i r = (x, r')"
  shows "cluster_inv fleet (r', pend)"
proof -
  from assms(1) have inv: "repo_ok r" "\<forall>i j. jobs_of r i = Some j \<longrightarrow> good_request (job_Resources j)"
    "\<forall>a \<in> set (pend 0). jobs_of r (a_JobID a) \<noteq> None"
    "\<forall>v \<in> set fleet. demand_map amount (w_ID v) (jobs_of r)
       + pending_amount amount (w_ID v) (jobs_of r) (pend 0) \<le> cap v"
    by (auto simp: cluster_inv_def)
  have new: "jobs_of r newID = None" by (rule unused_id [OF inv(1) assms(2)])
  from inv(1) assms(3) new assms(5) show ?thesis
  proof (cases rule: Submit_effect)
    case created
    define job where "job = norm_job tn sn (submitted_job newID now i)"
    have r': "repo_ok r'" "jobs_of r' = (jobs_of r)(newID \<mapsto> job)" using created by (simp_all add: job_def)
    have "job_demand amount k job = 0" for k by (simp add: job_def job_demand_def holds_capacity_def)
    then have dem: "demand_map amount k (jobs_of r') = demand_map amount k (jobs_of r)" for k
      using demand_map_upd [OF finite_holding [OF inv(1)], of amount k newID job] new r'(2) by simp
    have pen: "pending_amount amount k (jobs_of r') (pend 0) = pending_amount amount k (jobs_of r) (pend 0)" for k
      by (rule pending_amount_cong) (use new inv(3) r'(2) in auto)
    have "job_Resources job = in_Resources i" by (simp add: job_def)
    then show ?thesis
      unfolding cluster_inv_def prod.case dem pen using inv r' assms(4) by auto
  qed (use assms(1) in simp_all)
qed

lemma inv_call:
  assumes "cluster_inv fleet (r, pend)" "\<not> is_assign f" "job_call repo f k r = (x, r')"
  shows "cluster_inv fleet (r', pend)"
proof -
  have ok: "repo_ok r" using assms(1) by (simp add: cluster_inv_def)
  have u: "repo_Update repo k (op_fn f) r = (x, r')" using assms(3) by (simp add: job_call_update)
  from ok op_fn_keeps_identity u show ?thesis
  proof (cases rule: update_store)
    case (written j j')
    note j = written(1,2,4,5)
    have good: "0 \<le> amount (job_Resources j)" using assms(1) j(1) amount_nonneg by (auto simp: cluster_inv_def)
    have req: "job_Resources j' = job_Resources j"
      using op_fn_same_request [OF j(2)] by (simp add: same_request_def)
    have dem: "job_demand amount i (norm_job tn sn j') \<le> job_demand amount i j" for i
      using op_demand [where f = f and amount = amount, OF j(2) assms(2) good, of i] by simp
    have "cluster_inv fleet (r', pend(0 := pend 0))"
      by (rule inv_write [OF assms(1) j(1,3,4)]) (use req dem in simp_all)
    then show ?thesis by simp
  qed (use assms(1) in simp)
qed

lemma inv_plan:
  assumes fleet_ids: "distinct (map w_ID fleet)" and fleet_good: "\<And>v. v \<in> set fleet \<Longrightarrow> good_worker v"
  assumes "cluster_inv fleet (r, pend)" "pend 0 = []" "ListActive repo r = Inr js"
    "distinct (map w_ID ws)" "\<forall>u \<in> set ws. \<exists>v \<in> set fleet. same_capacity u v"
  shows "cluster_inv fleet (r, pend(0 := Plan js ws now))"
proof -
  let ?q = "sortByEffectivePriority now (filter (\<lambda>j. job_State j = StateQueued) js)"
  from assms(3,4) have inv: "repo_ok r" "\<forall>i j. jobs_of r i = Some j \<longrightarrow> good_request (job_Resources j)"
    "\<forall>v \<in> set fleet. demand_map amount (w_ID v) (jobs_of r) \<le> cap v"
    by (auto simp: cluster_inv_def)
  note snap = snapshot [OF inv(1) assms(5)]
  have good: "\<forall>j \<in> set js. good_request (job_Resources j)" using snap(2) inv(2) by blast
  have q: "distinct (map job_ID ?q)" "\<forall>j \<in> set ?q. jobs_of r (job_ID j) = Some j"
    using snap(1,2) by (auto simp: sortByEffectivePriority_def distinct_map_filter)
  have pen: "pending_amount amount k (jobs_of r) (Plan js ws now) =
      sum_list (map (placed_amount amount k (Plan js ws now)) ?q)" for k
    unfolding Plan_def by (rule pending_amount_plan [OF q(1) assms(6) q(2)])
  have "demand_map amount (w_ID v) (jobs_of r) + pending_amount amount (w_ID v) (jobs_of r) (Plan js ws now) \<le> cap v"
    if v: "v \<in> set fleet" for v
  proof (cases "w_ID v \<in> w_ID ` set ws")
    case True
    then obtain u where u: "u \<in> set ws" "w_ID u = w_ID v" by auto
    with assms(7) obtain v' where v': "v' \<in> set fleet" "same_capacity u v'" by blast
    have "w_ID v' = w_ID v" using v'(2) u(2) by (simp add: same_capacity_def)
    then have "v' = v" by (rule distinct_map_inj [OF fleet_ids v'(1) v])
    with capacity_fields [OF v'(2)] fleet_good [OF v] have cap: "good_worker u" "cap u = cap v" by simp_all
    have "demand amount (w_ID u) js \<le> cap u" using inv(3) v snap(4) u(2) cap by simp
    from Plan_load [OF snap(1) assms(6) u(1) cap(1) good this, of now]
    show ?thesis unfolding pen using demand_after [OF snap(1), of "w_ID v" ws now] u(2) cap(2) snap(4) by simp
  next
    case False
    have "target (Plan js ws now) i \<noteq> Some (w_ID v)" for i
    proof
      assume "target (Plan js ws now) i = Some (w_ID v)"
      then obtain a where "a \<in> set (Plan js ws now)" "a_WorkerID a = w_ID v"
        unfolding target_def by (auto dest!: map_of_SomeD)
      then obtain u where "u \<in> set ws" "w_ID u = w_ID v"
        using plan_loop_active [of a ws ?q "committedByWorker js"] unfolding Plan_def by auto
      then show False using False by (metis imageI)
    qed
    then have "placed_amount amount (w_ID v) (Plan js ws now) = (\<lambda>_. 0)"
      by (simp add: placed_amount_def fun_eq_iff)
    then show ?thesis unfolding pen using inv(3) v by (simp add: sum_list_0)
  qed
  moreover have "\<forall>a \<in> set (Plan js ws now). jobs_of r (a_JobID a) \<noteq> None"
  proof
    fix a assume "a \<in> set (Plan js ws now)"
    then have "a_JobID a \<in> set (map a_JobID (plan_loop ws ?q (committedByWorker js)))"
      by (simp add: Plan_def)
    then obtain j where "j \<in> set ?q" "a_JobID a = job_ID j"
      using plan_loop_ids [of ws ?q "committedByWorker js"] by blast
    then show "jobs_of r (a_JobID a) \<noteq> None" using q(2) by simp
  qed
  ultimately show ?thesis using inv by (simp add: cluster_inv_def)
qed

lemma inv_assign:
  assumes "cluster_inv fleet (r, pend)" "pend 0 = a # as" "AssignToWorkers repo (a_JobID a) [a_WorkerID a] r = (x, r')"
  shows "cluster_inv fleet (r', pend(0 := as))"
proof -
  from assms(1,2) have ok: "repo_ok r" and good: "\<And>i j. jobs_of r i = Some j \<Longrightarrow> 0 \<le> amount (job_Resources j)"
    using amount_nonneg by (auto simp: cluster_inv_def)
  have nonneg: "0 \<le> stored_amount amount (jobs_of r i)" for i
    using good by (auto simp: stored_amount_def split: option.splits)
  from ok assms(3) show ?thesis
  proof (cases rule: assign_effect)
    case (unchanged e)
    have "pending_amount amount k (jobs_of r) as \<le> pending_amount amount k (jobs_of r) (pend 0)" for k
      using nonneg [of "a_JobID a"] assms(2) by simp
    moreover have "demand_map amount (w_ID v) (jobs_of r) + pending_amount amount (w_ID v) (jobs_of r) (pend 0) \<le> cap v"
      if "v \<in> set fleet" for v
      using assms(1) that unfolding cluster_inv_def prod.case by blast
    ultimately have "demand_map amount (w_ID v) (jobs_of r) + pending_amount amount (w_ID v) (jobs_of r) as \<le> cap v"
      if "v \<in> set fleet" for v
      using that by (meson add_left_mono order_trans)
    then show ?thesis using assms(1,2) unchanged(2) by (simp add: cluster_inv_def)
  next
    case won: (written j)
    have dem: "job_demand amount k (norm_job tn sn (assigned_job (a_WorkerID a) j)) =
        (if a_WorkerID a = k then amount (job_Resources j) else 0)" "job_demand amount k j = 0" for k
      using won(2) by (simp_all add: job_demand_def assigned_job_def holds_capacity_def)
    show ?thesis
    proof (rule inv_write [OF assms(1) won(1,4,5)])
      show "job_Resources (norm_job tn sn (assigned_job (a_WorkerID a) j)) = job_Resources j"
        by (simp add: assigned_job_def)
      show "set as \<subseteq> set (pend 0)" using assms(2) by auto
      fix v
      show "job_demand amount (w_ID v) (norm_job tn sn (assigned_job (a_WorkerID a) j))
          + pending_amount amount (w_ID v) (jobs_of r) as
        \<le> job_demand amount (w_ID v) j + pending_amount amount (w_ID v) (jobs_of r) (pend 0)"
        unfolding dem using won(1) assms(2) by (simp add: stored_amount_def)
    qed
  qed
qed

lemma pending_nonneg:
  assumes "cluster_inv fleet (r, pend)"
  shows "0 \<le> pending_amount amount k (jobs_of r) (pend 0)"
  unfolding pending_amount_def using assms amount_nonneg
  by (intro sum_list_nonneg) (auto simp: cluster_inv_def stored_amount_def split: option.splits)

lemma inv_abandon:
  assumes "cluster_inv fleet (r, pend)"
  shows "cluster_inv fleet (r, pend(s := []))"
proof (cases "s = 0")
  case True
  have "demand_map amount (w_ID v) (jobs_of r) \<le> cap v" if "v \<in> set fleet" for v
  proof -
    have "demand_map amount (w_ID v) (jobs_of r) + pending_amount amount (w_ID v) (jobs_of r) (pend 0) \<le> cap v"
      using assms that by (simp add: cluster_inv_def)
    with pending_nonneg [OF assms, of "w_ID v"] show ?thesis by linarith
  qed
  with assms True show ?thesis by (simp add: cluster_inv_def)
next
  case False
  then show ?thesis using assms by (simp add: cluster_inv_def)
qed

lemma cluster_step_inv:
  assumes fleet: "distinct (map w_ID fleet)" "\<And>v. v \<in> set fleet \<Longrightarrow> good_worker v"
    and step: "cluster_step repo good_request fleet 1 c c'" "cluster_inv fleet c"
  shows "cluster_inv fleet c'"
  using step
proof (induction rule: cluster_step.induct)
  case (cl_submit newID r i now x r' pend)
  then show ?case using inv_submit by blast
next
  case (cl_call f k r x r' pend)
  then show ?case using inv_call by blast
next
  case (cl_plan s pend r js ws now)
  then show ?case using inv_plan [OF fleet, where pend = pend and js = js and ws = ws] by simp
next
  case (cl_assign s pend a as r x r')
  then show ?case using inv_assign [where fleet = fleet and pend = pend] by simp
next
  case (cl_abandon r pend s)
  then show ?case by (rule inv_abandon)
qed

lemma cluster_run_safe:
  assumes fleet: "distinct (map w_ID fleet)" "\<And>v. v \<in> set fleet \<Longrightarrow> good_worker v"
    and run: "(cluster_step repo good_request fleet 1)\<^sup>*\<^sup>* (r0, \<lambda>_. []) (r, pend)" "repo_ok r0"
    "jobs_of r0 = Map.empty" "v \<in> set fleet"
  shows "demand_map amount (w_ID v) (jobs_of r) \<le> cap v"
proof -
  have "cluster_inv fleet (r0, \<lambda>_. [])"
    using run(2,3) cap_bound [OF fleet(2)] by (auto simp: cluster_inv_def demand_map_def holding_def)
  with run(1) have inv: "cluster_inv fleet (r, pend)"
    by (induction rule: rtranclp_induct) (auto intro: cluster_step_inv [OF fleet])
  from pending_nonneg [OF this, of "w_ID v"] inv run(4) show ?thesis by (fastforce simp: cluster_inv_def)
qed

end

interpretation mem_memory: cluster memory_repository mem_jobs mem_ok "\<lambda>t. t" "\<lambda>s. s"
    "\<lambda>c n. c_memoryBytes c = n" MemoryBytes w_MemoryCapacityBytes
    "2 ^ 63 - 1" mem_worker mem_request
  by unfold_locales (simp add: same_capacity_def mem_worker_def)

interpretation mem_gpus: cluster memory_repository mem_jobs mem_ok "\<lambda>t. t" "\<lambda>s. s"
    "\<lambda>c n. c_gpuCount c = n" GPUCount "\<lambda>v. int (length (elems (w_GPUs v)))"
    "2 ^ 62" gpu_worker gpu_request
  by unfold_locales (simp add: same_capacity_def gpu_worker_def)

interpretation mem_cpu: cluster memory_repository mem_jobs mem_ok "\<lambda>t. t" "\<lambda>s. s"
    "\<lambda>c n. c_cpuCores c = fx n" cpu_units "\<lambda>v. units (w_CPUCapacity v)"
    "2 ^ 52" cpu_worker cpu_request
  by unfold_locales (simp add: same_capacity_def cpu_worker_def)

end
