(* ===== verification/Job_Api.thy ===== *)
theory Job_Api
  imports Job_Recovery
begin

text \<open>
  The gRPC job service: \<^verbatim>\<open>internal/api/convert.go\<close> and \<^verbatim>\<open>job_server.go\<close>.  The generated message types
  are records of the fields the code sets or gets; a nil message pointer is \<open>None\<close>, an enum is its
  number, which on the wire can be any 32-bit integer.  A handler returns its answer and the lines it
  logs, each a message with its attributes.
\<close>

section \<open>Errors as text and as status\<close>

fun err_Error :: "goerr \<Rightarrow> string" where
  "err_Error Jobs_ErrNotFound = ''job not found''"
| "err_Error Jobs_ErrInvalidState = ''job is not in a valid state for this operation''"
| "err_Error Jobs_ErrRetryLimitExceeded = ''retry limit exceeded''"
| "err_Error (Jobs_ValidationError ps) = ''invalid request: '' @ strings_Join ps ''; ''"
| "err_Error Workers_ErrNotFound = ''worker not found''"
| "err_Error Workers_ErrInvalidState = ''worker is not in a valid state for this operation''"
| "err_Error (Workers_ValidationError ps) = ''invalid request: '' @ strings_Join ps ''; ''"
| "err_Error ErrLeaseNotFound = ''leases: lease not found (already expired)''"
| "err_Error Rpc_ErrLeaseNotFound = ''etcdserver: requested lease not found''"
| "err_Error Pgx_ErrNoRows = ''no rows in result set''"
| "err_Error (Plain s) = s"
| "err_Error (Wrap p e s) = p @ err_Error e @ s"

datatype Code = InvalidArgument | NotFound | FailedPrecondition | Internal

record Status_error =
  st_code :: Code
  st_message :: string

definition status_Error :: "Code \<Rightarrow> string \<Rightarrow> Status_error" where
  "status_Error c m = \<lparr>st_code = c, st_message = m\<rparr>"

type_synonym log_line = "string \<times> (string \<times> string) list"
type_synonym 'a reply = "(Status_error + 'a) \<times> log_line list"

definition unhandled :: "goerr \<Rightarrow> Status_error \<times> log_line list" where
  "unhandled e = (status_Error Internal ''internal error'', [(''unhandled internal error'', [(''error'', err_Error e)])])"

definition toStatus :: "goerr \<Rightarrow> Status_error \<times> log_line list" where
  "toStatus e =
     (case errors_As_Jobs_ValidationError e of
        Some ps \<Rightarrow> (status_Error InvalidArgument (err_Error (Jobs_ValidationError ps)), [])
      | None \<Rightarrow>
          if errors_Is e Jobs_ErrNotFound then (status_Error NotFound (err_Error e), [])
          else if errors_Is e Jobs_ErrInvalidState then (status_Error FailedPrecondition (err_Error e), [])
          else if errors_Is e Jobs_ErrRetryLimitExceeded then (status_Error FailedPrecondition (err_Error e), [])
          else unhandled e)"

text \<open>\<^verbatim>\<open>return nil, s.toStatus(err)\<close>.\<close>

definition failed :: "Status_error \<times> log_line list \<Rightarrow> 'a reply" where
  "failed st = (Inl (fst st), snd st)"

definition answer :: "'a \<Rightarrow> 'a reply" where
  "answer x = (Inr x, [])"

definition refuse :: "string \<Rightarrow> 'a reply" where
  "refuse m = (Inl (status_Error InvalidArgument m), [])"

section \<open>convert.go\<close>

definition pb_job_states :: "(int \<times> State) list" where
  "pb_job_states =
     [(1, StateQueued), (2, StateScheduled), (3, StateRunning), (4, StateCheckpointing), (5, StateSucceeded),
      (6, StateFailed), (7, StateRetrying), (8, StateCancelRequested), (9, StateCancelled), (10, StatePreempted),
      (11, StateLost)]"

definition invert :: "('a \<times> 'b) list \<Rightarrow> ('b \<times> 'a) list" where
  "invert m = map (\<lambda>(k, v). (v, k)) m"

text \<open>Indexing a map at a missing key gives the zero value.\<close>

definition pbStateToDomain :: "int \<Rightarrow> State" where
  "pbStateToDomain n = (case map_of pb_job_states n of None \<Rightarrow> StateZero | Some s \<Rightarrow> s)"

definition domainStateToPB :: "State \<Rightarrow> int" where
  "domainStateToPB s = (case map_of (invert pb_job_states) s of None \<Rightarrow> 0 | Some n \<Rightarrow> n)"

record pbResourceRequest =
  pbr_gpu_count :: int
  pbr_min_gpu_memory_bytes :: int
  pbr_cpu_cores :: float64
  pbr_memory_bytes :: int

record pbTimestamp =
  ts_seconds :: int
  ts_nanos :: int

text \<open>\<^verbatim>\<open>timestamppb.New\<close>.\<close>

definition timestamppb_New :: "Time \<Rightarrow> pbTimestamp" where
  "timestamppb_New t = \<lparr>ts_seconds = t div 10 ^ 9, ts_nanos = t mod 10 ^ 9\<rparr>"

record pbJob =
  pbj_id :: string
  pbj_name :: string
  pbj_owner :: string
  pbj_image :: string
  pbj_command :: "string slice"
  pbj_resources :: "pbResourceRequest option"
  pbj_priority :: int
  pbj_preemptible :: bool
  pbj_retry_limit :: int
  pbj_current_attempt :: int
  pbj_timeout_seconds :: int
  pbj_checkpoint_interval_seconds :: int
  pbj_state :: int
  pbj_assigned_worker_ids :: "string slice"
  pbj_failure_reason :: string
  pbj_created_at :: "pbTimestamp option"
  pbj_started_at :: "pbTimestamp option"
  pbj_completed_at :: "pbTimestamp option"
  pbj_failed_at :: "pbTimestamp option"

definition resourcesToDomain :: "pbResourceRequest option \<Rightarrow> ResourceRequest" where
  "resourcesToDomain r =
     (case r of
        None \<Rightarrow> zero_resources
      | Some r \<Rightarrow> \<lparr>GPUCount = pbr_gpu_count r, MinGPUMemoryBytes = pbr_min_gpu_memory_bytes r,
                   CPUCores = pbr_cpu_cores r, MemoryBytes = pbr_memory_bytes r\<rparr>)"

definition resourcesToProto :: "ResourceRequest \<Rightarrow> pbResourceRequest" where
  "resourcesToProto r =
     \<lparr>pbr_gpu_count = GPUCount r, pbr_min_gpu_memory_bytes = MinGPUMemoryBytes r,
      pbr_cpu_cores = CPUCores r, pbr_memory_bytes = MemoryBytes r\<rparr>"

definition jobToProto :: "Job \<Rightarrow> pbJob" where
  "jobToProto j =
     \<lparr>pbj_id = job_ID j, pbj_name = job_Name j, pbj_owner = job_Owner j, pbj_image = job_Image j,
      pbj_command = job_Command j, pbj_resources = Some (resourcesToProto (job_Resources j)),
      pbj_priority = job_Priority j, pbj_preemptible = job_Preemptible j,
      pbj_retry_limit = job_RetryLimit j, pbj_current_attempt = job_CurrentAttempt j,
      pbj_timeout_seconds = job_TimeoutSeconds j,
      pbj_checkpoint_interval_seconds = job_CheckpointIntervalSeconds j,
      pbj_state = domainStateToPB (job_State j), pbj_assigned_worker_ids = job_AssignedWorkerIDs j,
      pbj_failure_reason = job_FailureReason j,
      pbj_created_at = Some (timestamppb_New (job_CreatedAt j)),
      pbj_started_at = map_option timestamppb_New (job_StartedAt j),
      pbj_completed_at = map_option timestamppb_New (job_CompletedAt j),
      pbj_failed_at = map_option timestamppb_New (job_FailedAt j)\<rparr>"

section \<open>job_server.go\<close>

record SubmitJobRequest =
  sj_name :: string
  sj_owner :: string
  sj_image :: string
  sj_command :: "string slice"
  sj_resources :: "pbResourceRequest option"
  sj_priority :: int
  sj_preemptible :: bool
  sj_retry_limit :: int
  sj_timeout_seconds :: int
  sj_checkpoint_interval_seconds :: int
  sj_submission_id :: string

record ListJobsRequest =
  lj_page_size :: int
  lj_page_token :: string
  lj_state_filter :: int

record ListJobsResponse =
  ljr_jobs :: "pbJob list"
  ljr_next_page_token :: string

definition submit_input :: "SubmitJobRequest \<Rightarrow> SubmitInput" where
  "submit_input req =
     \<lparr>in_Name = sj_name req, in_Owner = sj_owner req, in_Image = sj_image req, in_Command = sj_command req,
      in_Resources = resourcesToDomain (sj_resources req), in_Priority = sj_priority req,
      in_Preemptible = sj_preemptible req, in_RetryLimit = sj_retry_limit req,
      in_TimeoutSeconds = sj_timeout_seconds req,
      in_CheckpointIntervalSeconds = sj_checkpoint_interval_seconds req,
      in_SubmissionID = sj_submission_id req\<rparr>"

definition SubmitJob :: "'r JobRepository \<Rightarrow> string \<Rightarrow> Time \<Rightarrow> SubmitJobRequest \<Rightarrow> 'r \<Rightarrow> pbJob reply \<times> 'r" where
  "SubmitJob repo newID now req r =
     (case Submit repo newID now (submit_input req) r of
        (Inl e, r') \<Rightarrow> (failed (toStatus e), r')
      | (Inr job, r') \<Rightarrow> (answer (jobToProto job), r'))"

definition GetJob :: "'r JobRepository \<Rightarrow> string \<Rightarrow> 'r \<Rightarrow> pbJob reply" where
  "GetJob repo ident r =
     (if ident = [] then refuse ''id must not be empty''
      else case Get repo ident r of
             Inl e \<Rightarrow> failed (toStatus e)
           | Inr job \<Rightarrow> answer (jobToProto job))"

definition list_options :: "ListJobsRequest \<Rightarrow> ListOptions" where
  "list_options req =
     \<lparr>opt_PageSize = lj_page_size req, opt_PageToken = lj_page_token req,
      opt_StateFilter = (if lj_state_filter req \<noteq> 0 then pbStateToDomain (lj_state_filter req) else StateZero)\<rparr>"

definition ListJobs :: "'r JobRepository \<Rightarrow> ListJobsRequest \<Rightarrow> 'r \<Rightarrow> ListJobsResponse reply" where
  "ListJobs repo req r =
     (case List_jobs repo (list_options req) r of
        Inl e \<Rightarrow> failed (toStatus e)
      | Inr result \<Rightarrow>
          answer \<lparr>ljr_jobs = map jobToProto (res_Jobs result), ljr_next_page_token = res_NextPageToken result\<rparr>)"

definition CancelJob :: "'r JobRepository \<Rightarrow> Time \<Rightarrow> string \<Rightarrow> 'r \<Rightarrow> pbJob reply \<times> 'r" where
  "CancelJob repo now ident r =
     (if ident = [] then (refuse ''id must not be empty'', r)
      else case Cancel repo now ident r of
             (Inl e, r') \<Rightarrow> (failed (toStatus e), r')
           | (Inr job, r') \<Rightarrow> (answer (jobToProto job), r'))"

definition RetryJob :: "'r JobRepository \<Rightarrow> string \<Rightarrow> 'r \<Rightarrow> pbJob reply \<times> 'r" where
  "RetryJob repo ident r =
     (if ident = [] then (refuse ''id must not be empty'', r)
      else case Retry repo ident r of
             (Inl e, r') \<Rightarrow> (failed (toStatus e), r')
           | (Inr job, r') \<Rightarrow> (answer (jobToProto job), r'))"

text \<open>The reports of a worker carry its identifier too; no handler reads it.\<close>

definition ReportJobStarted :: "'r JobRepository \<Rightarrow> Time \<Rightarrow> string \<Rightarrow> string \<Rightarrow> 'r \<Rightarrow> pbJob reply \<times> 'r" where
  "ReportJobStarted repo now job_id worker_id r =
     (if job_id = [] then (refuse ''job_id must not be empty'', r)
      else case Start repo now job_id r of
             (Inl e, r') \<Rightarrow> (failed (toStatus e), r')
           | (Inr job, r') \<Rightarrow> (answer (jobToProto job), r'))"

definition ReportJobCompleted ::
    "'r JobRepository \<Rightarrow> Time \<Rightarrow> string \<Rightarrow> string \<Rightarrow> int \<Rightarrow> 'r \<Rightarrow> pbJob reply \<times> 'r" where
  "ReportJobCompleted repo now job_id worker_id exit_code r =
     (if job_id = [] then (refuse ''job_id must not be empty'', r)
      else case Complete repo now job_id r of
             (Inl e, r') \<Rightarrow> (failed (toStatus e), r')
           | (Inr job, r') \<Rightarrow> (answer (jobToProto job), r'))"

definition ReportJobFailed ::
    "'r JobRepository \<Rightarrow> Time \<Rightarrow> string \<Rightarrow> string \<Rightarrow> string \<Rightarrow> 'r \<Rightarrow> pbJob reply \<times> 'r" where
  "ReportJobFailed repo now job_id worker_id failure_reason r =
     (if job_id = [] then (refuse ''job_id must not be empty'', r)
      else case Fail repo now job_id failure_reason r of
             (Inl e, r') \<Rightarrow> (failed (toStatus e), r')
           | (Inr job, r') \<Rightarrow> (answer (jobToProto job), r'))"

definition ReportJobStopped :: "'r JobRepository \<Rightarrow> Time \<Rightarrow> string \<Rightarrow> string \<Rightarrow> 'r \<Rightarrow> pbJob reply \<times> 'r" where
  "ReportJobStopped repo now job_id worker_id r =
     (if job_id = [] then (refuse ''job_id must not be empty'', r)
      else case ReportStopped repo now job_id r of
             (Inl e, r') \<Rightarrow> (failed (toStatus e), r')
           | (Inr job, r') \<Rightarrow> (answer (jobToProto job), r'))"

section \<open>What the handlers answer\<close>

text \<open>The handlers that change one stored job, by name, with the call of the job service each stands for.\<close>

datatype api_op =
    ApiCancel Time
  | ApiRetry
  | ApiStarted Time string
  | ApiCompleted Time string int
  | ApiFailed Time string string
  | ApiStopped Time string

fun api_call :: "'r JobRepository \<Rightarrow> api_op \<Rightarrow> string \<Rightarrow> 'r \<Rightarrow> pbJob reply \<times> 'r" where
  "api_call repo (ApiCancel t) k r = CancelJob repo t k r"
| "api_call repo ApiRetry k r = RetryJob repo k r"
| "api_call repo (ApiStarted t w) k r = ReportJobStarted repo t k w r"
| "api_call repo (ApiCompleted t w c) k r = ReportJobCompleted repo t k w c r"
| "api_call repo (ApiFailed t w reason) k r = ReportJobFailed repo t k w reason r"
| "api_call repo (ApiStopped t w) k r = ReportJobStopped repo t k w r"

fun api_job_op :: "api_op \<Rightarrow> job_op" where
  "api_job_op (ApiCancel t) = OpCancel t"
| "api_job_op ApiRetry = OpRetry"
| "api_job_op (ApiStarted t w) = OpStart t"
| "api_job_op (ApiCompleted t w c) = OpComplete t"
| "api_job_op (ApiFailed t w reason) = OpFail reason t"
| "api_job_op (ApiStopped t w) = OpStopped t"

fun api_code :: "'a reply \<Rightarrow> Code option" where
  "api_code (Inl st, logs) = Some (st_code st)"
| "api_code (Inr x, logs) = None"

lemmas reply_defs = failed_def answer_def refuse_def status_Error_def

lemmas handler_defs = CancelJob_def RetryJob_def ReportJobStarted_def ReportJobCompleted_def
  ReportJobFailed_def ReportJobStopped_def

lemma api_call_nonempty:
  "k \<noteq> [] \<Longrightarrow> api_call repo a k r =
    (case repo_Update repo k (op_fn (api_job_op a)) r of
       (Inl e, r') \<Rightarrow> (failed (toStatus e), r') | (Inr job, r') \<Rightarrow> (answer (jobToProto job), r'))"
  by (cases a) (simp_all add: handler_defs service_defs)

lemma api_call_empty: "\<exists>m. api_call repo a [] r = (refuse m, r)"
  by (cases a) (auto simp: handler_defs)

lemma toStatus_not_found [simp]: "toStatus Jobs_ErrNotFound = (status_Error NotFound ''job not found'', [])"
  by (simp add: toStatus_def)

lemma op_fn_status:
  assumes "op_fn f j = Inl e"
  shows "toStatus e = (status_Error FailedPrecondition (err_Error e), [])"
proof -
  have "(\<exists>d. e = invalid_state d) \<or> (\<exists>d. e = Wrap [] Jobs_ErrRetryLimitExceeded d)"
    using assms by (cases f) (auto simp: service_fn_defs split: if_splits State.splits)
  then show ?thesis by (auto simp: toStatus_def invalid_state_def)
qed

context job_repository
begin

lemma api_outcome:
  assumes "repo_ok r" "k \<noteq> []"
  obtains (missing) "jobs_of r k = None"
      "api_call repo a k r = ((Inl (status_Error NotFound ''job not found''), []), r)"
  | (refused) j e where "jobs_of r k = Some j" "op_fn (api_job_op a) j = Inl e"
      "api_call repo a k r = ((Inl (status_Error FailedPrecondition (err_Error e)), []), r)"
  | (applied) j j' r' where "jobs_of r k = Some j" "op_fn (api_job_op a) j = Inr j'"
      "api_call repo a k r = ((Inr (jobToProto (norm_job tn sn j')), []), r')" "repo_ok r'"
      "jobs_of r' = (jobs_of r)(k \<mapsto> norm_job tn sn j')"
proof -
  obtain x r' where u: "repo_Update repo k (op_fn (api_job_op a)) r = (x, r')" by fastforce
  note c = api_call_nonempty [OF assms(2), of repo a r]
  from assms(1) op_fn_keeps_identity u show ?thesis
  proof (cases rule: update_cases)
    case missing
    then show ?thesis using that(1) c u by (simp add: failed_def)
  next
    case (error j e)
    then show ?thesis using that(2) c u by (simp add: failed_def op_fn_status [OF error(2)])
  next
    case (ok j j')
    then show ?thesis using that(3) c u by (simp add: answer_def)
  qed
qed

end

text \<open>Enumerations and times on the wire.\<close>

lemma pbState_domain: "s \<noteq> StateZero \<Longrightarrow> pbStateToDomain (domainStateToPB s) = s"
  by (cases s) (simp_all add: pbStateToDomain_def domainStateToPB_def pb_job_states_def invert_def)

lemma domainState_range: "s \<noteq> StateZero \<Longrightarrow> domainStateToPB s \<in> {1..11}"
  by (cases s) (simp_all add: domainStateToPB_def pb_job_states_def invert_def)

lemma pb_states_decoded:
  "list_all (\<lambda>n. pbStateToDomain n \<noteq> StateZero \<and> domainStateToPB (pbStateToDomain n) = n) [1..11]"
  by code_simp

lemma pb_states_numbers: "fst ` set pb_job_states = {1..11}"
proof -
  have "map fst pb_job_states = [1..11]" by code_simp
  then show ?thesis by (metis set_map set_upto)
qed

lemma pbState_range: "pbStateToDomain n = StateZero \<longleftrightarrow> n \<notin> {1..11}"
proof (cases "n \<in> {1..11}")
  case True
  then show ?thesis using pb_states_decoded by (simp only: list_all_iff set_upto) blast
next
  case False
  then have "map_of pb_job_states n = None" by (simp only: map_of_eq_None_iff pb_states_numbers not_False_eq_True)
  with False show ?thesis by (simp only: pbStateToDomain_def option.case simp_thms not_False_eq_True)
qed

lemma domainState_pb: "n \<in> {1..11} \<Longrightarrow> domainStateToPB (pbStateToDomain n) = n"
  using pb_states_decoded by (simp only: list_all_iff set_upto)

lemma timestamp_exact:
  "ts_seconds (timestamppb_New t) * 10 ^ 9 + ts_nanos (timestamppb_New t) = t"
  "0 \<le> ts_nanos (timestamppb_New t)" "ts_nanos (timestamppb_New t) < 10 ^ 9"
  by (simp_all add: timestamppb_New_def)

lemma resources_roundtrip [simp]: "resourcesToDomain (Some (resourcesToProto q)) = q"
  by (simp add: resourcesToDomain_def resourcesToProto_def)

end
