(* ===== verification/Scheduler_Process.thy ===== *)
theory Scheduler_Process
  imports Cluster Job_Api Service_Config
begin

text \<open>
  The scheduling loop of \<^verbatim>\<open>cmd/scheduler/main.go\<close>.  A run of the loop is given by what its \<^verbatim>\<open>select\<close>
  sees, a tick of the ticker or the end of the leader's context; \<open>clock i\<close> is the time of the \<open>i\<close>-th
  pass.  A pass is a sequence of cluster steps, so what holds of every cluster run holds of the loop.
\<close>

section \<open>Definitions\<close>

definition runPass ::
    "'r JobRepository \<Rightarrow> 'w WorkerRepository \<Rightarrow> 'd DecisionRepository \<Rightarrow> bool \<Rightarrow> Time \<Rightarrow> 'r \<times> 'w \<times> 'd
     \<Rightarrow> log_line list \<times> 'r \<times> 'w \<times> 'd" where
  "runPass repo wrepo drepo preemption now s =
     (case RunOnce repo wrepo drepo preemption now s of
        ((Some e, result), s') \<Rightarrow> ([(''scheduling pass failed'', [(''error'', err_Error e)])], s')
      | ((None, result), s') \<Rightarrow>
          (if Assigned result > 0 \<or> Conflicted result > 0 \<or> Preempted result > 0
           then [(''scheduling pass complete'',
                  [(''considered'', itoa (int (Considered result))), (''assigned'', itoa (int (Assigned result))),
                   (''conflicted'', itoa (int (Conflicted result))), (''preempted'', itoa (int (Preempted result)))])]
           else [], s'))"

datatype selected = Tick | Done

datatype loop_end = LoopReturned | LoopWaiting | LoopPanicked

fun scheduling_ticks ::
    "'r JobRepository \<Rightarrow> 'w WorkerRepository \<Rightarrow> 'd DecisionRepository \<Rightarrow> bool \<Rightarrow> (nat \<Rightarrow> Time) \<Rightarrow> selected list
     \<Rightarrow> nat \<Rightarrow> 'r \<times> 'w \<times> 'd \<Rightarrow> loop_end \<times> log_line list \<times> 'r \<times> 'w \<times> 'd" where
  "scheduling_ticks repo wrepo drepo preemption clock [] i s = (LoopWaiting, [], s)"
| "scheduling_ticks repo wrepo drepo preemption clock (Done # es) i s = (LoopReturned, [], s)"
| "scheduling_ticks repo wrepo drepo preemption clock (Tick # es) i s =
     (case runPass repo wrepo drepo preemption (clock i) s of
        (logs, s') \<Rightarrow>
          (case scheduling_ticks repo wrepo drepo preemption clock es (Suc i) s' of
             (x, logs', s'') \<Rightarrow> (x, logs @ logs', s'')))"

text \<open>\<^verbatim>\<open>time.NewTicker\<close> panics on an interval that is not positive.\<close>

definition runSchedulingLoop ::
    "'r JobRepository \<Rightarrow> 'w WorkerRepository \<Rightarrow> 'd DecisionRepository \<Rightarrow> bool \<Rightarrow> (nat \<Rightarrow> Time) \<Rightarrow> Duration
     \<Rightarrow> selected list \<Rightarrow> 'r \<times> 'w \<times> 'd \<Rightarrow> loop_end \<times> log_line list \<times> 'r \<times> 'w \<times> 'd" where
  "runSchedulingLoop repo wrepo drepo preemption clock interval es s =
     (case runPass repo wrepo drepo preemption (clock 0) s of
        (logs, s') \<Rightarrow>
          (if interval \<le> 0 then (LoopPanicked, logs, s')
           else case scheduling_ticks repo wrepo drepo preemption clock es 1 s' of
                  (x, logs', s'') \<Rightarrow> (x, logs @ logs', s'')))"

text \<open>The callback \<^verbatim>\<open>serve\<close> gives to the election, with the flag behind the route \<^verbatim>\<open>/leader\<close>.\<close>

definition serve_onLeader ::
    "string \<Rightarrow> ('s \<Rightarrow> loop_end \<times> log_line list \<times> 's) \<Rightarrow> bool \<times> 's \<Rightarrow> loop_end \<times> log_line list \<times> bool \<times> 's" where
  "serve_onLeader instanceID loop = (\<lambda>(isLeader, s).
     let became = (''became scheduler leader'', [(''instance_id'', instanceID)])
     in case loop s of
          (LoopReturned, logs, s') \<Rightarrow>
            (LoopReturned, became # logs @ [(''stepped down as scheduler leader'', [])], False, s')
        | (x, logs, s') \<Rightarrow> (x, became # logs, True, s'))"

text \<open>\<^verbatim>\<open>interval := time.Duration(cfg.SchedulingIntervalSeconds) * time.Second\<close> in \<^verbatim>\<open>serve\<close>, a product of
  64-bit integers.\<close>

definition serve_interval :: "Config \<Rightarrow> Duration" where
  "serve_interval cfg = i64 (cfg_SchedulingIntervalSeconds cfg * Second)"

section \<open>A pass is a run of the cluster\<close>

lemma assignments_steps:
  assumes "apply_assignments repo drepo as result (r, d) = (out, r', d')"
  shows "(cluster_step repo good fleet (Suc 0))\<^sup>*\<^sup>* (r, pend(0 := as)) (r', pend(0 := []))"
  using assms
proof (induction as arbitrary: result r d)
  case (Cons a as)
  obtain x r1 where a: "AssignToWorkers repo (a_JobID a) [a_WorkerID a] r = (x, r1)" by fastforce
  have step: "cluster_step repo good fleet (Suc 0) (r, pend(0 := a # as)) (r1, pend(0 := as))"
    using cluster_step.cl_assign [of 0 "Suc 0" "pend(0 := a # as)" a as repo r x r1 good fleet] a by simp
  have give_up: "cluster_step repo good fleet (Suc 0) (r1, pend(0 := as)) (r1, pend(0 := []))"
    using cluster_step.cl_abandon [of repo good fleet "Suc 0" r1 "pend(0 := as)" 0] by simp
  have "r' = r1 \<or> (\<exists>result d. apply_assignments repo drepo as result (r1, d) = (out, r', d'))"
    using Cons.prems a by (auto simp: Let_def split: sum.splits prod.splits option.splits if_splits)
  then have "(cluster_step repo good fleet (Suc 0))\<^sup>*\<^sup>* (r1, pend(0 := as)) (r', pend(0 := []))"
    using give_up Cons.IH by blast
  with step show ?case by (rule converse_rtranclp_into_rtranclp)
qed simp

lemma preemptions_steps:
  assumes "apply_preemptions repo ps result r = (out, r')"
  shows "(cluster_step repo good fleet (Suc 0))\<^sup>*\<^sup>* (r, pend) (r', pend)"
  using assms
proof (induction ps arbitrary: result r)
  case (Cons p ps)
  obtain x r1 where a: "Preempt repo (p_JobID p) (p_Reason p) r = (x, r1)" by fastforce
  have step: "cluster_step repo good fleet (Suc 0) (r, pend) (r1, pend)"
    using cluster_step.cl_call [of "OpPreempt (p_Reason p)" repo "p_JobID p" r x r1] a by simp
  have "r' = r1 \<or> (\<exists>result. apply_preemptions repo ps result r1 = (out, r'))"
    using Cons.prems a by (auto split: sum.splits if_splits)
  then have "(cluster_step repo good fleet (Suc 0))\<^sup>*\<^sup>* (r1, pend) (r', pend)" using Cons.IH by blast
  with step show ?case by (rule converse_rtranclp_into_rtranclp)
qed simp

text \<open>The workers the pass reads have the capacities of the fleet.\<close>

definition fleet_view :: "'w WorkerRepository \<Rightarrow> Worker list \<Rightarrow> 'w \<Rightarrow> bool" where
  "fleet_view wrepo fleet w \<longleftrightarrow>
     (\<forall>ws. WListActive wrepo w = Inr ws \<longrightarrow>
        distinct (map w_ID ws) \<and> (\<forall>u \<in> set ws. \<exists>v \<in> set fleet. same_capacity u v))"

lemma RunOnce_steps:
  assumes run: "RunOnce repo wrepo drepo preemption now (r, w, d) = (out, r', w', d')" and view: "fleet_view wrepo fleet w"
  shows "w' = w" "(cluster_step repo good fleet (Suc 0))\<^sup>*\<^sup>* (r, \<lambda>_. []) (r', \<lambda>_. [])"
proof -
  show w: "w' = w"
    using run by (auto simp: RunOnce_def Let_def split: sum.splits prod.splits option.splits if_splits)
  have idle: "(\<lambda>_. [])(0 := []) = ((\<lambda>_. []) :: nat \<Rightarrow> Assignment list)" by auto
  show "(cluster_step repo good fleet (Suc 0))\<^sup>*\<^sup>* (r, \<lambda>_. []) (r', \<lambda>_. [])"
  proof (cases "ListActive repo r")
    case (Inl e)
    then show ?thesis using run by (simp add: RunOnce_def)
  next
    case js: (Inr js)
    show ?thesis
    proof (cases "WListActive wrepo w")
      case (Inl e)
      then show ?thesis using run js by (simp add: RunOnce_def)
    next
      case ws: (Inr ws)
      let ?as = "Plan js ws now"
      have plan: "cluster_step repo good fleet (Suc 0) (r, \<lambda>_. []) (r, (\<lambda>_. [])(0 := ?as))"
        by (rule cluster_step.cl_plan [where ws = ws]) (use js ws view in \<open>auto simp: fleet_view_def\<close>)
      define res where "res = zero_result\<lparr>Considered := length (filter (\<lambda>j. job_State j = StateQueued) js)\<rparr>"
      obtain o1 r1 d1 where a: "apply_assignments repo drepo ?as res (r, d) = (o1, r1, d1)" by (rule prod_cases3)
      note steps = assignments_steps [OF a, where pend = "\<lambda>_. []" and good = good and fleet = fleet, unfolded idle]
      have "r' = r1 \<or> r' = snd (apply_preemptions repo (PlanPreemptions js ws ?as now) (snd o1) r1)"
        using run js ws a
        by (cases o1; cases "fst o1"; cases preemption;
            cases "apply_preemptions repo (PlanPreemptions js ws ?as now) (snd o1) r1")
          (simp_all add: RunOnce_def Let_def res_def)
      then have "(cluster_step repo good fleet (Suc 0))\<^sup>*\<^sup>* (r1, \<lambda>_. []) (r', \<lambda>_. [])"
        using preemptions_steps by (metis prod.collapse rtranclp.rtrancl_refl)
      with plan steps show ?thesis
        by (meson converse_rtranclp_into_rtranclp rtranclp_trans)
    qed
  qed
qed

lemma runPass_steps:
  assumes "runPass repo wrepo drepo preemption now (r, w, d) = (logs, r', w', d')" "fleet_view wrepo fleet w"
  shows "w' = w \<and> (cluster_step repo good fleet (Suc 0))\<^sup>*\<^sup>* (r, \<lambda>_. []) (r', \<lambda>_. [])"
proof -
  obtain out where "RunOnce repo wrepo drepo preemption now (r, w, d) = (out, r', w', d')"
    using assms(1) by (auto simp: runPass_def split: prod.splits option.splits)
  from RunOnce_steps [OF this assms(2)] show ?thesis by blast
qed

lemma ticks_steps:
  assumes "scheduling_ticks repo wrepo drepo preemption clock es i (r, w, d) = (x, logs, r', w', d')" "fleet_view wrepo fleet w"
  shows "w' = w \<and> (cluster_step repo good fleet (Suc 0))\<^sup>*\<^sup>* (r, \<lambda>_. []) (r', \<lambda>_. [])"
  using assms(1)
proof (induction es arbitrary: i r d logs)
  case (Cons e es)
  show ?case
  proof (cases e)
    case Tick
    obtain l1 r1 w1 d1 where p: "runPass repo wrepo drepo preemption (clock i) (r, w, d) = (l1, r1, w1, d1)"
      by (metis prod_cases4)
    note first = runPass_steps [OF p assms(2), of good]
    then have w1: "w1 = w" by blast
    obtain l2 where "scheduling_ticks repo wrepo drepo preemption clock es (Suc i) (r1, w, d1) = (x, l2, r', w', d')"
      using Cons.prems p Tick w1 by (auto split: prod.splits)
    from Cons.IH [OF this] first show ?thesis by (meson rtranclp_trans)
  qed (use Cons.prems in auto)
qed simp

lemma loop_steps:
  assumes "runSchedulingLoop repo wrepo drepo preemption clock interval es (r, w, d) = (x, logs, r', w', d')"
    "fleet_view wrepo fleet w"
  shows "w' = w \<and> (cluster_step repo good fleet (Suc 0))\<^sup>*\<^sup>* (r, \<lambda>_. []) (r', \<lambda>_. [])"
proof -
  obtain l1 r1 w1 d1 where p: "runPass repo wrepo drepo preemption (clock 0) (r, w, d) = (l1, r1, w1, d1)"
    by (metis prod_cases4)
  note first = runPass_steps [OF p assms(2), of good]
  then have w1: "w1 = w" by blast
  have "(r', w', d') = (r1, w, d1) \<or> (\<exists>x l. scheduling_ticks repo wrepo drepo preemption clock es 1 (r1, w, d1) = (x, l, r', w', d'))"
    using assms(1) p w1 by (auto simp: runSchedulingLoop_def split: prod.splits if_splits)
  then show ?thesis using first ticks_steps [OF _ assms(2), of repo drepo preemption clock es 1 r1 d1 _ _ r' w' d' good]
    by (auto intro: rtranclp_trans)
qed

section \<open>The end of the loop\<close>

lemma ticks_end:
  "fst (scheduling_ticks repo wrepo drepo preemption clock es i s) = (if Done \<in> set es then LoopReturned else LoopWaiting)"
  by (induction es arbitrary: i s rule: list.induct)
    (simp, rename_tac e es i s, case_tac e, auto split: prod.splits, (metis fst_conv)+)

lemma loop_end:
  "fst (runSchedulingLoop repo wrepo drepo preemption clock interval es s) =
     (if interval \<le> 0 then LoopPanicked else if Done \<in> set es then LoopReturned else LoopWaiting)"
  using ticks_end [of repo wrepo drepo preemption clock es 1]
  by (auto simp: runSchedulingLoop_def split: prod.splits) (metis fst_conv)+

text \<open>The flag is up exactly while the loop has not returned.\<close>

lemma serve_onLeader_flag:
  "fst (snd (snd (serve_onLeader instanceID loop (b, s)))) \<longleftrightarrow> fst (loop s) \<noteq> LoopReturned"
  by (auto simp: serve_onLeader_def Let_def split: prod.splits loop_end.splits)

lemma serve_interval_exact:
  assumes "in_i64 (cfg_SchedulingIntervalSeconds cfg)" "0 < cfg_SchedulingIntervalSeconds cfg"
  shows "cfg_SchedulingIntervalSeconds cfg \<le> 9223372036 \<Longrightarrow> serve_interval cfg = cfg_SchedulingIntervalSeconds cfg * Second"
  using assms by (simp add: serve_interval_def i64_def Second_def)

end
