(* ===== verification/Election.thy ===== *)
theory Election
  imports Orion_Prelude
begin

text \<open>
  Leader election, \<^verbatim>\<open>internal/leases/election.go\<close>, run by any number of candidates at once.  \<open>run_step\<close>
  is the control flow of \<^verbatim>\<open>RunElection\<close>, one rule per way through its loop; what it asks of the library
  \<^verbatim>\<open>concurrency\<close> and of etcd are the actions on its arrows.  The locale \<open>election_service\<close> says what
  etcd promises of those actions.
\<close>

section \<open>RunElection\<close>

type_synonym session = nat

text \<open>The last three end a session: the server lets its lease run out, or the candidate resigns or closes.\<close>

datatype etcd_action =
    Opened session
  | Elected session
  | Expired session
  | Resigned session
  | Closed session

text \<open>Where \<^verbatim>\<open>RunElection\<close> is: at the head of the loop, waiting after a failed session, inside
  \<^verbatim>\<open>Campaign\<close>, in the \<^verbatim>\<open>select\<close> of a leader, waiting for \<^verbatim>\<open>onLeader\<close> after the session was lost or
  after the context ended, and returned.\<close>

datatype phase =
    Top | Backoff | Campaigning session | Leading session | Stopping session | Resigning session | Returned

record candidate =
  phase :: phase
  ctx_done :: bool
  leader_running :: bool
  leader_cancelled :: bool
  statuses :: "string list"

definition new_candidate :: candidate where
  "new_candidate = \<lparr>phase = Top, ctx_done = False, leader_running = False, leader_cancelled = False, statuses = []\<rparr>"

definition notify :: "string \<Rightarrow> candidate \<Rightarrow> candidate" where
  "notify status c = c\<lparr>statuses := statuses c @ [status]\<rparr>"

inductive run_step :: "candidate \<Rightarrow> etcd_action list \<Rightarrow> candidate \<Rightarrow> bool" where
  ctx_ends: "run_step c [] (c\<lparr>ctx_done := True, leader_cancelled := True\<rparr>)"
| top_return: "phase c = Top \<Longrightarrow> ctx_done c \<Longrightarrow> run_step c [] (c\<lparr>phase := Returned\<rparr>)"
| session_failed: "phase c = Top \<Longrightarrow> \<not> ctx_done c \<Longrightarrow> run_step c [] (notify ''session-failed'' (c\<lparr>phase := Backoff\<rparr>))"
| session_opened: "phase c = Top \<Longrightarrow> \<not> ctx_done c \<Longrightarrow>
     run_step c [Opened s] (notify ''campaigning'' (c\<lparr>phase := Campaigning s\<rparr>))"
| backoff_over: "phase c = Backoff \<Longrightarrow> run_step c [] (c\<lparr>phase := Top\<rparr>)"
| backoff_return: "phase c = Backoff \<Longrightarrow> ctx_done c \<Longrightarrow> run_step c [] (c\<lparr>phase := Returned\<rparr>)"
| campaign_failed: "phase c = Campaigning s \<Longrightarrow> \<not> ctx_done c \<Longrightarrow>
     run_step c [Closed s] (notify ''campaign-failed'' (c\<lparr>phase := Top\<rparr>))"
| campaign_return: "phase c = Campaigning s \<Longrightarrow> ctx_done c \<Longrightarrow> run_step c [Closed s] (c\<lparr>phase := Returned\<rparr>)"
| campaign_won: "phase c = Campaigning s \<Longrightarrow>
     run_step c [Elected s]
       (notify ''leader'' (c\<lparr>phase := Leading s, leader_running := True, leader_cancelled := ctx_done c\<rparr>))"
| leader_returns: "leader_running c \<Longrightarrow> run_step c [] (c\<lparr>leader_running := False\<rparr>)"
| session_lost: "phase c = Leading s \<Longrightarrow>
     run_step c [] (notify ''session-lost'' (c\<lparr>phase := Stopping s, leader_cancelled := True\<rparr>))"
| leader_ctx_ends: "phase c = Leading s \<Longrightarrow> ctx_done c \<Longrightarrow>
     run_step c [] (c\<lparr>phase := Resigning s, leader_cancelled := True\<rparr>)"
| stopped: "phase c = Stopping s \<Longrightarrow> \<not> leader_running c \<Longrightarrow> run_step c [Closed s] (c\<lparr>phase := Top\<rparr>)"
| resigned: "phase c = Resigning s \<Longrightarrow> \<not> leader_running c \<Longrightarrow>
     run_step c [Resigned s, Closed s] (c\<lparr>phase := Returned\<rparr>)"

inductive_cases run_stepE: "run_step c as c'"

fun session_of :: "phase \<Rightarrow> session option" where
  "session_of (Campaigning s) = Some s"
| "session_of (Leading s) = Some s"
| "session_of (Stopping s) = Some s"
| "session_of (Resigning s) = Some s"
| "session_of _ = None"

fun may_lead :: "phase \<Rightarrow> bool" where
  "may_lead (Leading s) = True"
| "may_lead (Stopping s) = True"
| "may_lead (Resigning s) = True"
| "may_lead _ = False"

text \<open>\<^verbatim>\<open>onLeader\<close> runs only between a won campaign and the end of its session's handling.\<close>

definition candidate_ok :: "candidate \<Rightarrow> bool" where
  "candidate_ok c \<longleftrightarrow> (leader_running c \<longrightarrow> may_lead (phase c))"

lemma run_step_ok: "run_step c as c' \<Longrightarrow> candidate_ok c \<Longrightarrow> candidate_ok c'"
  by (erule run_step.cases) (auto simp: candidate_ok_def notify_def)

text \<open>What a step does: nothing on the server, open a session, win with it, or give it up, and that
  never while \<^verbatim>\<open>onLeader\<close> runs.\<close>

lemma run_step_kinds:
  assumes "run_step c as c'" "candidate_ok c"
  obtains (quiet) "as = []" "session_of (phase c') = session_of (phase c)" "leader_running c' \<longrightarrow> leader_running c"
  | (opens) s where "as = [Opened s]" "session_of (phase c') = Some s" "\<not> leader_running c'"
  | (wins) s where "as = [Elected s]" "session_of (phase c) = Some s" "session_of (phase c') = Some s"
  | (gives_up) s where "set as \<subseteq> {Resigned s, Closed s}" "session_of (phase c) = Some s"
      "session_of (phase c') = None" "\<not> leader_running c" "\<not> leader_running c'"
  using assms by (cases rule: run_step.cases) (auto simp: notify_def candidate_ok_def)

text \<open>All candidates together with the server, of which \<open>etcd_step\<close> is the behaviour.\<close>

inductive etcd_steps :: "('e \<Rightarrow> etcd_action \<Rightarrow> 'e \<Rightarrow> bool) \<Rightarrow> 'e \<Rightarrow> etcd_action list \<Rightarrow> 'e \<Rightarrow> bool"
  for etcd_step where
  steps_Nil: "etcd_steps etcd_step e [] e"
| steps_Cons: "etcd_step e a e' \<Longrightarrow> etcd_steps etcd_step e' as e'' \<Longrightarrow> etcd_steps etcd_step e (a # as) e''"

inductive_simps etcd_steps_simps [simp]: "etcd_steps etcd_step e [] e'" "etcd_steps etcd_step e (a # as) e'"

inductive election_step ::
    "('e \<Rightarrow> etcd_action \<Rightarrow> 'e \<Rightarrow> bool) \<Rightarrow> 'e \<times> (nat \<Rightarrow> candidate) \<Rightarrow> 'e \<times> (nat \<Rightarrow> candidate) \<Rightarrow> bool"
  for etcd_step where
  es_candidate: "run_step (cs i) as c \<Longrightarrow> etcd_steps etcd_step e as e' \<Longrightarrow>
     election_step etcd_step (e, cs) (e', cs(i := c))"
| es_expire: "etcd_step e (Expired s) e' \<Longrightarrow> election_step etcd_step (e, cs) (e', cs)"

section \<open>What etcd promises\<close>

text \<open>
  \<open>live e\<close> are the sessions whose lease the server still counts, \<open>elected e\<close> those of them it has let
  win and that still hold their key.  A new session is one not seen before.  A live session wins only
  when no other holds the election; a session that has already run out may be told it won, which
  changes nothing on the server.  A session that resigned or closed may keep its key until its lease
  runs out, if the request did not get through.
\<close>

locale election_service =
  fixes etcd_step :: "'e \<Rightarrow> etcd_action \<Rightarrow> 'e \<Rightarrow> bool"
    and seen :: "'e \<Rightarrow> session set"
    and live :: "'e \<Rightarrow> session set"
    and elected :: "'e \<Rightarrow> session set"
  assumes open_fresh: "etcd_step e (Opened s) e' \<Longrightarrow>
      s \<notin> seen e \<and> seen e' = insert s (seen e) \<and> live e' = insert s (live e) \<and> elected e' = elected e"
    and elect_one: "etcd_step e (Elected s) e' \<Longrightarrow> seen e' = seen e \<and> live e' = live e
      \<and> (if s \<in> live e then elected e \<subseteq> {s} \<and> elected e' = {s} else elected e' = elected e)"
    and expire: "etcd_step e (Expired s) e' \<Longrightarrow> seen e' = seen e \<and> live e' = live e - {s} \<and> elected e' = elected e - {s}"
    and resign: "etcd_step e (Resigned s) e' \<Longrightarrow> seen e' = seen e \<and> live e' = live e
      \<and> elected e - {s} \<subseteq> elected e' \<and> elected e' \<subseteq> elected e"
    and close: "etcd_step e (Closed s) e' \<Longrightarrow> seen e' = seen e \<and> live e - {s} \<subseteq> live e' \<and> live e' \<subseteq> live e
      \<and> elected e - {s} \<subseteq> elected e' \<and> elected e' \<subseteq> elected e"
begin

text \<open>Each session belongs to one candidate, and a leader whose session is live is the elected one.\<close>

definition election_inv :: "'e \<times> (nat \<Rightarrow> candidate) \<Rightarrow> bool" where
  "election_inv = (\<lambda>(e, cs).
     (\<forall>i. candidate_ok (cs i))
     \<and> (\<forall>i s. session_of (phase (cs i)) = Some s \<longrightarrow> s \<in> seen e)
     \<and> (\<forall>i j s. session_of (phase (cs i)) = Some s \<longrightarrow> session_of (phase (cs j)) = Some s \<longrightarrow> i = j)
     \<and> (\<forall>i s. leader_running (cs i) \<longrightarrow> session_of (phase (cs i)) = Some s \<longrightarrow> s \<in> live e \<longrightarrow> s \<in> elected e)
     \<and> live e \<subseteq> seen e \<and> (\<exists>s. elected e \<subseteq> {s}))"

text \<open>A candidate that runs \<^verbatim>\<open>onLeader\<close> keeps its place while others give up their own sessions.\<close>

lemma quiet_actions:
  assumes "etcd_steps etcd_step e as e'" "\<And>s. Opened s \<notin> set as" "\<And>s. Elected s \<notin> set as"
    "\<And>s. Resigned s \<in> set as \<or> Closed s \<in> set as \<or> Expired s \<in> set as \<Longrightarrow> s = t"
  shows "seen e' = seen e \<and> live e' \<subseteq> live e \<and> elected e' \<subseteq> elected e \<and> elected e - {t} \<subseteq> elected e'"
  using assms
proof (induction as arbitrary: e)
  case (Cons a as)
  from Cons.prems(1) obtain e1 where st: "etcd_step e a e1" "etcd_steps etcd_step e1 as e'" by auto
  have IH: "seen e' = seen e1 \<and> live e' \<subseteq> live e1 \<and> elected e' \<subseteq> elected e1 \<and> elected e1 - {t} \<subseteq> elected e'"
    by (rule Cons.IH [OF st(2)]) (use Cons.prems(2-4) in auto)
  have "seen e1 = seen e \<and> live e1 \<subseteq> live e \<and> elected e1 \<subseteq> elected e \<and> elected e - {t} \<subseteq> elected e1"
  proof (cases a)
    case (Expired s)
    with Cons.prems(4) [of s] expire [of e s e1] st(1) show ?thesis by auto
  next
    case (Resigned s)
    with Cons.prems(4) [of s] resign [of e s e1] st(1) show ?thesis by auto
  next
    case (Closed s)
    with Cons.prems(4) [of s] close [of e s e1] st(1) show ?thesis by auto
  qed (use Cons.prems(2,3) in auto)
  with IH show ?case by blast
qed simp

lemma election_step_inv:
  assumes "election_step etcd_step x y" "election_inv x"
  shows "election_inv y"
  using assms(1)
proof cases
  case (es_candidate cs i as c e e')
  from assms(2) es_candidate have ok: "\<And>i. candidate_ok (cs i)"
    and seen: "\<And>i s. session_of (phase (cs i)) = Some s \<Longrightarrow> s \<in> seen e"
    and uniq: "\<And>i j s. session_of (phase (cs i)) = Some s \<Longrightarrow> session_of (phase (cs j)) = Some s \<Longrightarrow> i = j"
    and lead: "\<And>i s. leader_running (cs i) \<Longrightarrow> session_of (phase (cs i)) = Some s \<Longrightarrow> s \<in> live e \<Longrightarrow> s \<in> elected e"
    and srv: "live e \<subseteq> seen e" "\<exists>s. elected e \<subseteq> {s}"
    by (auto simp: election_inv_def)
  have ok': "candidate_ok c" using run_step_ok [OF es_candidate(3) ok] .
  from es_candidate(3) ok show ?thesis
  proof (cases rule: run_step_kinds)
    case quiet
    then have "e' = e" using es_candidate(4) by simp
    then show ?thesis using quiet ok ok' seen uniq lead srv unfolding es_candidate(2) election_inv_def
      by (auto split: if_splits)
  next
    case (opens s)
    then have "etcd_step e (Opened s) e'" using es_candidate(4) by auto
    from open_fresh [OF this] have o: "s \<notin> seen e" "seen e' = insert s (seen e)" "live e' = insert s (live e)" "elected e' = elected e"
      by auto
    have "session_of (phase (cs j)) \<noteq> Some s" for j using seen o(1) by blast
    then show ?thesis using opens ok ok' seen uniq lead srv o unfolding es_candidate(2) election_inv_def
      by (auto split: if_splits)
  next
    case (wins s)
    then have "etcd_step e (Elected s) e'" using es_candidate(4) by auto
    from elect_one [OF this] have o: "seen e' = seen e" "live e' = live e"
      "if s \<in> live e then elected e \<subseteq> {s} \<and> elected e' = {s} else elected e' = elected e" by auto
    then have el: "t \<in> live e \<Longrightarrow> t \<in> elected e \<or> t = s \<Longrightarrow> t \<in> elected e'" for t by (auto split: if_splits)
    show ?thesis using wins ok ok' seen uniq lead srv o el unfolding es_candidate(2) election_inv_def
      by (auto split: if_splits)
  next
    case (gives_up s)
    have o: "seen e' = seen e \<and> live e' \<subseteq> live e \<and> elected e' \<subseteq> elected e \<and> elected e - {s} \<subseteq> elected e'"
      by (rule quiet_actions [OF es_candidate(4)]) (use gives_up(1) in auto)
    have "t \<in> elected e'" if "leader_running (cs j)" "session_of (phase (cs j)) = Some t" "t \<in> live e'" "j \<noteq> i" for j t
    proof -
      have "t \<noteq> s" using uniq [OF that(2), of i] gives_up(2) that(4) by auto
      then show ?thesis using lead [OF that(1,2)] that(3) o by blast
    qed
    moreover have "\<exists>s. elected e' \<subseteq> {s}" using srv(2) o by blast
    ultimately show ?thesis using gives_up ok ok' seen uniq srv(1) o unfolding es_candidate(2) election_inv_def
      by (auto split: if_splits)
  qed
next
  case (es_expire e s e' cs)
  with expire [OF es_expire(3)] assms(2) show ?thesis by (auto simp: election_inv_def)
qed

lemma election_run_inv:
  assumes "(election_step etcd_step)\<^sup>*\<^sup>* (e0, \<lambda>_. new_candidate) (e, cs)" "live e0 \<subseteq> seen e0" "elected e0 = {}"
  shows "election_inv (e, cs)"
proof -
  have "election_inv (e0, \<lambda>_. new_candidate)"
    using assms(2,3) by (simp add: election_inv_def new_candidate_def candidate_ok_def)
  with assms(1) show ?thesis
    by (induction rule: rtranclp_induct) (auto intro: election_step_inv)
qed

lemma one_live_leader:
  assumes "election_inv (e, cs)"
    "leader_running (cs i)" "session_of (phase (cs i)) = Some s" "s \<in> live e"
    "leader_running (cs j)" "session_of (phase (cs j)) = Some t" "t \<in> live e"
  shows "i = j"
proof -
  have inv: "s \<in> elected e" "t \<in> elected e" "\<exists>x. elected e \<subseteq> {x}"
    "\<And>i j s. session_of (phase (cs i)) = Some s \<Longrightarrow> session_of (phase (cs j)) = Some s \<Longrightarrow> i = j"
    using assms unfolding election_inv_def prod.case by blast+
  then have "s = t" by blast
  with inv(4) assms(3,6) show ?thesis by blast
qed

lemma inv_stops_first:
  assumes "election_inv (e, cs)" "run_step (cs i) as c" "Resigned s \<in> set as \<or> Closed s \<in> set as"
  shows "\<not> leader_running (cs i)"
proof -
  have "candidate_ok (cs i)" using assms(1) by (simp add: election_inv_def)
  with assms(2) show ?thesis by (cases rule: run_step_kinds) (use assms(3) in auto)
qed

end

section \<open>A server that keeps the promises\<close>

text \<open>Sessions are numbered as they open; every request gets through.\<close>

fun plain_etcd :: "nat \<times> session set \<times> session set \<Rightarrow> etcd_action \<Rightarrow> nat \<times> session set \<times> session set \<Rightarrow> bool" where
  "plain_etcd (n, l, h) (Opened s) y \<longleftrightarrow> s = n \<and> y = (Suc n, insert n l, h)"
| "plain_etcd (n, l, h) (Elected s) y \<longleftrightarrow> s \<in> l \<and> h \<subseteq> {s} \<and> y = (n, l, {s})"
| "plain_etcd (n, l, h) (Expired s) y \<longleftrightarrow> y = (n, l - {s}, h - {s})"
| "plain_etcd (n, l, h) (Resigned s) y \<longleftrightarrow> y = (n, l, h - {s})"
| "plain_etcd (n, l, h) (Closed s) y \<longleftrightarrow> y = (n, l - {s}, h - {s})"

interpretation plain_election: election_service plain_etcd "\<lambda>(n, l, h). {..<n}" "\<lambda>(n, l, h). l" "\<lambda>(n, l, h). h"
proof (unfold_locales, goal_cases)
  case (1 e s e') then show ?case by (cases e) (auto simp: lessThan_Suc)
next
  case (2 e s e') then show ?case by (cases e) auto
next
  case (3 e s e') then show ?case by (cases e) auto
next
  case (4 e s e') then show ?case by (cases e) auto
next
  case (5 e s e') then show ?case by (cases e) auto
qed

end
