(* ===== verification/Startup.thy ===== *)
theory Startup
  imports Service_Config Job_Api
begin

text \<open>
  Startup and shutdown of the two Go processes: \<^verbatim>\<open>Connect\<close> of \<^verbatim>\<open>internal/persistence/pool.go\<close>,
  \<^verbatim>\<open>WaitForEtcd\<close> of \<^verbatim>\<open>internal/leases/health.go\<close>, and \<^verbatim>\<open>run\<close> and \<^verbatim>\<open>serve\<close> of \<^verbatim>\<open>cmd/api/main.go\<close> and
  \<^verbatim>\<open>cmd/scheduler/main.go\<close>.  The outside world is what each call to it returns.
\<close>

section \<open>Bounded retries\<close>

datatype startup_act = Probe nat | Sleep Duration | ClosePool | CloseEtcd

definition connectMaxAttempts :: nat where "connectMaxAttempts = 10"
definition connectBaseDelay :: Duration where "connectBaseDelay = 300000000"
definition waitForEtcdMaxAttempts :: nat where "waitForEtcdMaxAttempts = 10"
definition waitForEtcdBaseDelay :: Duration where "waitForEtcdBaseDelay = 300000000"

text \<open>The loop the two functions share, from attempt number \<open>attempt\<close> on.  \<open>probe i\<close> is the outcome of
  the \<open>i\<close>-th probe, \<open>ctx i\<close> the context's error if it ends during the wait after it.\<close>

function probe_loop ::
    "string \<Rightarrow> nat \<Rightarrow> Duration \<Rightarrow> (nat \<Rightarrow> goerr option) \<Rightarrow> (nat \<Rightarrow> goerr option) \<Rightarrow> nat \<Rightarrow> goerr option \<times> startup_act list" where
  "probe_loop what limit delay probe ctx attempt =
     (case probe attempt of
        None \<Rightarrow> (None, [Probe attempt])
      | Some lastErr \<Rightarrow>
          if attempt \<ge> limit
          then (Some (Wrap (what @ '' unreachable after '' @ itoa (int limit) @ '' attempts: '') lastErr []), [Probe attempt])
          else case ctx attempt of
                 Some e \<Rightarrow> (Some e, [Probe attempt])
               | None \<Rightarrow>
                   (case probe_loop what limit delay probe ctx (Suc attempt) of
                      (x, acts) \<Rightarrow> (x, Probe attempt # Sleep (delay * int attempt) # acts)))"
  by pat_completeness auto
termination by (relation "measure (\<lambda>(_, limit, _, _, _, attempt). limit - attempt)") auto

declare probe_loop.simps [simp del]

definition Connect ::
    "goerr option \<Rightarrow> (nat \<Rightarrow> goerr option) \<Rightarrow> (nat \<Rightarrow> goerr option) \<Rightarrow> goerr option \<times> startup_act list" where
  "Connect newPool ping ctx =
     (case newPool of
        Some e \<Rightarrow> (Some (Wrap ''persistence: parse/configure database URL: '' e []), [])
      | None \<Rightarrow>
          (case probe_loop ''persistence: database'' connectMaxAttempts connectBaseDelay ping ctx 1 of
             (None, acts) \<Rightarrow> (None, acts)
           | (Some e, acts) \<Rightarrow> (Some e, acts @ [ClosePool])))"

definition WaitForEtcd :: "(nat \<Rightarrow> goerr option) \<Rightarrow> (nat \<Rightarrow> goerr option) \<Rightarrow> goerr option \<times> startup_act list" where
  "WaitForEtcd get ctx = probe_loop ''etcd'' waitForEtcdMaxAttempts waitForEtcdBaseDelay get ctx 1"

section \<open>run and serve\<close>

record world =
  wd_env :: "string \<Rightarrow> string option"
  wd_newPool :: "goerr option"
  wd_ping :: "nat \<Rightarrow> goerr option"
  wd_newEtcd :: "goerr option"
  wd_get :: "nat \<Rightarrow> goerr option"
  wd_listen :: "goerr option"
  wd_gateway :: "goerr option"

text \<open>How far \<^verbatim>\<open>run\<close> gets: it exits with code 1 and a line in the log, or it serves.\<close>

datatype run_end = Exits log_line | Serves Config

definition failure :: "string \<Rightarrow> goerr \<Rightarrow> run_end" where
  "failure m e = Exits (m, [(''error'', err_Error e)])"

definition never :: "nat \<Rightarrow> goerr option" where
  "never i = None"

text \<open>The deferred calls run in reverse order; while \<^verbatim>\<open>serve\<close> runs nothing is closed.\<close>

definition run_scheduler :: "(string \<Rightarrow> string) \<Rightarrow> world \<Rightarrow> run_end \<times> startup_act list" where
  "run_scheduler q wd =
     (case Load q (wd_env wd) ''orionqueue-scheduler'' of
        Inl e \<Rightarrow> (failure ''invalid configuration'' e, [])
      | Inr cfg \<Rightarrow>
          (case Connect (wd_newPool wd) (wd_ping wd) never of
             (Some e, acts) \<Rightarrow> (failure ''failed to connect to database'' e, acts)
           | (None, acts) \<Rightarrow>
               (case wd_newEtcd wd of
                  Some e \<Rightarrow> (failure ''failed to create etcd client'' e, acts @ [ClosePool])
                | None \<Rightarrow>
                    (case WaitForEtcd (wd_get wd) never of
                       (Some e, acts') \<Rightarrow> (failure ''failed to reach etcd'' e, acts @ acts' @ [CloseEtcd, ClosePool])
                     | (None, acts') \<Rightarrow> (Serves cfg, acts @ acts')))))"

definition run_api :: "(string \<Rightarrow> string) \<Rightarrow> world \<Rightarrow> run_end \<times> startup_act list" where
  "run_api q wd =
     (case Load q (wd_env wd) ''orionqueue-api'' of
        Inl e \<Rightarrow> (failure ''invalid configuration'' e, [])
      | Inr cfg \<Rightarrow>
          (case Connect (wd_newPool wd) (wd_ping wd) never of
             (Some e, acts) \<Rightarrow> (failure ''failed to connect to database'' e, acts)
           | (None, acts) \<Rightarrow>
               (case wd_newEtcd wd of
                  Some e \<Rightarrow> (failure ''failed to create etcd client'' e, acts @ [ClosePool])
                | None \<Rightarrow>
                    (case WaitForEtcd (wd_get wd) never of
                       (Some e, acts') \<Rightarrow> (failure ''failed to reach etcd'' e, acts @ acts' @ [CloseEtcd, ClosePool])
                     | (None, acts') \<Rightarrow>
                         (case wd_listen wd of
                            Some e \<Rightarrow>
                              (Exits (''failed to listen for gRPC'', [(''addr'', cfg_GRPCAddr cfg), (''error'', err_Error e)]),
                               acts @ acts' @ [CloseEtcd, ClosePool])
                          | None \<Rightarrow>
                              (case wd_gateway wd of
                                 Some e \<Rightarrow> (failure ''failed to build REST gateway'' e, acts @ acts' @ [CloseEtcd, ClosePool])
                               | None \<Rightarrow> (Serves cfg, acts @ acts')))))))"

text \<open>The end of \<^verbatim>\<open>serve\<close>: what its first \<^verbatim>\<open>select\<close> receives, the outcome of the HTTP server's shutdown,
  and whether the other part (the election loop, the gRPC server) stops within its ten seconds.\<close>

datatype serve_event = SignalReceived | ServerExited "goerr option"

definition serve_end :: "string \<Rightarrow> serve_event \<Rightarrow> goerr option \<Rightarrow> bool \<Rightarrow> nat \<times> log_line list" where
  "serve_end timeout_message ev shutdown stopped =
     (case ev of
        ServerExited (Some e) \<Rightarrow> (1, [(''server error'', [(''error'', err_Error e)])])
      | _ \<Rightarrow>
          (0, (if ev = SignalReceived then [(''shutdown signal received'', [])] else [])
              @ (case shutdown of None \<Rightarrow> [] | Some e \<Rightarrow> [(''http graceful shutdown failed'', [(''error'', err_Error e)])])
              @ (if stopped then [] else [(timeout_message, [])])
              @ [(''stopped'', [])]))"

definition serve_scheduler :: "serve_event \<Rightarrow> goerr option \<Rightarrow> bool \<Rightarrow> nat \<times> log_line list" where
  "serve_scheduler = serve_end ''leader election loop did not stop within timeout''"

definition serve_api :: "serve_event \<Rightarrow> goerr option \<Rightarrow> bool \<Rightarrow> nat \<times> log_line list" where
  "serve_api = serve_end ''grpc graceful stop timed out, forcing stop''"

text \<open>\<^verbatim>\<open>Run\<close> of \<^verbatim>\<open>internal/health/run.go\<close>, the same for a process with one server: the error of the server
  or of its shutdown is the result.\<close>

definition health_Run :: "serve_event \<Rightarrow> goerr option \<Rightarrow> goerr option \<times> log_line list" where
  "health_Run ev shutdown =
     (case ev of
        ServerExited err \<Rightarrow> (err, [])
      | SignalReceived \<Rightarrow>
          (case shutdown of
             Some e \<Rightarrow> (Some e, [(''shutdown signal received'', [])])
           | None \<Rightarrow> (None, [(''shutdown signal received'', []), (''stopped'', [])])))"

section \<open>Bounds\<close>

fun slept :: "startup_act list \<Rightarrow> Duration" where
  "slept [] = 0"
| "slept (Sleep d # as) = d + slept as"
| "slept (a # as) = slept as"

fun probes :: "startup_act list \<Rightarrow> nat list" where
  "probes [] = []"
| "probes (Probe i # as) = i # probes as"
| "probes (a # as) = probes as"

lemma slept_append [simp]: "slept (xs @ ys) = slept xs + slept ys"
  by (induction xs rule: slept.induct) simp_all

lemma probes_append [simp]: "probes (xs @ ys) = probes xs @ probes ys"
  by (induction xs rule: probes.induct) simp_all

text \<open>The probe that succeeds, if there is one in time.\<close>

definition reached :: "nat \<Rightarrow> (nat \<Rightarrow> goerr option) \<Rightarrow> (nat \<Rightarrow> goerr option) \<Rightarrow> nat \<Rightarrow> nat \<Rightarrow> bool" where
  "reached limit probe ctx a k \<longleftrightarrow>
     a \<le> k \<and> k \<le> limit \<and> probe k = None \<and> (\<forall>i. a \<le> i \<longrightarrow> i < k \<longrightarrow> probe i \<noteq> None \<and> ctx i = None)"

lemma reached_Suc:
  assumes "probe a \<noteq> None" "ctx a = None"
  shows "reached limit probe ctx a k \<longleftrightarrow> reached limit probe ctx (Suc a) k"
proof -
  have "a \<le> k \<and> probe k = None \<longleftrightarrow> Suc a \<le> k \<and> probe k = None" using assms(1) by (cases "k = a") auto
  moreover have "(\<forall>i. a \<le> i \<longrightarrow> i < k \<longrightarrow> probe i \<noteq> None \<and> ctx i = None)
      \<longleftrightarrow> (\<forall>i. Suc a \<le> i \<longrightarrow> i < k \<longrightarrow> probe i \<noteq> None \<and> ctx i = None)"
    using assms by (metis Suc_leD Suc_leI le_neq_implies_less)
  ultimately show ?thesis unfolding reached_def by blast
qed

lemma probe_loop_spec:
  assumes "probe_loop what limit delay probe ctx a = (x, acts)" "1 \<le> a" "a \<le> limit" "0 \<le> delay"
  shows "(x = None \<longleftrightarrow> (\<exists>k. reached limit probe ctx a k))
    \<and> (\<exists>n. a \<le> n \<and> n \<le> limit \<and> probes acts = [a..<Suc n] \<and> slept acts = delay * int (sum_list [a..<n]))
    \<and> set acts \<subseteq> range Probe \<union> range Sleep"
  using assms
proof (induction what limit delay probe ctx a arbitrary: x acts rule: probe_loop.induct)
  case (1 what limit delay probe ctx a)
  show ?case
  proof (cases "probe a")
    case None
    then have "reached limit probe ctx a a" using 1(4) by (simp add: reached_def)
    then show ?thesis using 1(2,4) None by (auto simp: probe_loop.simps [of what limit] intro!: exI [of _ a])
  next
    case (Some e)
    show ?thesis
    proof (cases "a \<ge> limit \<or> ctx a \<noteq> None")
      case True
      have "\<not> reached limit probe ctx a k" for k
        using Some True 1(4) by (cases "k = a") (auto simp: reached_def)
      moreover have "x \<noteq> None" "acts = [Probe a]"
        using 1(2) Some True by (auto simp: probe_loop.simps [of what limit] split: if_splits dest: sym)
      ultimately show ?thesis using 1(4) by (auto intro!: exI [of _ a])
    next
      case False
      obtain y acts' where l: "probe_loop what limit delay probe ctx (Suc a) = (y, acts')" by fastforce
      have out: "x = y" "acts = Probe a # Sleep (delay * int a) # acts'"
        using 1(2) Some False l by (auto simp: probe_loop.simps [of what limit delay probe ctx a])
      have IH: "(y = None \<longleftrightarrow> (\<exists>k. reached limit probe ctx (Suc a) k))
        \<and> (\<exists>n. Suc a \<le> n \<and> n \<le> limit \<and> probes acts' = [Suc a..<Suc n] \<and> slept acts' = delay * int (sum_list [Suc a..<n]))
        \<and> set acts' \<subseteq> range Probe \<union> range Sleep"
        by (rule "1.IH" [OF Some _ _ l]) (use False 1(5) in auto)
      have "reached limit probe ctx a k \<longleftrightarrow> reached limit probe ctx (Suc a) k" for k
        using Some False by (rule_tac reached_Suc) auto
      moreover obtain n where n: "Suc a \<le> n" "n \<le> limit" "probes acts' = [Suc a..<Suc n]" "slept acts' = delay * int (sum_list [Suc a..<n])"
        using IH by blast
      then have "probes acts = [a..<Suc n]" "slept acts = delay * int (sum_list [a..<n])"
        unfolding out by (simp_all add: upt_rec [of a] distrib_left del: upt_Suc)
      ultimately show ?thesis using IH n(1,2) out by auto
    qed
  qed
qed

end
