(* ===== verification/Http.thy ===== *)
theory Http
  imports Startup
begin

text \<open>
  The HTTP side: the request-identifier middleware of \<^verbatim>\<open>internal/api/middleware.go\<close>, the health routes
  of \<^verbatim>\<open>internal/health/server.go\<close>, and the muxes built by the two \<^verbatim>\<open>run\<close> functions.  A handler is what it
  does to its \<^verbatim>\<open>ResponseWriter\<close>; \<open>respond\<close> is what \<^verbatim>\<open>net/http\<close> then sends.
\<close>

section \<open>Requests and responses\<close>

record Request =
  rq_Method :: string
  rq_Path :: string
  rq_Header :: "string \<Rightarrow> string option"
  rq_RequestID :: "string option" \<comment> \<open>the value under \<^verbatim>\<open>requestIDKey\<close> in the context\<close>

datatype json = JString string | JBool bool

datatype rw_action =
    SetHeader string string
  | WriteHeader int
  | Encode "(string \<times> json) list"

type_synonym handler = "Request \<Rightarrow> rw_action list"

definition StatusOK :: int where "StatusOK = 200"
definition StatusServiceUnavailable :: int where "StatusServiceUnavailable = 503"

record Response =
  rs_status :: int
  rs_header :: "string \<rightharpoonup> string"
  rs_body :: "(string \<times> json) list list"

text \<open>The status and the headers go out with the first \<^verbatim>\<open>WriteHeader\<close> or the first byte of the body;
  a later \<^verbatim>\<open>WriteHeader\<close> is ignored and later headers are not sent.\<close>

fun sending :: "rw_action list \<Rightarrow> (string \<rightharpoonup> string) \<Rightarrow> int \<times> (string \<rightharpoonup> string)" where
  "sending [] h = (StatusOK, h)"
| "sending (SetHeader k v # as) h = sending as (h(k \<mapsto> v))"
| "sending (WriteHeader st # as) h = (st, h)"
| "sending (Encode b # as) h = (StatusOK, h)"

fun bodies :: "rw_action list \<Rightarrow> (string \<times> json) list list" where
  "bodies [] = []"
| "bodies (Encode b # as) = b # bodies as"
| "bodies (a # as) = bodies as"

definition respond :: "rw_action list \<Rightarrow> Response" where
  "respond as = \<lparr>rs_status = fst (sending as Map.empty), rs_header = snd (sending as Map.empty), rs_body = bodies as\<rparr>"

section \<open>middleware.go\<close>

definition RequestIDHeader :: string where "RequestIDHeader = ''X-Request-Id''"

definition RequestIDFromContext :: "Request \<Rightarrow> string" where
  "RequestIDFromContext r = (case rq_RequestID r of None \<Rightarrow> [] | Some i \<Rightarrow> i)"

text \<open>\<^verbatim>\<open>statusRecorder\<close>: the argument of the last \<^verbatim>\<open>WriteHeader\<close>, at first \<^verbatim>\<open>http.StatusOK\<close>.\<close>

fun recorded :: "rw_action list \<Rightarrow> int \<Rightarrow> int" where
  "recorded [] st = st"
| "recorded (WriteHeader st' # as) st = recorded as st'"
| "recorded (a # as) st = recorded as st"

definition newRequestID :: "nat list \<Rightarrow> string" where
  "newRequestID b = hex_encode b"

text \<open>\<open>newID\<close> is what \<^verbatim>\<open>newRequestID\<close> would draw, \<open>duration\<close> the rendered time the handler took.\<close>

definition WithRequestID :: "string \<Rightarrow> string \<Rightarrow> handler \<Rightarrow> Request \<Rightarrow> rw_action list \<times> log_line" where
  "WithRequestID newID duration next r =
     (let inbound = (case rq_Header r RequestIDHeader of None \<Rightarrow> [] | Some v \<Rightarrow> v);
          ident = (if inbound = [] then newID else inbound);
          acts = next (r\<lparr>rq_RequestID := Some ident\<rparr>)
      in (SetHeader RequestIDHeader ident # acts,
          (''request'',
           [(''request_id'', ident), (''method'', rq_Method r), (''path'', rq_Path r),
            (''status'', itoa (recorded acts StatusOK)), (''duration'', duration)])))"

definition WithAuthPlaceholder :: "'h \<Rightarrow> 'h" where
  "WithAuthPlaceholder next = next"

section \<open>Health routes\<close>

definition writeJSON :: "int \<Rightarrow> (string \<times> json) list \<Rightarrow> rw_action list" where
  "writeJSON status body = [SetHeader ''Content-Type'' ''application/json'', WriteHeader status, Encode body]"

text \<open>\<open>ready\<close> is the outcome of the readiness check; \<open>other\<close> serves every path without a route here.\<close>

definition RegisterRoutes :: "goerr option \<Rightarrow> handler \<Rightarrow> handler" where
  "RegisterRoutes ready other r =
     (if rq_Path r = ''/healthz'' then writeJSON StatusOK [(''status'', JString ''ok'')]
      else if rq_Path r = ''/readyz''
      then (case ready of
              Some e \<Rightarrow> writeJSON StatusServiceUnavailable [(''status'', JString ''not_ready''), (''reason'', JString (err_Error e))]
            | None \<Rightarrow> writeJSON StatusOK [(''status'', JString ''ready'')])
      else other r)"

text \<open>The readiness check of both processes.\<close>

definition Ready :: "goerr option \<Rightarrow> goerr option \<Rightarrow> goerr option" where
  "Ready ping get =
     (case ping of
        Some e \<Rightarrow> Some (Wrap ''database: '' e [])
      | None \<Rightarrow> (case get of Some e \<Rightarrow> Some (Wrap ''etcd: '' e []) | None \<Rightarrow> None))"

text \<open>The handlers of the two servers, \<open>gateway\<close> and \<open>other\<close> being the REST gateway and the mux's
  fallback.\<close>

definition api_handler :: "string \<Rightarrow> string \<Rightarrow> goerr option \<Rightarrow> handler \<Rightarrow> Request \<Rightarrow> rw_action list \<times> log_line" where
  "api_handler newID duration ready gateway =
     WithAuthPlaceholder (WithRequestID newID duration (RegisterRoutes ready gateway))"

definition scheduler_handler :: "goerr option \<Rightarrow> bool \<Rightarrow> handler \<Rightarrow> handler" where
  "scheduler_handler ready isLeader other =
     RegisterRoutes ready
       (\<lambda>r. if rq_Path r = ''/leader''
            then [SetHeader ''Content-Type'' ''application/json'', Encode [(''is_leader'', JBool isLeader)]]
            else other r)"

section \<open>What clients see\<close>

lemma sending_header:
  assumes "\<And>v. SetHeader k v \<notin> set as"
  shows "snd (sending as h) k = h k"
  using assms by (induction as h rule: sending.induct) auto

text \<open>A handler that writes its header at most once, and before its body.\<close>

fun orderly :: "rw_action list \<Rightarrow> bool" where
  "orderly [] = True"
| "orderly (SetHeader k v # as) = orderly as"
| "orderly (WriteHeader st # as) = (\<forall>st'. WriteHeader st' \<notin> set as)"
| "orderly (Encode b # as) = (\<forall>st'. WriteHeader st' \<notin> set as)"

lemma recorded_none: "(\<And>st'. WriteHeader st' \<notin> set as) \<Longrightarrow> recorded as st = st"
  by (induction as st rule: recorded.induct) auto

lemma recorded_sent: "orderly as \<Longrightarrow> recorded as StatusOK = fst (sending as h)"
  by (induction as arbitrary: h rule: orderly.induct) (simp_all add: recorded_none)

lemma RequestID_kept:
  assumes "WithRequestID newID duration next r = (acts, line)" "newID \<noteq> []"
    "\<And>r v. SetHeader RequestIDHeader v \<notin> set (next r)" "\<And>r. orderly (next r)"
  shows "\<exists>ident. ident \<noteq> [] \<and> (\<forall>v. rq_Header r RequestIDHeader = Some v \<longrightarrow> v \<noteq> [] \<longrightarrow> ident = v)
    \<and> acts = SetHeader RequestIDHeader ident # next (r\<lparr>rq_RequestID := Some ident\<rparr>)
    \<and> RequestIDFromContext (r\<lparr>rq_RequestID := Some ident\<rparr>) = ident
    \<and> rs_header (respond acts) RequestIDHeader = Some ident
    \<and> map_of (snd line) ''request_id'' = Some ident
    \<and> map_of (snd line) ''status'' = Some (itoa (rs_status (respond acts)))"
proof -
  define ident where "ident = (case rq_Header r RequestIDHeader of None \<Rightarrow> newID | Some v \<Rightarrow> if v = [] then newID else v)"
  have acts: "acts = SetHeader RequestIDHeader ident # next (r\<lparr>rq_RequestID := Some ident\<rparr>)"
    and line: "map_of (snd line) ''request_id'' = Some ident"
      "map_of (snd line) ''status'' = Some (itoa (recorded (next (r\<lparr>rq_RequestID := Some ident\<rparr>)) StatusOK))"
    using assms(1) by (auto simp: WithRequestID_def ident_def Let_def split: option.split)
  have "rs_header (respond acts) RequestIDHeader = Some ident"
    by (simp add: respond_def acts sending_header assms(3))
  moreover have "recorded (next (r\<lparr>rq_RequestID := Some ident\<rparr>)) StatusOK = rs_status (respond acts)"
    by (simp add: respond_def acts recorded_sent [OF assms(4)])
  moreover have "ident \<noteq> []" "\<forall>v. rq_Header r RequestIDHeader = Some v \<longrightarrow> v \<noteq> [] \<longrightarrow> ident = v"
    using assms(2) by (simp_all add: ident_def split: option.split)
  ultimately show ?thesis using acts line by (auto simp: RequestIDFromContext_def)
qed

lemma health_orderly:
  assumes "\<And>r. orderly (other r)" "\<And>r v. SetHeader RequestIDHeader v \<notin> set (other r)"
  shows "orderly (RegisterRoutes ready other r)" "SetHeader RequestIDHeader v \<notin> set (RegisterRoutes ready other r)"
  using assms by (simp_all add: RegisterRoutes_def writeJSON_def RequestIDHeader_def split: option.split)

lemma health_answers:
  "rq_Path r = ''/healthz'' \<Longrightarrow> respond (RegisterRoutes ready other r) =
     \<lparr>rs_status = 200, rs_header = [''Content-Type'' \<mapsto> ''application/json''], rs_body = [[(''status'', JString ''ok'')]]\<rparr>"
  "rq_Path r = ''/readyz'' \<Longrightarrow> rs_status (respond (RegisterRoutes ready other r)) = (if ready = None then 200 else 503)"
  by (simp_all add: RegisterRoutes_def respond_def writeJSON_def StatusOK_def StatusServiceUnavailable_def split: option.split)

end
