(* ===== verification/Timestamps.thy ===== *)
theory Timestamps
  imports Page_Token
begin

text \<open>
  The part of Go's package \<^verbatim>\<open>time\<close> that the page tokens of the PostgreSQL repositories rest on:
  the civil date of an instant, \<^verbatim>\<open>Format(time.RFC3339Nano)\<close> in UTC, and \<^verbatim>\<open>time.Parse\<close> with the
  same layout.  A \<open>Time\<close> is the number of nanoseconds since 1970-01-01T00:00:00Z.  Texts that only
  the library's general layout parser takes (a comma before the fraction, a one-digit hour) are
  refused here; no formatted instant is of that kind.
\<close>

section \<open>The calendar\<close>

definition isLeap :: "int \<Rightarrow> bool" where
  "isLeap y \<longleftrightarrow> y mod 4 = 0 \<and> (y mod 100 \<noteq> 0 \<or> y mod 400 = 0)"

text \<open>Days are counted from 0001-01-01.\<close>

definition year_yday :: "int \<Rightarrow> int \<times> int" where
  "year_yday d =
     (let a = d div 146097; r = d mod 146097;
          c = min 3 (r div 36524); r = r - 36524 * c;
          q = r div 1461; r = r mod 1461;
          z = min 3 (r div 365)
      in (400 * a + 100 * c + 4 * q + z + 1, r - 365 * z))"

definition days_of :: "int \<Rightarrow> int \<Rightarrow> int" where
  "days_of y yday = 365 * (y - 1) + (y - 1) div 4 - (y - 1) div 100 + (y - 1) div 400 + yday"

definition month_lengths :: "int \<Rightarrow> nat list" where
  "month_lengths y = [31, if isLeap y then 29 else 28, 31, 30, 31, 30, 31, 31, 30, 31, 30, 31]"

fun month_day :: "nat list \<Rightarrow> nat \<Rightarrow> nat \<times> nat" where
  "month_day [] n = (1, n + 1)"
| "month_day (m # ms) n =
     (if n < m then (1, n + 1) else case month_day ms (n - m) of (k, d) \<Rightarrow> (k + 1, d))"

definition yday_of :: "nat list \<Rightarrow> nat \<Rightarrow> nat \<Rightarrow> nat" where
  "yday_of ms m d = sum_list (take (m - 1) ms) + (d - 1)"

lemma year_yday_decomposed:
  assumes "year_yday d = (y, n)"
  obtains a c q z where "d = 146097 * a + 36524 * c + 1461 * q + 365 * z + n"
    "y = 400 * a + 100 * c + 4 * q + z + 1" "0 \<le> c" "c \<le> 3" "0 \<le> q" "q \<le> 24" "0 \<le> z" "z \<le> 3"
    "0 \<le> n" "n < 365 \<or> n = 365 \<and> z = 3 \<and> (q < 24 \<or> c = 3)"
proof -
  define a where "a = d div 146097"
  define r where "r = d mod 146097"
  define c where "c = min 3 (r div 36524)"
  define r1 where "r1 = r - 36524 * c"
  define q where "q = r1 div 1461"
  define r2 where "r2 = r1 mod 1461"
  define z where "z = min 3 (r2 div 365)"
  have out: "y = 400 * a + 100 * c + 4 * q + z + 1" "n = r2 - 365 * z"
    using assms by (simp_all add: year_yday_def Let_def a_def r_def c_def r1_def q_def r2_def z_def)
  have d: "d = 146097 * a + r" "0 \<le> r" "r < 146097" by (simp_all add: a_def r_def)
  have c: "0 \<le> c" "c \<le> 3" "0 \<le> r1" "r1 < 36524 \<or> r1 = 36524 \<and> c = 3"
    using d(2,3) by (auto simp: c_def r1_def min_def)
  have q: "r1 = 1461 * q + r2" "0 \<le> r2" "r2 < 1461" by (simp_all add: q_def r2_def)
  have z: "0 \<le> z" "z \<le> 3" "0 \<le> r2 - 365 * z" "r2 - 365 * z < 365 \<or> r2 = 1460 \<and> z = 3"
    using q(2,3) by (auto simp: z_def min_def)
  have "0 \<le> q" "q \<le> 24" using c q by linarith+
  moreover have "n < 365 \<or> n = 365 \<and> z = 3 \<and> (q < 24 \<or> c = 3)" using out(2) z c q by linarith
  moreover have "d = 146097 * a + 36524 * c + 1461 * q + 365 * z + n"
    using out(2) d(1) q(1) by (simp add: r1_def)
  ultimately show ?thesis using that [OF _ out(1) c(1,2) _ _ z(1,2)] z(3) out(2) by simp
qed

lemma isLeap_decomposed:
  fixes a :: int
  assumes "0 \<le> c" "c \<le> 3" "0 \<le> q" "q \<le> 24" "0 \<le> z" "z \<le> 3"
  shows "isLeap (400 * a + 100 * c + 4 * q + z + 1) \<longleftrightarrow> z = 3 \<and> (q < 24 \<or> c = 3)"
proof -
  let ?y = "400 * a + 100 * c + 4 * q + z + 1"
  have four: "?y mod 4 = (if z = 3 then 0 else z + 1)"
  proof (cases "z = 3")
    case True
    then show ?thesis using int_mod_pos_eq [of ?y 4 "100 * a + 25 * c + q + 1" 0] by simp
  next
    case False
    then show ?thesis using int_mod_pos_eq [of ?y 4 "100 * a + 25 * c + q" "z + 1"] assms by simp
  qed
  have full: "?y mod 100 = 0 \<longleftrightarrow> q = 24" "?y mod 400 = 0 \<longleftrightarrow> q = 24 \<and> c = 3" if "z = 3"
  proof -
    show "?y mod 100 = 0 \<longleftrightarrow> q = 24"
    proof (cases "q = 24")
      case True
      then show ?thesis using int_mod_pos_eq [of ?y 100 "4 * a + c + 1" 0] that by simp
    next
      case False
      then show ?thesis using int_mod_pos_eq [of ?y 100 "4 * a + c" "4 * q + 4"] that assms by simp
    qed
    show "?y mod 400 = 0 \<longleftrightarrow> q = 24 \<and> c = 3"
    proof (cases "q = 24 \<and> c = 3")
      case True
      then show ?thesis using int_mod_pos_eq [of ?y 400 "a + 1" 0] that by simp
    next
      case False
      then have "100 * c + 4 * q + 4 < 400" using assms by (cases "c = 3") auto
      then have "?y mod 400 = 100 * c + 4 * q + 4"
        using int_mod_pos_eq [of ?y 400 a "100 * c + 4 * q + 4"] that assms by simp
      then show ?thesis using False assms by linarith
    qed
  qed
  have "q < 24 \<longleftrightarrow> q \<noteq> 24" using assms by auto
  with full four show ?thesis using assms by (auto simp: isLeap_def)
qed

lemma days_of_decomposed:
  fixes a :: int
  assumes "0 \<le> c" "c \<le> 3" "0 \<le> q" "q \<le> 24" "0 \<le> z" "z \<le> 3"
  shows "days_of (400 * a + 100 * c + 4 * q + z + 1) n = 146097 * a + 36524 * c + 1461 * q + 365 * z + n"
proof -
  let ?y = "400 * a + 100 * c + 4 * q + z"
  have "?y div 4 = 100 * a + 25 * c + q" "?y div 100 = 4 * a + c" "?y div 400 = a"
    using int_div_pos_eq [of ?y 4 "100 * a + 25 * c + q" z]
      int_div_pos_eq [of ?y 100 "4 * a + c" "4 * q + z"] int_div_pos_eq [of ?y 400 a "100 * c + 4 * q + z"]
      assms by simp_all
  then show ?thesis by (simp add: days_of_def)
qed

lemma year_length: "sum_list (month_lengths y) = (if isLeap y then 366 else 365)"
  by (simp add: month_lengths_def)

lemma days_of_year_yday:
  assumes "year_yday d = (y, n)"
  shows "days_of y n = d" "0 \<le> n" "nat n < sum_list (month_lengths y)"
proof -
  obtain a c q z where s: "d = 146097 * a + 36524 * c + 1461 * q + 365 * z + n"
    "y = 400 * a + 100 * c + 4 * q + z + 1" "0 \<le> c" "c \<le> 3" "0 \<le> q" "q \<le> 24" "0 \<le> z" "z \<le> 3"
    "0 \<le> n" "n < 365 \<or> n = 365 \<and> z = 3 \<and> (q < 24 \<or> c = 3)"
    by (rule year_yday_decomposed [OF assms])
  then show "days_of y n = d" "0 \<le> n" by (simp_all add: days_of_decomposed)
  have "isLeap y \<longleftrightarrow> z = 3 \<and> (q < 24 \<or> c = 3)" unfolding s(2) by (rule isLeap_decomposed) (use s in simp_all)
  with s(9,10) show "nat n < sum_list (month_lengths y)" by (auto simp: year_length)
qed

lemma month_day_inverse:
  assumes "month_day ms n = (k, d)" "n < sum_list ms"
  shows "yday_of ms k d = n" "1 \<le> k" "k \<le> length ms" "1 \<le> d" "d \<le> ms ! (k - 1)"
proof -
  have "yday_of ms k d = n \<and> 1 \<le> k \<and> k \<le> length ms \<and> 1 \<le> d \<and> d \<le> ms ! (k - 1)"
    using assms
  proof (induction ms n arbitrary: k d rule: month_day.induct)
    case (2 m ms n)
    show ?case
    proof (cases "n < m")
      case True
      with 2 show ?thesis by (auto simp: yday_of_def)
    next
      case False
      obtain k' d' where md: "month_day ms (n - m) = (k', d')" by fastforce
      with 2 False have "yday_of ms k' d' = n - m \<and> 1 \<le> k' \<and> k' \<le> length ms \<and> 1 \<le> d' \<and> d' \<le> ms ! (k' - 1)"
        by simp
      moreover have "k = k' + 1" "d = d'" using 2(2) False md by simp_all
      ultimately show ?thesis using False by (cases k') (auto simp: yday_of_def)
    qed
  qed simp
  then show "yday_of ms k d = n" "1 \<le> k" "k \<le> length ms" "1 \<le> d" "d \<le> ms ! (k - 1)" by simp_all
qed

section \<open>Digits\<close>

fun pad_digits :: "nat \<Rightarrow> nat \<Rightarrow> string" where
  "pad_digits 0 n = []"
| "pad_digits (Suc w) n = pad_digits w (n div 10) @ [digit_char (n mod 10)]"

text \<open>\<^verbatim>\<open>appendInt(b, x, width)\<close>.\<close>

definition append_int :: "int \<Rightarrow> nat \<Rightarrow> string" where
  "append_int x w =
     (let u = nat \<bar>x\<bar>
      in (if x < 0 then ''-'' else []) @ (if u < 10 ^ w then pad_digits w u else nat_digits u))"

text \<open>\<^verbatim>\<open>parseUint\<close> of \<^verbatim>\<open>parseRFC3339\<close>: only digits, and a value within bounds.\<close>

definition parse_uint :: "string \<Rightarrow> nat \<Rightarrow> nat \<Rightarrow> nat option" where
  "parse_uint s lo hi =
     (case parse_digits s 0 of None \<Rightarrow> None | Some x \<Rightarrow> if x < lo \<or> hi < x then None else Some x)"

definition is_digit :: "char \<Rightarrow> bool" where
  "is_digit c \<longleftrightarrow> digit_val c \<noteq> None"

lemma length_pad_digits [simp]: "length (pad_digits w n) = w"
  by (induction w arbitrary: n) simp_all

lemma parse_pad_digits: "n < 10 ^ w \<Longrightarrow> parse_digits (pad_digits w n) 0 = Some n"
proof (induction w arbitrary: n)
  case (Suc w)
  then have "n div 10 < 10 ^ w" by (simp add: less_mult_imp_div_less mult.commute)
  with Suc show ?case by (simp add: parse_digits_append)
qed simp

lemma parse_uint_pad: "n < 10 ^ w \<Longrightarrow> lo \<le> n \<Longrightarrow> n \<le> hi \<Longrightarrow> parse_uint (pad_digits w n) lo hi = Some n"
  by (simp add: parse_uint_def parse_pad_digits)

lemma is_digit_pad: "c \<in> set (pad_digits w n) \<Longrightarrow> is_digit c"
  by (induction w arbitrary: n) (auto simp: is_digit_def)

lemma append_int_pad: "0 \<le> x \<Longrightarrow> nat x < 10 ^ w \<Longrightarrow> append_int x w = pad_digits w (nat x)"
  by (simp add: append_int_def Let_def)

section \<open>Fractions of a second\<close>

text \<open>The layout element \<^verbatim>\<open>.999999999\<close>: nothing for zero, otherwise nine digits without their
  trailing zeros.\<close>

definition strip_zeros :: "string \<Rightarrow> string" where
  "strip_zeros s = rev (dropWhile (\<lambda>c. c = digit_char 0) (rev s))"

definition append_nano :: "nat \<Rightarrow> string" where
  "append_nano n = (if n = 0 then [] else CHR ''.'' # strip_zeros (pad_digits 9 n))"

text \<open>The digits after the point: at most nine count, and they are scaled to nanoseconds.\<close>

definition parse_nano :: "string \<Rightarrow> nat option" where
  "parse_nano ds =
     (let ds = take 9 ds
      in case parse_digits ds 0 of None \<Rightarrow> None | Some v \<Rightarrow> Some (v * 10 ^ (9 - length ds)))"

lemma strip_zeros_append: "\<exists>k. s = strip_zeros s @ replicate k (digit_char 0)"
proof -
  let ?P = "\<lambda>c. c = digit_char 0"
  have "takeWhile ?P (rev s) = replicate (length (takeWhile ?P (rev s))) (digit_char 0)"
    by (rule replicate_eqI) (auto dest: set_takeWhileD)
  then have "s = strip_zeros s @ replicate (length (takeWhile ?P (rev s))) (digit_char 0)"
    unfolding strip_zeros_def by (metis rev_append rev_replicate rev_rev_ident takeWhile_dropWhile_id)
  then show ?thesis ..
qed

lemma parse_digits_zeros: "parse_digits (replicate k (digit_char 0)) acc = Some (acc * 10 ^ k)"
  by (induction k arbitrary: acc) (simp_all add: mult.commute mult.left_commute)

lemma parse_nano_strip:
  assumes "n < 10 ^ 9"
  shows "parse_nano (strip_zeros (pad_digits 9 n)) = Some n"
proof -
  let ?s = "strip_zeros (pad_digits 9 n)"
  obtain k where k: "pad_digits 9 n = ?s @ replicate k (digit_char 0)" using strip_zeros_append by blast
  then have len: "length ?s + k = 9" by (metis length_append length_pad_digits length_replicate)
  have "parse_digits (?s @ replicate k (digit_char 0)) 0 = Some n"
    using parse_pad_digits [OF assms] k by simp
  then obtain v where v: "parse_digits ?s 0 = Some v" "v * 10 ^ k = n"
    by (auto simp: parse_digits_append parse_digits_zeros bind_eq_Some_conv)
  have "take 9 ?s = ?s" "9 - length ?s = k" using len by auto
  with v show ?thesis by (simp add: parse_nano_def Let_def)
qed

lemma strip_zeros_digits: "c \<in> set (strip_zeros (pad_digits w n)) \<Longrightarrow> is_digit c"
  using is_digit_pad by (fastforce simp: strip_zeros_def dest: set_dropWhileD)

lemma strip_zeros_neq_Nil: "n < 10 ^ 9 \<Longrightarrow> n \<noteq> 0 \<Longrightarrow> strip_zeros (pad_digits 9 n) \<noteq> []"
  using parse_nano_strip [of n] by (auto simp: parse_nano_def)

section \<open>RFC 3339\<close>

definition unix_days :: int where "unix_days = 719162" \<comment> \<open>1970-01-01\<close>

definition format_rfc3339nano :: "Time \<Rightarrow> string" where
  "format_rfc3339nano t =
     (let secs = t div 10 ^ 9; nanos = t mod 10 ^ 9;
          sod = secs mod 86400
      in case year_yday (secs div 86400 + unix_days) of (y, yday) \<Rightarrow>
         case month_day (month_lengths y) (nat yday) of (m, d) \<Rightarrow>
           append_int y 4 @ ''-'' @ append_int (int m) 2 @ ''-'' @ append_int (int d) 2 @ ''T''
           @ append_int (sod div 3600) 2 @ '':'' @ append_int (sod div 60 mod 60) 2 @ '':''
           @ append_int (sod mod 60) 2 @ append_nano (nat nanos) @ ''Z'')"

definition date_time :: "int \<Rightarrow> nat \<Rightarrow> nat \<Rightarrow> nat \<Rightarrow> nat \<Rightarrow> nat \<Rightarrow> nat \<Rightarrow> Time" where
  "date_time y m d hh mi ss nanos =
     ((days_of y (int (yday_of (month_lengths y) m d)) - unix_days) * 86400
      + int hh * 3600 + int mi * 60 + int ss) * 10 ^ 9 + int nanos"

text \<open>The zone at the end: \<^verbatim>\<open>Z\<close> or an offset, in seconds east of UTC.\<close>

definition parse_zone :: "string \<Rightarrow> int option" where
  "parse_zone s =
     (if s = ''Z'' then Some 0
      else if length s \<noteq> 6 then None
      else case (parse_uint (take 2 (drop 1 s)) 0 23, parse_uint (take 2 (drop 4 s)) 0 59) of
             (Some hh, Some mm) \<Rightarrow>
               (if (s ! 0 = CHR ''-'' \<or> s ! 0 = CHR ''+'') \<and> s ! 3 = CHR '':''
                then Some ((if s ! 0 = CHR ''-'' then -1 else 1) * (int hh * 60 + int mm) * 60)
                else None)
           | _ \<Rightarrow> None)"

definition parse_rest :: "int \<Rightarrow> nat \<Rightarrow> nat \<Rightarrow> nat \<Rightarrow> nat \<Rightarrow> nat \<Rightarrow> string \<Rightarrow> Time option" where
  "parse_rest y m d hh mi ss s =
     (let frac = (length s \<ge> 2 \<and> s ! 0 = CHR ''.'' \<and> is_digit (s ! 1));
          ds = (if frac then takeWhile is_digit (tl s) else []);
          rest = (if frac then dropWhile is_digit (tl s) else s)
      in case (parse_nano ds, parse_zone rest) of
           (Some nanos, Some offset) \<Rightarrow> Some (date_time y m d hh mi ss nanos - offset * 10 ^ 9)
         | _ \<Rightarrow> None)"

definition parse_rfc3339nano :: "string \<Rightarrow> Time option" where
  "parse_rfc3339nano s =
     (if length s < 19 then None
      else case (parse_uint (take 4 s) 0 9999, parse_uint (take 2 (drop 5 s)) 1 12) of
             (Some y, Some m) \<Rightarrow>
               (case (parse_uint (take 2 (drop 8 s)) 1 (month_lengths (int y) ! (m - 1)),
                      parse_uint (take 2 (drop 11 s)) 0 23, parse_uint (take 2 (drop 14 s)) 0 59,
                      parse_uint (take 2 (drop 17 s)) 0 59) of
                  (Some d, Some hh, Some mi, Some ss) \<Rightarrow>
                    (if s ! 4 = CHR ''-'' \<and> s ! 7 = CHR ''-'' \<and> s ! 10 = CHR ''T''
                        \<and> s ! 13 = CHR '':'' \<and> s ! 16 = CHR '':''
                     then parse_rest (int y) m d hh mi ss (drop 19 s) else None)
                | _ \<Rightarrow> None)
           | _ \<Rightarrow> None)"

lemma stamp_fields:
  assumes "length ys = 4" "length ms = 2" "length ds = 2" "length hs = 2" "length is = 2" "length ss = 2"
    "s = ys @ ''-'' @ ms @ ''-'' @ ds @ ''T'' @ hs @ '':'' @ is @ '':'' @ ss @ rest"
  shows "take 4 s = ys" "take 2 (drop 5 s) = ms" "take 2 (drop 8 s) = ds" "take 2 (drop 11 s) = hs"
    "take 2 (drop 14 s) = is" "take 2 (drop 17 s) = ss" "drop 19 s = rest" "\<not> length s < 19"
    "s ! 4 = CHR ''-''" "s ! 7 = CHR ''-''" "s ! 10 = CHR ''T''" "s ! 13 = CHR '':''" "s ! 16 = CHR '':''"
  using assms(1-6) unfolding assms(7) by (simp_all add: nth_append)

lemma parse_rest_nano:
  assumes "n < 10 ^ 9"
  shows "parse_rest y m d hh mi ss (append_nano n @ ''Z'') = Some (date_time y m d hh mi ss n)"
proof -
  have z: "parse_zone ''Z'' = Some 0" "parse_nano [] = Some 0" by (simp_all add: parse_zone_def parse_nano_def)
  have notdigit: "\<not> is_digit (CHR ''Z'')" by (simp add: is_digit_def digit_val_def)
  show ?thesis
  proof (cases "n = 0")
    case True
    then show ?thesis using z by (simp add: parse_rest_def append_nano_def Let_def)
  next
    case False
    let ?f = "strip_zeros (pad_digits 9 n)"
    have f: "?f \<noteq> []" "\<forall>c \<in> set ?f. is_digit c"
      using strip_zeros_neq_Nil [OF assms False] strip_zeros_digits by blast+
    then have "is_digit (?f ! 0)" by (cases ?f) auto
    moreover have "takeWhile is_digit (?f @ ''Z'') = ?f" "dropWhile is_digit (?f @ ''Z'') = ''Z''"
      using f notdigit by (simp_all add: takeWhile_append2 dropWhile_append2)
    ultimately show ?thesis
      using f(1) z(1) parse_nano_strip [OF assms] False
      by (simp add: parse_rest_def append_nano_def Let_def nth_append)
  qed
qed

lemma month_lengths_le: "k < 12 \<Longrightarrow> month_lengths y ! k \<le> 31"
  by (auto simp: month_lengths_def nth_Cons' less_Suc_eq)

lemma clock_split: "x div 3600 * 3600 + x div 60 mod 60 * 60 + x mod 60 = (x :: int)"
proof -
  have "x div 3600 = x div 60 div 60" by (simp flip: zdiv_zmult2_eq)
  then have "x div 3600 * 60 + x div 60 mod 60 = x div 60" by simp
  then have "(x div 3600 * 60 + x div 60 mod 60) * 60 + x mod 60 = x" by simp
  then show ?thesis by (simp add: algebra_simps)
qed

lemma clock_parts:
  fixes x :: int
  assumes "0 \<le> x" "x < 86400"
  shows "nat (x div 3600) \<le> 23" "nat (x div 60 mod 60) \<le> 59" "nat (x mod 60) \<le> 59"
    "int (nat (x div 3600)) * 3600 + int (nat (x div 60 mod 60)) * 60 + int (nat (x mod 60)) = x"
proof -
  show "nat (x div 3600) \<le> 23" "nat (x div 60 mod 60) \<le> 59" "nat (x mod 60) \<le> 59" using assms by simp_all
  have "0 \<le> x div 3600" using assms by simp
  with clock_split [of x] show
    "int (nat (x div 3600)) * 3600 + int (nat (x div 60 mod 60)) * 60 + int (nat (x mod 60)) = x" by simp
qed

lemma append_clock:
  fixes x :: int
  assumes "0 \<le> x" "x < 86400"
  shows "append_int (x div 3600) 2 = pad_digits 2 (nat (x div 3600))"
    "append_int (x div 60 mod 60) 2 = pad_digits 2 (nat (x div 60 mod 60))"
    "append_int (x mod 60) 2 = pad_digits 2 (nat (x mod 60))"
proof -
  have "0 \<le> x div 3600" "0 \<le> x div 60 mod 60" "0 \<le> x mod 60" using assms by simp_all
  moreover have "nat (x div 3600) < 10 ^ 2" "nat (x div 60 mod 60) < 10 ^ 2" "nat (x mod 60) < 10 ^ 2"
    using clock_parts(1-3) [OF assms] by (simp_all only: power2_eq_square)
  ultimately show "append_int (x div 3600) 2 = pad_digits 2 (nat (x div 3600))"
    "append_int (x div 60 mod 60) 2 = pad_digits 2 (nat (x div 60 mod 60))"
    "append_int (x mod 60) 2 = pad_digits 2 (nat (x mod 60))" by (simp_all only: append_int_pad)
qed

lemma parse_format_rfc3339nano:
  assumes "year_yday (t div 10 ^ 9 div 86400 + unix_days) = (y, n)" "0 \<le> y" "y \<le> 9999"
  shows "parse_rfc3339nano (format_rfc3339nano t) = Some t"
proof -
  let ?secs = "t div 10 ^ 9" let ?sod = "?secs mod 86400"
  obtain m d where md: "month_day (month_lengths y) (nat n) = (m, d)" by fastforce
  note yd = days_of_year_yday [OF assms(1)]
  note cal = month_day_inverse [OF md yd(3)]
  have m: "m \<le> 12" using cal(3) by (simp add: month_lengths_def)
  then have "m - 1 < 12" using cal(2) by linarith
  from order_trans [OF cal(5) month_lengths_le [OF this]] have d: "d \<le> 31" .
  have sod: "0 \<le> ?sod" "?sod < 86400" by simp_all
  define hh mi ss nanos where "hh = nat (?sod div 3600)" and "mi = nat (?sod div 60 mod 60)"
    and "ss = nat (?sod mod 60)" and "nanos = nat (t mod 10 ^ 9)"
  have parts: "hh \<le> 23" "mi \<le> 59" "ss \<le> 59" "nanos < 10 ^ 9"
    "int hh * 3600 + int mi * 60 + int ss = ?sod" "int nanos = t mod 10 ^ 9"
    unfolding hh_def mi_def ss_def nanos_def by (rule clock_parts [OF sod] | simp)+
  define s where "s = pad_digits 4 (nat y) @ ''-'' @ pad_digits 2 m @ ''-'' @ pad_digits 2 d @ ''T''
    @ pad_digits 2 hh @ '':'' @ pad_digits 2 mi @ '':'' @ pad_digits 2 ss @ append_nano nanos @ ''Z''"
  have "append_int y 4 = pad_digits 4 (nat y)" "append_int (int m) 2 = pad_digits 2 m" "append_int (int d) 2 = pad_digits 2 d"
    using assms(2,3) m d by (simp_all add: append_int_pad)
  moreover have "append_int (?sod div 3600) 2 = pad_digits 2 hh" "append_int (?sod div 60 mod 60) 2 = pad_digits 2 mi"
    "append_int (?sod mod 60) 2 = pad_digits 2 ss"
    unfolding hh_def mi_def ss_def by (rule append_clock [OF sod])+
  ultimately have "format_rfc3339nano t = s"
    unfolding format_rfc3339nano_def Let_def s_def assms(1) prod.case md nanos_def by (simp only:)
  moreover have "date_time y m d hh mi ss nanos = t"
  proof -
    have "days_of y (int (yday_of (month_lengths y) m d)) = ?secs div 86400 + unix_days"
      using yd(1,2) cal(1) by simp
    then have "date_time y m d hh mi ss nanos =
        (?secs div 86400 * 86400 + (int hh * 3600 + int mi * 60 + int ss)) * 10 ^ 9 + int nanos"
      unfolding date_time_def by (simp only: add_diff_cancel_right' add.assoc)
    also have "\<dots> = (?secs div 86400 * 86400 + ?sod) * 10 ^ 9 + t mod 10 ^ 9" by (simp only: parts(5,6))
    also have "\<dots> = t" by (simp only: div_mult_mod_eq)
    finally show ?thesis .
  qed
  moreover note f = stamp_fields [of "pad_digits 4 (nat y)" "pad_digits 2 m" "pad_digits 2 d" "pad_digits 2 hh"
    "pad_digits 2 mi" "pad_digits 2 ss" s "append_nano nanos @ ''Z''", OF _ _ _ _ _ _ s_def]
  moreover have "parse_uint (pad_digits 4 (nat y)) 0 9999 = Some (nat y)" "parse_uint (pad_digits 2 m) 1 12 = Some m"
    "parse_uint (pad_digits 2 d) 1 (month_lengths y ! (m - 1)) = Some d" "parse_uint (pad_digits 2 hh) 0 23 = Some hh"
    "parse_uint (pad_digits 2 mi) 0 59 = Some mi" "parse_uint (pad_digits 2 ss) 0 59 = Some ss"
    using assms(2,3) m d cal parts(1-3) by (simp_all add: parse_uint_pad)
  ultimately show ?thesis using parse_rest_nano [OF parts(4)] assms(2)
    by (simp add: parse_rfc3339nano_def)
qed

text \<open>Formatted instants with a four-digit year parse back, and no formatted instant has a bar in it.\<close>

definition four_digit_year :: "Time \<Rightarrow> bool" where
  "four_digit_year t \<longleftrightarrow>
     (let y = fst (year_yday (t div 10 ^ 9 div 86400 + unix_days)) in 0 \<le> y \<and> y \<le> 9999)"

lemma parse_format: "four_digit_year t \<Longrightarrow> parse_rfc3339nano (format_rfc3339nano t) = Some t"
  using parse_format_rfc3339nano [OF prod.collapse [symmetric]] by (simp add: four_digit_year_def Let_def)

lemma nat_digits_digits: "c \<in> set (nat_digits n) \<Longrightarrow> is_digit c"
  by (induction n rule: nat_digits.induct)
    (subst (asm) (2) nat_digits.simps, auto simp: is_digit_def split: if_splits)

lemma append_int_no_bar: "CHR ''|'' \<notin> set (append_int x w)"
proof
  assume "CHR ''|'' \<in> set (append_int x w)"
  then have "is_digit CHR ''|''"
    by (auto simp: append_int_def Let_def dest: is_digit_pad nat_digits_digits split: if_splits)
  then show False by (simp add: is_digit_def digit_val_def)
qed

lemma append_nano_no_bar: "CHR ''|'' \<notin> set (append_nano n)"
  using strip_zeros_digits [of "CHR ''|''" 9 n] by (auto simp: append_nano_def is_digit_def digit_val_def)

lemma format_no_bar: "CHR ''|'' \<notin> set (format_rfc3339nano t)"
  unfolding format_rfc3339nano_def Let_def
  by (simp add: append_int_no_bar append_nano_no_bar split: prod.split)

end
