(* ===== verification/Postgres.thy ===== *)
theory Postgres
  imports Timestamps Job_Repository
begin

text \<open>
  The database under \<^verbatim>\<open>internal/persistence\<close>.  The driver \<^verbatim>\<open>pgx\<close> and the server are not part of
  the repository: a \<open>Pool\<close> is a record of the calls the package makes, on an arbitrary state.  The
  SQL texts of the package are the constructors of \<open>Stmt\<close>, with the placeholders they number.
  \<open>sql\<close> states what each text means on the tables the migrations create; the locale \<open>postgres\<close> is
  the hypothesis that the server executes the statements this way and rejects what violates a
  column type or a constraint.  A transaction works on its own state; nothing of it remains unless
  it commits.
\<close>

section \<open>Values, statements and calls\<close>

datatype pgval =
    PText string
  | PInt int
  | PFloat float64
  | PBool bool
  | PTime Time
  | PTexts "string list"
  | PJson "(string \<times> string) slice"
  | PNull

text \<open>\<open>PJson\<close> is the JSON text of a \<^verbatim>\<open>map[string]string\<close>, \<^verbatim>\<open>null\<close> for the nil map.\<close>

type_synonym row = "pgval list"

text \<open>A condition of the \<^verbatim>\<open>WHERE\<close> clause that \<^verbatim>\<open>List\<close> assembles: \<^verbatim>\<open>state = $n\<close> (\<^verbatim>\<open>status = $n\<close> for
  workers), \<^verbatim>\<open>(created_at, id) > ($n, $m)\<close> (\<^verbatim>\<open>registered_at\<close> for workers).\<close>

datatype Condition = FilterEq nat | KeyAfter nat nat

datatype Stmt =
    InsertJob
  | SelectJobByID
  | SelectJobBySubmissionID
  | SelectJobByIDForUpdate
  | SelectActiveJobs
  | UpdateJob
  | SelectJobs "Condition list"
  | InsertJobEvent
  | InsertDecision
  | InsertWorker
  | SelectWorkerByID
  | SelectActiveWorkers
  | SelectWorkerByIDForUpdate
  | UpdateWorker
  | SelectWorkers "Condition list"
  | SelectGPUsByWorkerID
  | DeleteGPUs
  | InsertGPU

record 'd Pool =
  pg_Begin :: "'d \<Rightarrow> goerr option"
  pg_QueryRow :: "Stmt \<Rightarrow> row \<Rightarrow> 'd \<Rightarrow> row result \<times> 'd"
  pg_Query :: "Stmt \<Rightarrow> row \<Rightarrow> 'd \<Rightarrow> (row list \<times> goerr option) result"
  pg_Exec :: "Stmt \<Rightarrow> row \<Rightarrow> 'd \<Rightarrow> goerr option \<times> 'd"
  pg_Commit :: "'d \<Rightarrow> 'd \<Rightarrow> goerr option \<times> 'd"

text \<open>\<^verbatim>\<open>pg_Commit d w\<close> ends the transaction that began on \<open>d\<close> and reached \<open>w\<close>; \<^verbatim>\<open>pg_Query\<close> returns
  the rows \<^verbatim>\<open>rows.Next\<close> delivers and then \<^verbatim>\<open>rows.Err\<close>.\<close>

section \<open>What the statements mean\<close>

record Tables =
  tb_jobs :: "row list"
  tb_events :: "row list"
  tb_decisions :: "row list"
  tb_workers :: "row list"
  tb_gpus :: "row list"

text \<open>\<^verbatim>\<open>TIMESTAMPTZ\<close> holds microseconds.\<close>

definition micros :: "Time \<Rightarrow> Time" where
  "micros t = t div 1000 * 1000"

fun stored :: "pgval \<Rightarrow> pgval" where
  "stored (PTime t) = PTime (micros t)"
| "stored v = v"

text \<open>Comparison of a time column and a text column, and of the priority before them.  Texts compare
  by their bytes: the compared columns hold identifiers, a fixed prefix and hexadecimal digits,
  which every collation orders so.\<close>

fun key_less :: "pgval \<times> pgval \<Rightarrow> pgval \<times> pgval \<Rightarrow> bool" where
  "key_less (PTime s, PText i) (PTime t, PText k) = (if s = t then i < k else s < t)"
| "key_less _ _ = False"

definition created_row_less :: "row \<Rightarrow> row \<Rightarrow> bool" where
  "created_row_less a b = key_less (a ! 19, a ! 0) (b ! 19, b ! 0)"

definition active_row_less :: "row \<Rightarrow> row \<Rightarrow> bool" where
  "active_row_less a b =
     (case (a ! 10, b ! 10) of
        (PInt p, PInt q) \<Rightarrow> if p \<noteq> q then p > q else created_row_less a b
      | _ \<Rightarrow> False)"

definition registered_row_less :: "row \<Rightarrow> row \<Rightarrow> bool" where
  "registered_row_less a b = key_less (a ! 9, a ! 0) (b ! 9, b ! 0)"

definition device_row_less :: "row \<Rightarrow> row \<Rightarrow> bool" where
  "device_row_less a b = (case (a ! 2, b ! 2) of (PInt i, PInt k) \<Rightarrow> i < k | _ \<Rightarrow> False)"

text \<open>\<open>cond_holds fc tc args r c\<close>: row \<open>r\<close> satisfies \<open>c\<close>, with the filtered column \<open>fc\<close> and the
  time column \<open>tc\<close>; \<^verbatim>\<open>$n\<close> is the \<open>n\<close>th argument, an instant again to the microsecond.\<close>

fun cond_holds :: "nat \<Rightarrow> nat \<Rightarrow> row \<Rightarrow> row \<Rightarrow> Condition \<Rightarrow> bool" where
  "cond_holds fc tc args r (FilterEq n) = (r ! fc = args ! (n - 1))"
| "cond_holds fc tc args r (KeyAfter n m) = key_less (stored (args ! (n - 1)), args ! (m - 1)) (r ! tc, r ! 0)"

fun limit :: "pgval \<Rightarrow> 'a list \<Rightarrow> 'a list" where
  "limit (PInt n) xs = take (nat n) xs"
| "limit v xs = xs"

definition terminal_texts :: "pgval set" where
  "terminal_texts = {PText ''SUCCEEDED'', PText ''FAILED'', PText ''CANCELLED''}"

text \<open>The rows a statement returns and the tables it leaves.\<close>

fun sql :: "Stmt \<Rightarrow> row \<Rightarrow> Tables \<Rightarrow> row list \<times> Tables" where
  "sql InsertJob args T =
     (if args ! 1 \<noteq> PText [] \<and> (\<exists>r \<in> set (tb_jobs T). r ! 1 = args ! 1) then ([], T)
      else ([map stored args], T\<lparr>tb_jobs := tb_jobs T @ [map stored args]\<rparr>))"
| "sql SelectJobByID args T = (filter (\<lambda>r. r ! 0 = args ! 0) (tb_jobs T), T)"
| "sql SelectJobBySubmissionID args T = (filter (\<lambda>r. r ! 1 = args ! 0) (tb_jobs T), T)"
| "sql SelectJobByIDForUpdate args T = (filter (\<lambda>r. r ! 0 = args ! 0) (tb_jobs T), T)"
| "sql SelectActiveJobs args T =
     (sort_slice active_row_less (filter (\<lambda>r. r ! 16 \<notin> terminal_texts) (tb_jobs T)), T)"
| "sql UpdateJob args T =
     (let new = (\<lambda>r. r ! 0 # r ! 1 # map stored (tl args))
      in (map new (filter (\<lambda>r. r ! 0 = args ! 0) (tb_jobs T)),
          T\<lparr>tb_jobs := map (\<lambda>r. if r ! 0 = args ! 0 then new r else r) (tb_jobs T)\<rparr>))"
| "sql (SelectJobs cs) args T =
     (limit (args ! 0) (sort_slice created_row_less
        (filter (\<lambda>r. list_all (cond_holds 16 19 args r) cs) (tb_jobs T))), T)"
| "sql InsertJobEvent args T = ([], T\<lparr>tb_events := tb_events T @ [args]\<rparr>)"
| "sql InsertDecision args T = ([], T\<lparr>tb_decisions := tb_decisions T @ [args]\<rparr>)"
| "sql InsertWorker args T =
     ([map stored args], T\<lparr>tb_workers := tb_workers T @ [map stored args]\<rparr>)"
| "sql SelectWorkerByID args T = (filter (\<lambda>r. r ! 0 = args ! 0) (tb_workers T), T)"
| "sql SelectActiveWorkers args T =
     (sort_slice registered_row_less (filter (\<lambda>r. r ! 2 = PText ''ACTIVE'') (tb_workers T)), T)"
| "sql SelectWorkerByIDForUpdate args T = (filter (\<lambda>r. r ! 0 = args ! 0) (tb_workers T), T)"
| "sql UpdateWorker args T =
     (let new = (\<lambda>r. r ! 0 # map stored (tl args))
      in (map new (filter (\<lambda>r. r ! 0 = args ! 0) (tb_workers T)),
          T\<lparr>tb_workers := map (\<lambda>r. if r ! 0 = args ! 0 then new r else r) (tb_workers T)\<rparr>))"
| "sql (SelectWorkers cs) args T =
     (limit (args ! 0) (sort_slice registered_row_less
        (filter (\<lambda>r. list_all (cond_holds 2 9 args r) cs) (tb_workers T))), T)"
| "sql SelectGPUsByWorkerID args T =
     (sort_slice device_row_less (filter (\<lambda>r. r ! 1 = args ! 0) (tb_gpus T)), T)"
| "sql DeleteGPUs args T = ([], T\<lparr>tb_gpus := filter (\<lambda>r. r ! 1 \<noteq> args ! 0) (tb_gpus T)\<rparr>)"
| "sql InsertGPU args T = ([], T\<lparr>tb_gpus := tb_gpus T @ [map stored args]\<rparr>)"

section \<open>What the server accepts\<close>

text \<open>Text is UTF-8 without NUL bytes; \<open>rune_width\<close> is the length of the well-formed sequence at the
  head, 0 if there is none.  Integers have 64 bits and instants the range of \<^verbatim>\<open>TIMESTAMPTZ\<close>.\<close>

definition continuation :: "nat \<Rightarrow> bool" where
  "continuation b \<longleftrightarrow> 128 \<le> b \<and> b < 192"

definition rune_width :: "nat list \<Rightarrow> nat" where
  "rune_width s =
     (case s @ [0, 0, 0] of
        a # b # c # d # _ \<Rightarrow>
          (if a < 128 then 1
           else if 194 \<le> a \<and> a < 224 \<and> continuation b then 2
           else if 224 \<le> a \<and> a < 240 \<and> continuation b \<and> continuation c
             \<and> (a = 224 \<longrightarrow> 160 \<le> b) \<and> (a = 237 \<longrightarrow> b < 160) then 3
           else if 240 \<le> a \<and> a < 245 \<and> continuation b \<and> continuation c \<and> continuation d
             \<and> (a = 240 \<longrightarrow> 144 \<le> b) \<and> (a = 244 \<longrightarrow> b < 144) then 4
           else 0)
      | _ \<Rightarrow> 0)"

function utf8 :: "nat list \<Rightarrow> bool" where
  "utf8 s = (if s = [] then True else if rune_width s = 0 then False else utf8 (drop (rune_width s) s))"
  by auto
termination by (relation "measure length") auto

declare utf8.simps [simp del]

lemma utf8_Nil [simp]: "utf8 []"
  by (simp add: utf8.simps)

lemma utf8_ascii: "list_all (\<lambda>a. a < 128) s \<Longrightarrow> utf8 s"
proof (induction s)
  case (Cons a s)
  have "3 \<le> length (s @ [0, 0, 0])" by simp
  then obtain b c d z where "s @ [0, 0, 0] = b # c # d # z"
    by (metis Suc_le_length_iff numeral_3_eq_3)
  with Cons show ?case by (simp add: utf8.simps [of "a # s"] rune_width_def)
qed simp

definition fits_text :: "string \<Rightarrow> bool" where
  "fits_text s \<longleftrightarrow> (let b = map of_char s in 0 \<notin> set b \<and> utf8 b)"

definition fits_time :: "Time \<Rightarrow> bool" where
  "fits_time t \<longleftrightarrow> - 210866803200 * 10 ^ 9 \<le> t \<and> t < 9224318016000 * 10 ^ 9"

fun fits :: "pgval \<Rightarrow> bool" where
  "fits (PText s) = fits_text s"
| "fits (PTexts ss) = list_all fits_text ss"
| "fits (PJson m) = list_all (\<lambda>(k, v). fits_text k \<and> fits_text v) (elems m)"
| "fits (PInt n) = in_i64 n"
| "fits (PTime t) = fits_time t"
| "fits v = True"

definition job_state_texts :: "pgval set" where
  "job_state_texts = {PText ''QUEUED'', PText ''SCHEDULED'', PText ''RUNNING'', PText ''CHECKPOINTING'',
     PText ''SUCCEEDED'', PText ''FAILED'', PText ''RETRYING'', PText ''CANCEL_REQUESTED'',
     PText ''CANCELLED'', PText ''PREEMPTED'', PText ''LOST''}"

definition gpu_health_texts :: "pgval set" where
  "gpu_health_texts = {PText ''HEALTHY'', PText ''DEGRADED'', PText ''UNHEALTHY''}"

text \<open>Primary keys, the unique indices, foreign keys and \<^verbatim>\<open>CHECK\<close> constraints.\<close>

fun constraints :: "Stmt \<Rightarrow> row \<Rightarrow> Tables \<Rightarrow> bool" where
  "constraints InsertJob args T \<longleftrightarrow>
     length args = 23 \<and> args ! 16 \<in> job_state_texts \<and> (\<forall>r \<in> set (tb_jobs T). r ! 0 \<noteq> args ! 0)"
| "constraints UpdateJob args T \<longleftrightarrow> length args = 22 \<and> args ! 15 \<in> job_state_texts"
| "constraints InsertJobEvent args T \<longleftrightarrow> (\<exists>r \<in> set (tb_jobs T). r ! 0 = args ! 0)"
| "constraints InsertDecision args T \<longleftrightarrow> (\<exists>r \<in> set (tb_jobs T). r ! 0 = args ! 0)"
| "constraints InsertWorker args T \<longleftrightarrow>
     length args = 11 \<and> args ! 2 \<in> {PText ''ACTIVE'', PText ''LOST''} \<and> (\<forall>r \<in> set (tb_workers T). r ! 0 \<noteq> args ! 0)"
| "constraints UpdateWorker args T \<longleftrightarrow> length args = 11 \<and> args ! 2 \<in> {PText ''ACTIVE'', PText ''LOST''}"
| "constraints InsertGPU args T \<longleftrightarrow>
     length args = 10 \<and> args ! 9 \<in> gpu_health_texts \<and> (\<exists>r \<in> set (tb_workers T). r ! 0 = args ! 1)
     \<and> (\<forall>r \<in> set (tb_gpus T). r ! 0 \<noteq> args ! 0 \<and> (r ! 1, r ! 2) \<noteq> (args ! 1, args ! 2))"
| "constraints _ args T \<longleftrightarrow> True"

definition accepts :: "Stmt \<Rightarrow> row \<Rightarrow> Tables \<Rightarrow> bool" where
  "accepts s args T \<longleftrightarrow> list_all fits args \<and> constraints s args T"

text \<open>ASCII text without NUL is accepted.\<close>

lemma fits_ascii: "list_all (\<lambda>c. 0 < (of_char c :: nat) \<and> (of_char c :: nat) < 128) s \<Longrightarrow> fits_text s"
  by (auto simp: fits_text_def Let_def list_all_iff intro!: utf8_ascii)

section \<open>The hypothesis about the server\<close>

definition first_row :: "row list \<Rightarrow> row result" where
  "first_row rs = (case rs of [] \<Rightarrow> Inl Pgx_ErrNoRows | r # _ \<Rightarrow> Inr r)"

locale postgres =
  fixes pool :: "'d Pool"
    and tables_of :: "'d \<Rightarrow> Tables"
  assumes begin_law: "pg_Begin pool d = None"
    and commit_law: "pg_Commit pool d w = (e, d') \<Longrightarrow> e = None \<and> tables_of d' = tables_of w"
    and query_row_law:
      "accepts s args (tables_of d) \<Longrightarrow> pg_QueryRow pool s args d = (x, d') \<Longrightarrow>
       x = first_row (fst (sql s args (tables_of d))) \<and> tables_of d' = snd (sql s args (tables_of d))"
    and query_row_rejected:
      "\<not> accepts s args (tables_of d) \<Longrightarrow> pg_QueryRow pool s args d = (x, d') \<Longrightarrow>
       \<exists>e. x = Inl e \<and> \<not> errors_Is e Pgx_ErrNoRows"
    and query_law:
      "accepts s args (tables_of d) \<Longrightarrow> pg_Query pool s args d = Inr (fst (sql s args (tables_of d)), None)"
    and exec_law:
      "accepts s args (tables_of d) \<Longrightarrow> pg_Exec pool s args d = (e, d') \<Longrightarrow>
       e = None \<and> tables_of d' = snd (sql s args (tables_of d))"
    and exec_rejected:
      "\<not> accepts s args (tables_of d) \<Longrightarrow> pg_Exec pool s args d = (e, d') \<Longrightarrow> e \<noteq> None"

text \<open>A server that does nothing but this.\<close>

definition plain_pool :: "Tables Pool" where
  "plain_pool =
     \<lparr>pg_Begin = (\<lambda>d. None),
      pg_QueryRow = (\<lambda>s args d. if accepts s args d then (first_row (fst (sql s args d)), snd (sql s args d))
        else (Inl (Plain ''constraint violated''), d)),
      pg_Query = (\<lambda>s args d. if accepts s args d then Inr (fst (sql s args d), None)
        else Inl (Plain ''invalid value'')),
      pg_Exec = (\<lambda>s args d. if accepts s args d then (None, snd (sql s args d))
        else (Some (Plain ''constraint violated''), d)),
      pg_Commit = (\<lambda>d w. (None, w))\<rparr>"

definition empty_tables :: Tables where
  "empty_tables = \<lparr>tb_jobs = [], tb_events = [], tb_decisions = [], tb_workers = [], tb_gpus = []\<rparr>"

interpretation plain: postgres plain_pool "\<lambda>d. d"
  by unfold_locales (auto simp: plain_pool_def)

end
