(* ===== verification/Postgres_Jobs.thy ===== *)
theory Postgres_Jobs
  imports Postgres
begin

text \<open>
  \<^verbatim>\<open>internal/persistence/job_repository.go\<close>: the PostgreSQL implementation of \<^verbatim>\<open>jobs.Repository\<close>,
  call by call over a \<open>Pool\<close>, and \<^verbatim>\<open>scheduling_decision_repository.go\<close>.
\<close>

section \<open>Rows and jobs\<close>

definition u32 :: "int \<Rightarrow> int" where
  "u32 x = x mod 2 ^ 32"

definition nonNilStrings :: "string slice \<Rightarrow> string slice" where
  "nonNilStrings s = (case s of None \<Rightarrow> Some [] | Some xs \<Rightarrow> Some xs)"

definition texts_arg :: "string slice \<Rightarrow> pgval" where
  "texts_arg s = (case s of None \<Rightarrow> PNull | Some xs \<Rightarrow> PTexts xs)"

definition time_arg :: "Time option \<Rightarrow> pgval" where
  "time_arg t = (case t of None \<Rightarrow> PNull | Some u \<Rightarrow> PTime u)"

definition jobInsertArgs :: "Job \<Rightarrow> row" where
  "jobInsertArgs j =
     [PText (job_ID j), PText (job_SubmissionID j), PText (job_Name j), PText (job_Owner j), PText (job_Image j),
      texts_arg (nonNilStrings (job_Command j)),
      PInt (i32 (GPUCount (job_Resources j))), PInt (MinGPUMemoryBytes (job_Resources j)),
      PFloat (CPUCores (job_Resources j)), PInt (MemoryBytes (job_Resources j)),
      PInt (job_Priority j), PBool (job_Preemptible j), PInt (job_RetryLimit j), PInt (job_CurrentAttempt j),
      PInt (job_TimeoutSeconds j), PInt (job_CheckpointIntervalSeconds j),
      PText (state_string (job_State j)), texts_arg (nonNilStrings (job_AssignedWorkerIDs j)), PText (job_FailureReason j),
      PTime (job_CreatedAt j), time_arg (job_StartedAt j), time_arg (job_CompletedAt j), time_arg (job_FailedAt j)]"

definition jobUpdateArgs :: "Job \<Rightarrow> row" where
  "jobUpdateArgs j =
     [PText (job_ID j), PText (job_Name j), PText (job_Owner j), PText (job_Image j),
      texts_arg (nonNilStrings (job_Command j)),
      PInt (i32 (GPUCount (job_Resources j))), PInt (MinGPUMemoryBytes (job_Resources j)),
      PFloat (CPUCores (job_Resources j)), PInt (MemoryBytes (job_Resources j)),
      PInt (job_Priority j), PBool (job_Preemptible j), PInt (job_RetryLimit j), PInt (job_CurrentAttempt j),
      PInt (job_TimeoutSeconds j), PInt (job_CheckpointIntervalSeconds j),
      PText (state_string (job_State j)), texts_arg (nonNilStrings (job_AssignedWorkerIDs j)), PText (job_FailureReason j),
      PTime (job_CreatedAt j), time_arg (job_StartedAt j), time_arg (job_CompletedAt j), time_arg (job_FailedAt j)]"

text \<open>\<^verbatim>\<open>Scan\<close> of one column into a destination of the matching Go type; a pointer destination takes
  \<^verbatim>\<open>NULL\<close> as nil.\<close>

definition bind_result :: "'a result \<Rightarrow> ('a \<Rightarrow> 'b result) \<Rightarrow> 'b result" where
  "bind_result x f = (case x of Inl e \<Rightarrow> Inl e | Inr a \<Rightarrow> f a)"

definition scan_error :: goerr where
  "scan_error = Plain ''cannot scan column''"

fun scan_text :: "pgval \<Rightarrow> string result" where
  "scan_text (PText s) = Inr s" | "scan_text v = Inl scan_error"

fun scan_int :: "pgval \<Rightarrow> int result" where
  "scan_int (PInt n) = Inr n" | "scan_int v = Inl scan_error"

fun scan_float :: "pgval \<Rightarrow> float64 result" where
  "scan_float (PFloat x) = Inr x" | "scan_float v = Inl scan_error"

fun scan_bool :: "pgval \<Rightarrow> bool result" where
  "scan_bool (PBool b) = Inr b" | "scan_bool v = Inl scan_error"

fun scan_time :: "pgval \<Rightarrow> Time result" where
  "scan_time (PTime t) = Inr t" | "scan_time v = Inl scan_error"

fun scan_time_ptr :: "pgval \<Rightarrow> Time option result" where
  "scan_time_ptr PNull = Inr None" | "scan_time_ptr (PTime t) = Inr (Some t)" | "scan_time_ptr v = Inl scan_error"

fun scan_texts :: "pgval \<Rightarrow> string slice result" where
  "scan_texts PNull = Inr None" | "scan_texts (PTexts xs) = Inr (Some xs)" | "scan_texts v = Inl scan_error"

text \<open>\<^verbatim>\<open>jobs.State(state)\<close>.  The \<^verbatim>\<open>CHECK\<close> constraint leaves no other text in the column; one that is
  no state counts as a scan error.\<close>

definition scan_state :: "pgval \<Rightarrow> State result" where
  "scan_state v =
     bind_result (scan_text v) (\<lambda>s.
       case filter (\<lambda>st. state_string st = s)
              [StateQueued, StateScheduled, StateRunning, StateCheckpointing, StateSucceeded, StateFailed,
               StateRetrying, StateCancelRequested, StateCancelled, StatePreempted, StateLost] of
         [] \<Rightarrow> Inl scan_error
       | st # _ \<Rightarrow> Inr st)"

definition scanJob :: "row \<Rightarrow> Job result" where
  "scanJob r =
     (if length r \<noteq> 23 then Inl scan_error
      else bind_result (scan_text (r ! 0)) (\<lambda>ident.
        bind_result (scan_text (r ! 1)) (\<lambda>submissionID.
        bind_result (scan_text (r ! 2)) (\<lambda>name.
        bind_result (scan_text (r ! 3)) (\<lambda>owner.
        bind_result (scan_text (r ! 4)) (\<lambda>image.
        bind_result (scan_texts (r ! 5)) (\<lambda>command.
        bind_result (scan_int (r ! 6)) (\<lambda>gpuCount.
        bind_result (scan_int (r ! 7)) (\<lambda>minGPUMemoryBytes.
        bind_result (scan_float (r ! 8)) (\<lambda>cpuCores.
        bind_result (scan_int (r ! 9)) (\<lambda>memoryBytes.
        bind_result (scan_int (r ! 10)) (\<lambda>priority.
        bind_result (scan_bool (r ! 11)) (\<lambda>preemptible.
        bind_result (scan_int (r ! 12)) (\<lambda>retryLimit.
        bind_result (scan_int (r ! 13)) (\<lambda>currentAttempt.
        bind_result (scan_int (r ! 14)) (\<lambda>timeoutSeconds.
        bind_result (scan_int (r ! 15)) (\<lambda>checkpointIntervalSeconds.
        bind_result (scan_state (r ! 16)) (\<lambda>state.
        bind_result (scan_texts (r ! 17)) (\<lambda>assignedWorkerIDs.
        bind_result (scan_text (r ! 18)) (\<lambda>failureReason.
        bind_result (scan_time (r ! 19)) (\<lambda>createdAt.
        bind_result (scan_time_ptr (r ! 20)) (\<lambda>startedAt.
        bind_result (scan_time_ptr (r ! 21)) (\<lambda>completedAt.
        bind_result (scan_time_ptr (r ! 22)) (\<lambda>failedAt.
        Inr \<lparr>job_ID = ident, job_Name = name, job_SubmissionID = submissionID, job_Owner = owner,
             job_Image = image, job_Command = command,
             job_Resources = \<lparr>GPUCount = u32 gpuCount, MinGPUMemoryBytes = minGPUMemoryBytes,
               CPUCores = cpuCores, MemoryBytes = memoryBytes\<rparr>,
             job_Priority = priority, job_Preemptible = preemptible, job_RetryLimit = retryLimit,
             job_CurrentAttempt = currentAttempt, job_TimeoutSeconds = timeoutSeconds,
             job_CheckpointIntervalSeconds = checkpointIntervalSeconds, job_State = state,
             job_AssignedWorkerIDs = assignedWorkerIDs, job_FailureReason = failureReason,
             job_CreatedAt = createdAt, job_StartedAt = startedAt, job_CompletedAt = completedAt,
             job_FailedAt = failedAt\<rparr>))))))))))))))))))))))))"

section \<open>Keyset page tokens\<close>

definition encodeListToken :: "Time \<Rightarrow> string \<Rightarrow> string" where
  "encodeListToken t ident = EncodeToString (format_rfc3339nano t @ ''|'' @ ident)"

text \<open>\<^verbatim>\<open>strings.SplitN(raw, "|", 2)\<close>: what is before and after the first bar.\<close>

definition split_bar :: "string \<Rightarrow> (string \<times> string) option" where
  "split_bar s =
     (case dropWhile (\<lambda>c. c \<noteq> CHR ''|'') s of
        [] \<Rightarrow> None
      | c # rest \<Rightarrow> Some (takeWhile (\<lambda>c. c \<noteq> CHR ''|'') s, rest))"

definition decodeListToken :: "string \<Rightarrow> (Time \<times> string) result" where
  "decodeListToken token =
     (case DecodeString token of
        Inl e \<Rightarrow> Inl e
      | Inr raw \<Rightarrow>
          (case split_bar raw of
             None \<Rightarrow> Inl (Plain ''malformed page_token'')
           | Some (stamp, ident) \<Rightarrow>
               (case parse_rfc3339nano stamp of
                  None \<Rightarrow> Inl (Wrap ''malformed page_token timestamp: '' (Plain ''cannot parse'') [])
                | Some t \<Rightarrow> Inr (t, ident))))"

section \<open>The repository\<close>

definition insertJobEvent ::
    "'d Pool \<Rightarrow> string \<Rightarrow> string \<Rightarrow> string option \<Rightarrow> string \<Rightarrow> string \<Rightarrow> 'd \<Rightarrow> goerr option \<times> 'd" where
  "insertJobEvent pool jobID eventType fromState toState detail d =
     (case pg_Exec pool InsertJobEvent
             [PText jobID, PText eventType, (case fromState of None \<Rightarrow> PNull | Some s \<Rightarrow> PText s),
              PText toState, PText detail] d of
        (Some e, d') \<Rightarrow> (Some (Wrap ''persistence: insert job event: '' e []), d')
      | (None, d') \<Rightarrow> (None, d'))"

definition getBySubmissionID :: "'d Pool \<Rightarrow> string \<Rightarrow> 'd \<Rightarrow> Job result" where
  "getBySubmissionID pool submissionID d =
     (case bind_result (fst (pg_QueryRow pool SelectJobBySubmissionID [PText submissionID] d)) scanJob of
        Inl e \<Rightarrow>
          (if errors_Is e Pgx_ErrNoRows then Inl Jobs_ErrNotFound
           else Inl (Wrap ''persistence: get job by submission_id: '' e []))
      | Inr job \<Rightarrow> Inr job)"

definition pgj_Create :: "'d Pool \<Rightarrow> Job \<Rightarrow> 'd \<Rightarrow> (Job \<times> bool) result \<times> 'd" where
  "pgj_Create pool job d =
     (case pg_Begin pool d of
        Some e \<Rightarrow> (Inl (Wrap ''persistence: begin create tx: '' e []), d)
      | None \<Rightarrow>
          (case pg_QueryRow pool InsertJob (jobInsertArgs job) d of (inserted, tx) \<Rightarrow>
            (case bind_result inserted scanJob of
               Inr created \<Rightarrow>
                 (case insertJobEvent pool (job_ID created) ''SUBMITTED'' None (state_string (job_State created)) [] tx of
                    (Some e, tx) \<Rightarrow> (Inl e, d)
                  | (None, tx) \<Rightarrow>
                      (case pg_Commit pool d tx of
                         (Some e, d') \<Rightarrow> (Inl (Wrap ''persistence: commit create: '' e []), d')
                       | (None, d') \<Rightarrow> (Inr (created, True), d')))
             | Inl e \<Rightarrow>
                 (if errors_Is e Pgx_ErrNoRows
                  then if job_SubmissionID job = []
                       then (Inl (Plain ''persistence: unexpected insert conflict with an empty submission_id''), d)
                       else (case getBySubmissionID pool (job_SubmissionID job) d of
                               Inl getErr \<Rightarrow> (Inl getErr, d)
                             | Inr existing \<Rightarrow> (Inr (existing, False), d))
                  else (Inl (Wrap ''persistence: insert job: '' e []), d)))))"

definition pgj_Get :: "'d Pool \<Rightarrow> string \<Rightarrow> 'd \<Rightarrow> Job result" where
  "pgj_Get pool ident d =
     (case bind_result (fst (pg_QueryRow pool SelectJobByID [PText ident] d)) scanJob of
        Inl e \<Rightarrow>
          (if errors_Is e Pgx_ErrNoRows then Inl Jobs_ErrNotFound
           else Inl (Wrap ''persistence: get job: '' e []))
      | Inr job \<Rightarrow> Inr job)"

text \<open>The loop over \<^verbatim>\<open>rows\<close>: scan each, stop at the first that fails.\<close>

fun scan_rows :: "(row \<Rightarrow> 'a result) \<Rightarrow> string \<Rightarrow> row list \<Rightarrow> 'a list result" where
  "scan_rows scan what [] = Inr []"
| "scan_rows scan what (r # rs) =
     (case scan r of
        Inl e \<Rightarrow> Inl (Wrap what e [])
      | Inr x \<Rightarrow> (case scan_rows scan what rs of Inl e \<Rightarrow> Inl e | Inr xs \<Rightarrow> Inr (x # xs)))"

text \<open>The arguments and conditions \<^verbatim>\<open>List\<close> collects: the limit first, then the filter and the key,
  each placeholder numbered by the arguments so far.\<close>

definition list_query :: "int \<Rightarrow> string \<Rightarrow> (Time \<times> string) option \<Rightarrow> row \<times> Condition list" where
  "list_query pageSize filter_text after =
     (let args = [PInt (i32 (pageSize + 1))]; conditions = [];
          (args, conditions) =
            (if filter_text \<noteq> [] then (args @ [PText filter_text], conditions @ [FilterEq (length args + 1)])
             else (args, conditions))
      in case after of
           None \<Rightarrow> (args, conditions)
         | Some (t, ident) \<Rightarrow>
             (args @ [PTime t, PText ident], conditions @ [KeyAfter (length args + 1) (length args + 2)]))"

definition pgj_List :: "'d Pool \<Rightarrow> ListOptions \<Rightarrow> 'd \<Rightarrow> ListResult result" where
  "pgj_List pool opts d =
     (let pageSize = effective_page_size (opt_PageSize opts)
      in case (if opt_PageToken opts = [] then Inr None else map_sum id Some (decodeListToken (opt_PageToken opts))) of
           Inl e \<Rightarrow> Inl (Wrap ''invalid page_token: '' e [])
         | Inr after \<Rightarrow>
             (case list_query pageSize (state_string (opt_StateFilter opts)) after of (args, conditions) \<Rightarrow>
               (case pg_Query pool (SelectJobs conditions) args d of
                  Inl e \<Rightarrow> Inl (Wrap ''persistence: list jobs: '' e [])
                | Inr (rows, err) \<Rightarrow>
                    (case scan_rows scanJob ''persistence: scan listed job: '' rows of
                       Inl e \<Rightarrow> Inl e
                     | Inr page \<Rightarrow>
                         (case err of
                            Some e \<Rightarrow> Inl (Wrap ''persistence: iterate listed jobs: '' e [])
                          | None \<Rightarrow>
                              (if int (length page) > pageSize
                               then let lst = page ! nat (pageSize - 1)
                                    in Inr \<lparr>res_Jobs = take (nat pageSize) page,
                                            res_NextPageToken = encodeListToken (job_CreatedAt lst) (job_ID lst)\<rparr>
                               else Inr \<lparr>res_Jobs = page, res_NextPageToken = []\<rparr>))))))"

definition pgj_Update :: "'d Pool \<Rightarrow> string \<Rightarrow> (Job \<Rightarrow> Job result) \<Rightarrow> 'd \<Rightarrow> Job result \<times> 'd" where
  "pgj_Update pool ident fn d =
     (case pg_Begin pool d of
        Some e \<Rightarrow> (Inl (Wrap ''persistence: begin update tx: '' e []), d)
      | None \<Rightarrow>
          (case pg_QueryRow pool SelectJobByIDForUpdate [PText ident] d of (selected, tx) \<Rightarrow>
            (case bind_result selected scanJob of
               Inl e \<Rightarrow>
                 (if errors_Is e Pgx_ErrNoRows then (Inl Jobs_ErrNotFound, d)
                  else (Inl (Wrap ''persistence: select job for update: '' e []), d))
             | Inr current \<Rightarrow>
                 (case fn current of
                    Inl e \<Rightarrow> (Inl e, d)
                  | Inr updated \<Rightarrow>
                      (case pg_QueryRow pool UpdateJob (jobUpdateArgs updated) tx of (changed, tx) \<Rightarrow>
                        (case bind_result changed scanJob of
                           Inl e \<Rightarrow> (Inl (Wrap ''persistence: update job: '' e []), d)
                         | Inr new \<Rightarrow>
                             (case (if job_State current \<noteq> job_State new
                                    then insertJobEvent pool (job_ID new) ''STATE_CHANGED''
                                           (Some (state_string (job_State current))) (state_string (job_State new)) [] tx
                                    else (None, tx)) of
                                (Some e, tx) \<Rightarrow> (Inl e, d)
                              | (None, tx) \<Rightarrow>
                                  (case pg_Commit pool d tx of
                                     (Some e, d') \<Rightarrow> (Inl (Wrap ''persistence: commit update: '' e []), d')
                                   | (None, d') \<Rightarrow> (Inr new, d')))))))))"

definition pgj_ListActive :: "'d Pool \<Rightarrow> 'd \<Rightarrow> Job list result" where
  "pgj_ListActive pool d =
     (case pg_Query pool SelectActiveJobs [] d of
        Inl e \<Rightarrow> Inl (Wrap ''persistence: list active jobs: '' e [])
      | Inr (rows, err) \<Rightarrow>
          (case scan_rows scanJob ''persistence: scan active job: '' rows of
             Inl e \<Rightarrow> Inl e
           | Inr active \<Rightarrow>
               (case err of
                  Some e \<Rightarrow> Inl (Wrap ''persistence: iterate active jobs: '' e [])
                | None \<Rightarrow> Inr active)))"

definition NewJobRepository :: "'d Pool \<Rightarrow> 'd JobRepository" where
  "NewJobRepository pool =
     \<lparr>repo_Create = pgj_Create pool, repo_Get = pgj_Get pool, repo_List = pgj_List pool,
      repo_Update = pgj_Update pool, repo_ListActive = pgj_ListActive pool\<rparr>"

end
