(* ===== verification/Postgres_Contract.thy ===== *)
theory Postgres_Contract
  imports Postgres_Jobs
begin

text \<open>
  The PostgreSQL job repository against the contract of \<^verbatim>\<open>jobs.Repository\<close>: what a row keeps of a
  job, the invariant of the jobs table, and what each call does to it on a server that satisfies
  \<open>postgres\<close>.
\<close>

section \<open>Rows\<close>

definition stored_row :: "Job \<Rightarrow> row" where
  "stored_row j = map stored (jobInsertArgs j)"

abbreviation pg_norm :: "Job \<Rightarrow> Job" where
  "pg_norm \<equiv> norm_job micros nonNilStrings"

text \<open>The jobs the tables can hold: Go values of their types with a state, and no value the columns
  reject.\<close>

definition storable :: "Job \<Rightarrow> bool" where
  "storable j \<longleftrightarrow> job_ranges j \<and> job_State j \<noteq> StateZero \<and> list_all fits (jobInsertArgs j)"

lemma bind_result_simps [simp]:
  "bind_result (Inr a) f = f a" "bind_result (Inl e) f = Inl e"
  by (simp_all add: bind_result_def)

lemma micros_idem [simp]: "micros (micros t) = micros t"
  by (simp add: micros_def)

lemma nonNil_idem [simp]: "nonNilStrings (nonNilStrings s) = nonNilStrings s"
  by (simp add: nonNilStrings_def split: option.split)

lemma nonNil_elems [simp]: "elems (nonNilStrings s) = elems s"
  by (simp add: nonNilStrings_def split: option.split)

lemma u32_i32: "in_u32 n \<Longrightarrow> u32 (i32 n) = n"
proof -
  assume "in_u32 n"
  then have "n mod 2 ^ 32 = n" by (simp add: in_u32_def)
  moreover have "u32 (i32 n) = n mod 2 ^ 32" unfolding u32_def i32_def by (simp add: mod_simps)
  ultimately show ?thesis by simp
qed

lemma scan_columns [simp]:
  "scan_texts (texts_arg (nonNilStrings s)) = Inr (nonNilStrings s)"
  "scan_time_ptr (stored (time_arg t)) = Inr (map_option micros t)"
  "stored (texts_arg s) = texts_arg s"
  by (simp_all add: texts_arg_def time_arg_def nonNilStrings_def split: option.split)

lemma scan_state_string: "s \<noteq> StateZero \<Longrightarrow> scan_state (PText (state_string s)) = Inr s"
  by (cases s) (simp_all add: scan_state_def)

lemma length_stored_row [simp]: "length (stored_row j) = 23"
  by (simp add: stored_row_def jobInsertArgs_def)

lemma stored_row_columns [simp]:
  "stored_row j ! 0 = PText (job_ID j)" "stored_row j ! Suc 0 = PText (job_SubmissionID j)"
  "stored_row j ! 10 = PInt (job_Priority j)" "stored_row j ! 16 = PText (state_string (job_State j))"
  "stored_row j ! 19 = PTime (micros (job_CreatedAt j))"
  by (simp_all add: stored_row_def jobInsertArgs_def)

lemma scanJob_stored_row:
  assumes "storable j"
  shows "scanJob (stored_row j) = Inr (pg_norm j)"
proof -
  have g: "u32 (i32 (GPUCount (job_Resources j))) = GPUCount (job_Resources j)" "job_State j \<noteq> StateZero"
    using assms by (simp_all add: storable_def job_ranges_def resource_ranges_def u32_i32)
  then show ?thesis
    unfolding scanJob_def stored_row_def jobInsertArgs_def
    by (cases j; cases "job_Resources j") (simp add: scan_state_string norm_job_def)
qed

lemma stored_row_norm [simp]: "stored_row (pg_norm j) = stored_row j"
  by (simp add: stored_row_def jobInsertArgs_def norm_job_def time_arg_def split: option.split)

lemma updated_row:
  "job_ID j' = job_ID j \<Longrightarrow> job_SubmissionID j' = job_SubmissionID j \<Longrightarrow>
   stored_row j ! 0 # stored_row j ! 1 # map stored (tl (jobUpdateArgs j')) = stored_row j'"
  by (simp add: stored_row_def jobInsertArgs_def jobUpdateArgs_def)

lemma fits_micros: "fits_time t \<Longrightarrow> fits_time (micros t)"
proof -
  assume t: "fits_time t"
  have "t div 1000 * 1000 + t mod 1000 = t" "0 \<le> t mod 1000" by simp_all
  then have "micros t \<le> t" unfolding micros_def by linarith
  moreover have "- 210866803200 * 10 ^ 6 \<le> t div 1000"
    using t zdiv_mono1 [of "- 210866803200 * 10 ^ 9" t 1000] by (simp add: fits_time_def)
  then have "- 210866803200 * 10 ^ 9 \<le> micros t" by (simp add: micros_def)
  ultimately show ?thesis using t by (simp add: fits_time_def)
qed

lemma fits_stored: "fits v \<Longrightarrow> fits (stored v)"
  by (cases v) (simp_all add: fits_micros)

section \<open>The jobs table\<close>

definition pg_list :: "Tables \<Rightarrow> Job list" where
  "pg_list T = map (\<lambda>r. projr (scanJob r)) (tb_jobs T)"

definition pg_jobs :: "Tables \<Rightarrow> string \<rightharpoonup> Job" where
  "pg_jobs T = map_of (map (\<lambda>j. (job_ID j, j)) (pg_list T))"

definition good_jobs :: "Job list \<Rightarrow> bool" where
  "good_jobs js \<longleftrightarrow> distinct (map job_ID js) \<and> (\<forall>j \<in> set js. storable j \<and> pg_norm j = j)
     \<and> (\<forall>i \<in> set js. \<forall>j \<in> set js. job_SubmissionID i = job_SubmissionID j \<and> job_SubmissionID i \<noteq> [] \<longrightarrow> i = j)"

definition pg_ok :: "Tables \<Rightarrow> bool" where
  "pg_ok T \<longleftrightarrow> good_jobs (pg_list T) \<and> tb_jobs T = map stored_row (pg_list T)"

lemma storable_norm: "storable j \<Longrightarrow> storable (pg_norm j)"
proof -
  assume j: "storable j"
  have "list_all fits (stored_row (pg_norm j))"
    using j by (simp add: storable_def stored_row_norm) (simp add: stored_row_def list_all_iff fits_stored)
  moreover have "jobInsertArgs (pg_norm j) = stored_row (pg_norm j)"
    by (simp add: stored_row_def jobInsertArgs_def norm_job_def time_arg_def split: option.split)
  ultimately show ?thesis using j by (simp add: storable_def job_ranges_def norm_job_def)
qed

lemma pg_norm_idem [simp]: "pg_norm (pg_norm j) = pg_norm j"
  by (simp add: norm_job_def option.map_comp o_def)

lemma pg_okI:
  assumes "good_jobs js" "tb_jobs T = map stored_row js"
  shows "pg_list T = js" "pg_ok T"
proof -
  have "projr (scanJob (stored_row j)) = j" if "j \<in> set js" for j
    using assms(1) that by (simp add: good_jobs_def scanJob_stored_row)
  then show "pg_list T = js" by (simp add: pg_list_def assms(2) o_def map_idI)
  with assms show "pg_ok T" by (simp add: pg_ok_def)
qed

lemma pg_jobs_Some:
  assumes "pg_ok T"
  shows "pg_jobs T k = Some j \<longleftrightarrow> j \<in> set (pg_list T) \<and> job_ID j = k"
  using assms unfolding pg_jobs_def pg_ok_def good_jobs_def
  by (subst map_of_eq_Some_iff) (auto simp: o_def image_iff)

lemma pg_rows_by_id:
  assumes "pg_ok T"
  shows "filter (\<lambda>r. r ! 0 = PText k) (tb_jobs T) = (case pg_jobs T k of None \<Rightarrow> [] | Some j \<Rightarrow> [stored_row j])"
proof -
  from filter_key [of job_ID "pg_list T" k] assms show ?thesis
    by (auto simp: pg_ok_def pg_jobs_def good_jobs_def filter_map o_def split: option.splits)
qed

lemma pg_rows_by_submission:
  assumes "pg_ok T" "j \<in> set (pg_list T)" "job_SubmissionID j \<noteq> []"
  shows "filter (\<lambda>r. r ! 1 = PText (job_SubmissionID j)) (tb_jobs T) = [stored_row j]"
proof -
  have "filter (\<lambda>i. job_SubmissionID i = job_SubmissionID j) (pg_list T) = filter (\<lambda>i. i = j) (pg_list T)"
    using assms by (intro filter_cong refl) (auto simp: pg_ok_def good_jobs_def)
  moreover have "distinct (pg_list T)" using assms(1) by (simp add: pg_ok_def good_jobs_def distinct_map)
  then have "filter (\<lambda>i. i = j) (pg_list T) = [j]" using filter_key [of "\<lambda>i. i" "pg_list T" j] assms(2)
    by (simp add: map_of_map_id)
  ultimately show ?thesis using assms(1) by (simp add: pg_ok_def filter_map o_def)
qed

lemma scan_rows_stored:
  "\<forall>j \<in> set js. storable j \<and> pg_norm j = j \<Longrightarrow> scan_rows scanJob w (map stored_row js) = Inr js"
  by (induction js) (simp_all add: scanJob_stored_row)

lemma good_jobs_filter: "good_jobs js \<Longrightarrow> \<forall>j \<in> set (sort_slice lt (filter P js)). storable j \<and> pg_norm j = j"
  by (simp add: good_jobs_def)

lemma norm_created: "pg_norm j = j \<Longrightarrow> micros (job_CreatedAt j) = job_CreatedAt j"
proof -
  assume "pg_norm j = j"
  from arg_cong [OF this, of job_CreatedAt] show ?thesis by (simp add: norm_job_def)
qed

lemma row_orders:
  assumes "pg_norm i = i" "pg_norm j = j"
  shows "created_row_less (stored_row i) (stored_row j) = created_less i j"
    "active_row_less (stored_row i) (stored_row j) = active_less i j"
proof -
  have "micros (job_CreatedAt i) = job_CreatedAt i" "micros (job_CreatedAt j) = job_CreatedAt j"
    using assms by (simp_all add: norm_created)
  then show "created_row_less (stored_row i) (stored_row j) = created_less i j"
    "active_row_less (stored_row i) (stored_row j) = active_less i j"
    by (auto simp: created_row_less_def created_less_def active_row_less_def active_less_def)
qed

lemma sort_slice_cong:
  assumes "\<And>a b. a \<in> set xs \<Longrightarrow> b \<in> set xs \<Longrightarrow> lt a b = lt' a b"
  shows "sort_slice lt xs = sort_slice lt' xs"
proof -
  have ins: "insert_by lt x ys = insert_by lt' x ys" if "\<And>b. b \<in> set ys \<Longrightarrow> lt b x = lt' b x" for x ys
    using that by (induction ys) simp_all
  show ?thesis using assms
  proof (induction xs)
    case (Cons x xs)
    then have "sort_slice lt xs = sort_slice lt' xs" by simp
    moreover have "insert_by lt x (sort_slice lt' xs) = insert_by lt' x (sort_slice lt' xs)"
      by (rule ins) (use Cons.prems in simp)
    ultimately show ?case by simp
  qed simp
qed

lemma terminal_text: "PText (state_string s) \<in> terminal_texts \<longleftrightarrow> Terminal s"
  by (cases s) (simp_all add: terminal_texts_def)

lemma state_text: "s \<noteq> StateZero \<Longrightarrow> PText (state_string s) \<in> job_state_texts"
  by (cases s) (simp_all add: job_state_texts_def)

lemma fits_update_args: "list_all fits (jobInsertArgs j) \<Longrightarrow> list_all fits (jobUpdateArgs j)"
  by (simp add: jobInsertArgs_def jobUpdateArgs_def)

lemma fits_update_iff:
  "fits_text (job_SubmissionID j) \<Longrightarrow> list_all fits (jobUpdateArgs j) \<longleftrightarrow> list_all fits (jobInsertArgs j)"
  by (auto simp: jobInsertArgs_def jobUpdateArgs_def)

lemma job_args_columns [simp]:
  "jobInsertArgs j ! 0 = PText (job_ID j)" "jobInsertArgs j ! Suc 0 = PText (job_SubmissionID j)"
  "jobInsertArgs j ! 16 = PText (state_string (job_State j))" "length (jobInsertArgs j) = 23"
  "jobUpdateArgs j ! 0 = PText (job_ID j)" "jobUpdateArgs j ! 15 = PText (state_string (job_State j))"
  "length (jobUpdateArgs j) = 22"
  by (simp_all add: jobInsertArgs_def jobUpdateArgs_def)

text \<open>Event rows.\<close>

definition submitted_event :: "Job \<Rightarrow> row" where
  "submitted_event j = [PText (job_ID j), PText ''SUBMITTED'', PNull, PText (state_string (job_State j)), PText []]"

definition changed_event :: "Job \<Rightarrow> Job \<Rightarrow> row" where
  "changed_event j j' =
     [PText (job_ID j'), PText ''STATE_CHANGED'', PText (state_string (job_State j)),
      PText (state_string (job_State j')), PText []]"

lemma fits_state_string [simp]: "fits_text (state_string s)"
  by (rule fits_ascii) (cases s; simp)

lemma fits_event_texts [simp]: "fits_text ''SUBMITTED''" "fits_text ''STATE_CHANGED''" "fits_text []"
  by (simp_all add: fits_ascii)

lemma storable_texts: "storable j \<Longrightarrow> fits_text (job_ID j) \<and> fits_text (job_SubmissionID j)"
  by (simp add: storable_def jobInsertArgs_def)

lemma accepts_insert:
  assumes "storable j" "job_ID j \<notin> job_ID ` set js" "tb_jobs T = map stored_row js"
  shows "accepts InsertJob (jobInsertArgs j) T"
proof -
  have "stored_row i ! 0 \<noteq> jobInsertArgs j ! 0" if "i \<in> set js" for i
    using assms(2) imageI [OF that, of job_ID] by auto
  then show ?thesis using assms(1,3) by (auto simp: accepts_def storable_def state_text)
qed

lemma pg_jobs_upd:
  assumes "pg_ok T" "pg_jobs T k = Some j" "job_ID j' = k" "pg_list T' = map (\<lambda>i. if job_ID i = k then j' else i) (pg_list T)"
  shows "pg_jobs T' = (pg_jobs T)(k \<mapsto> j')"
proof
  fix i
  have "map_of (map (\<lambda>j. (job_ID j, j)) (map (\<lambda>i. if job_ID i = k then j' else i) js)) i =
      (if i = k \<and> k \<in> job_ID ` set js then Some j' else map_of (map (\<lambda>j. (job_ID j, j)) js) i)" for js
    using assms(3) by (induction js) auto
  moreover have "k \<in> job_ID ` set (pg_list T)" using assms(2) pg_jobs_Some [OF assms(1)] by auto
  ultimately show "pg_jobs T' i = ((pg_jobs T)(k \<mapsto> j')) i" by (simp add: pg_jobs_def assms(4))
qed

text \<open>The update of one row.\<close>

definition replace_job :: "string \<Rightarrow> Job \<Rightarrow> Job \<Rightarrow> Job" where
  "replace_job k j' i = (if job_ID i = k then pg_norm j' else i)"

lemma good_jobs_unique: "good_jobs js \<Longrightarrow> i \<in> set js \<Longrightarrow> j \<in> set js \<Longrightarrow> job_ID i = job_ID j \<Longrightarrow> i = j"
  by (auto simp: good_jobs_def distinct_map inj_on_def)

lemma replace_job_fields:
  assumes "good_jobs js" "j \<in> set js" "job_ID j' = job_ID j" "job_SubmissionID j' = job_SubmissionID j" "i \<in> set js"
  shows "job_ID (replace_job (job_ID j) j' i) = job_ID i"
    "job_SubmissionID (replace_job (job_ID j) j' i) = job_SubmissionID i"
  using assms good_jobs_unique [OF assms(1,5,2)] by (auto simp: replace_job_def)

lemma good_jobs_replace:
  assumes "good_jobs js" "j \<in> set js" "job_ID j' = job_ID j" "job_SubmissionID j' = job_SubmissionID j" "storable j'"
  shows "good_jobs (map (replace_job (job_ID j) j') js)"
proof -
  let ?f = "replace_job (job_ID j) j'"
  note same = replace_job_fields [OF assms(1-4)]
  have "map job_ID (map ?f js) = map job_ID js" using same(1) by simp
  then have "distinct (map job_ID (map ?f js))" using assms(1) by (simp only: good_jobs_def)
  moreover have "storable (?f i) \<and> pg_norm (?f i) = ?f i" if "i \<in> set js" for i
    using assms(1,5) that by (simp add: replace_job_def good_jobs_def storable_norm)
  moreover have "?f i = ?f i'" if "i \<in> set js" "i' \<in> set js" "job_SubmissionID (?f i) = job_SubmissionID (?f i')"
    "job_SubmissionID (?f i) \<noteq> []" for i i'
  proof -
    have "i = i'" using assms(1) that same(2) by (auto simp: good_jobs_def)
    then show ?thesis by simp
  qed
  ultimately show ?thesis using assms(1) unfolding good_jobs_def by auto
qed

lemma sql_UpdateJob:
  assumes "pg_ok T" "pg_jobs T k = Some j" "job_ID j' = job_ID j" "job_SubmissionID j' = job_SubmissionID j"
  shows "sql UpdateJob (jobUpdateArgs j') T =
    ([stored_row j'], T\<lparr>tb_jobs := map stored_row (map (replace_job k j') (pg_list T))\<rparr>)"
proof -
  let ?new = "\<lambda>r. r ! 0 # r ! 1 # map stored (tl (jobUpdateArgs j'))"
  have j: "j \<in> set (pg_list T)" "job_ID j = k" using assms(1,2) by (simp_all add: pg_jobs_Some)
  have rows: "tb_jobs T = map stored_row (pg_list T)" "good_jobs (pg_list T)" using assms(1) by (simp_all add: pg_ok_def)
  have "filter (\<lambda>r. r ! 0 = PText k) (tb_jobs T) = [stored_row j]"
    using pg_rows_by_id [OF assms(1), of k] assms(2) by simp
  moreover have new: "?new (stored_row j) = stored_row j'" by (rule updated_row [OF assms(3,4)])
  moreover have "(if stored_row i ! 0 = PText k then ?new (stored_row i) else stored_row i) = stored_row (replace_job k j' i)"
    if i: "i \<in> set (pg_list T)" for i
  proof (cases "job_ID i = k")
    case True
    then have "i = j" using good_jobs_unique [OF rows(2) i j(1)] j(2) by simp
    with True new show ?thesis by (simp add: replace_job_def)
  qed (simp add: replace_job_def)
  then have "map (\<lambda>r. if r ! 0 = PText k then ?new r else r) (tb_jobs T) =
      map stored_row (map (replace_job k j') (pg_list T))"
    unfolding rows(1) map_map o_def by (rule map_cong [OF refl])
  moreover have "jobUpdateArgs j' ! 0 = PText k" using assms(3) j(2) by simp
  ultimately show ?thesis by (simp only: sql.simps Let_def list.map)
qed

section \<open>The calls\<close>

context postgres
begin

lemma select_by_id:
  assumes "pg_ok (tables_of d)" "fits_text k" "s = SelectJobByID \<or> s = SelectJobByIDForUpdate"
    "pg_QueryRow pool s [PText k] d = (x, d')"
  shows "bind_result x scanJob = (case pg_jobs (tables_of d) k of None \<Rightarrow> Inl Pgx_ErrNoRows | Some j \<Rightarrow> Inr j) \<and> tables_of d' = tables_of d"
proof -
  have acc: "accepts s [PText k] (tables_of d)" using assms(2,3) by (elim disjE) (simp_all add: accepts_def)
  have "sql s [PText k] (tables_of d) = (filter (\<lambda>r. r ! 0 = PText k) (tb_jobs (tables_of d)), tables_of d)"
    using assms(3) by (elim disjE) simp_all
  with query_row_law [OF acc assms(4)] have
    "x = first_row (filter (\<lambda>r. r ! 0 = PText k) (tb_jobs (tables_of d)))" "tables_of d' = tables_of d" by simp_all
  moreover have "storable j \<and> pg_norm j = j" if "pg_jobs (tables_of d) k = Some j" for j
    using assms(1) that by (simp add: pg_jobs_Some) (simp add: pg_ok_def good_jobs_def)
  ultimately show ?thesis
    by (auto simp: pg_rows_by_id [OF assms(1)] first_row_def scanJob_stored_row split: option.splits)
qed

lemma pgj_Get_law:
  assumes "pg_ok (tables_of d)" "fits_text k"
  shows "pgj_Get pool k d = (case pg_jobs (tables_of d) k of None \<Rightarrow> Inl Jobs_ErrNotFound | Some j \<Rightarrow> Inr j)"
proof -
  obtain x d' where q: "pg_QueryRow pool SelectJobByID [PText k] d = (x, d')" by fastforce
  from select_by_id [OF assms _ q] show ?thesis
    by (auto simp: pgj_Get_def q split: option.splits)
qed

lemma unfit_query:
  assumes "\<not> fits_text k" "pg_QueryRow pool s [PText k] d = (x, d')"
  shows "\<exists>e. x = Inl e \<and> \<not> errors_Is e Pgx_ErrNoRows"
  by (rule query_row_rejected [OF _ assms(2)]) (simp add: accepts_def assms(1))

lemma insert_event:
  assumes "\<exists>r \<in> set (tb_jobs (tables_of d)). r ! 0 = PText k" "fits_text k" "fits_text e" "fits_text t"
    "case f of None \<Rightarrow> True | Some s \<Rightarrow> fits_text s" "insertJobEvent pool k e f t [] d = (x, d')"
  shows "x = None \<and> tables_of d' = (tables_of d)\<lparr>tb_events := tb_events (tables_of d) @
    [[PText k, PText e, (case f of None \<Rightarrow> PNull | Some s \<Rightarrow> PText s), PText t, PText []]]\<rparr>"
proof -
  let ?args = "[PText k, PText e, (case f of None \<Rightarrow> PNull | Some s \<Rightarrow> PText s), PText t, PText []]"
  obtain y d1 where q: "pg_Exec pool InsertJobEvent ?args d = (y, d1)" by fastforce
  have "accepts InsertJobEvent ?args (tables_of d)"
    using assms(1-5) by (auto simp: accepts_def split: option.splits)
  from exec_law [OF this q] assms(6) q show ?thesis by (auto simp: insertJobEvent_def)
qed

lemma change_event:
  assumes "\<exists>r \<in> set (tb_jobs (tables_of t)). r ! 0 = PText (job_ID j')" "fits_text (job_ID j')"
    "(if job_State j \<noteq> job_State j' then insertJobEvent pool (job_ID j') ''STATE_CHANGED''
        (Some (state_string (job_State j))) (state_string (job_State j')) [] t else (None, t)) = (e, t')"
  shows "e = None \<and> tables_of t' = (tables_of t)\<lparr>tb_events := tb_events (tables_of t) @
    (if job_State j' \<noteq> job_State j then [changed_event j j'] else [])\<rparr>"
proof (cases "job_State j = job_State j'")
  case False
  with insert_event [OF assms(1,2), of "''STATE_CHANGED''" "state_string (job_State j')" "Some (state_string (job_State j))"]
    assms(3) show ?thesis by (auto simp: changed_event_def)
qed (use assms(3) in simp)

text \<open>\<^verbatim>\<open>Create\<close>.\<close>

lemma pgj_Create_new:
  assumes ok: "pg_ok (tables_of d)" and st: "storable j" and free: "submission_free (job_SubmissionID j) (pg_jobs (tables_of d))"
    and new: "pg_jobs (tables_of d) (job_ID j) = None" and c: "pgj_Create pool j d = (x, d')"
  shows "x = Inr (pg_norm j, True) \<and> pg_ok (tables_of d')
    \<and> pg_jobs (tables_of d') = (pg_jobs (tables_of d))(job_ID j \<mapsto> pg_norm j)
    \<and> tb_events (tables_of d') = tb_events (tables_of d) @ [submitted_event j]"
proof -
  let ?T = "tables_of d"
  obtain y t1 where q: "pg_QueryRow pool InsertJob (jobInsertArgs j) d = (y, t1)" by fastforce
  have rows: "tb_jobs ?T = map stored_row (pg_list ?T)" and good: "good_jobs (pg_list ?T)"
    using ok by (simp_all add: pg_ok_def)
  have notin: "job_ID j \<notin> job_ID ` set (pg_list ?T)" using new by (simp add: pg_jobs_def map_of_eq_None_iff image_image)
  have fresh: "job_SubmissionID j = [] \<or> (\<forall>i \<in> set (pg_list ?T). job_SubmissionID i \<noteq> job_SubmissionID j)"
    using free pg_jobs_Some [OF ok] by (auto simp: submission_free_def)
  have "accepts InsertJob (jobInsertArgs j) ?T" by (rule accepts_insert [OF st notin rows])
  from query_row_law [OF this q] fresh have y: "y = Inr (stored_row j)"
    and t1: "tables_of t1 = ?T\<lparr>tb_jobs := tb_jobs ?T @ [stored_row j]\<rparr>"
    by (auto simp: rows first_row_def stored_row_def [symmetric])
  have good': "good_jobs (pg_list ?T @ [pg_norm j])"
    using good st notin fresh by (auto simp: good_jobs_def storable_norm)
  obtain e t2 where ev: "insertJobEvent pool (job_ID j) ''SUBMITTED'' None (state_string (job_State j)) [] t1 = (e, t2)"
    by fastforce
  have "e = None \<and> tables_of t2 = (tables_of t1)\<lparr>tb_events := tb_events (tables_of t1) @ [submitted_event j]\<rparr>"
    using insert_event [OF _ _ _ _ _ ev] storable_texts [OF st] by (simp add: t1 submitted_event_def)
  then have t2: "e = None" "tb_jobs (tables_of t2) = map stored_row (pg_list ?T @ [pg_norm j])"
    "tb_events (tables_of t2) = tb_events ?T @ [submitted_event j]" by (simp_all add: t1 rows)
  obtain e' d1 where cm: "pg_Commit pool d t2 = (e', d1)" by fastforce
  from commit_law [OF cm] have d1: "e' = None" "tables_of d1 = tables_of t2" by simp_all
  have out: "x = Inr (pg_norm j, True)" "d' = d1"
    using c begin_law [of d] q y ev t2(1) cm d1(1) by (simp_all add: pgj_Create_def scanJob_stored_row [OF st])
  have l: "pg_list (tables_of d') = pg_list ?T @ [pg_norm j]" "pg_ok (tables_of d')"
    using pg_okI [OF good'] out(2) d1(2) t2(2) by simp_all
  have "pg_jobs (tables_of d') = (pg_jobs ?T)(job_ID j \<mapsto> pg_norm j)"
    using new by (auto simp: pg_jobs_def l(1) fun_eq_iff map_add_def split: option.split)
  with out d1(2) t2(3) l(2) show ?thesis by simp
qed

lemma pgj_Create_existing:
  assumes ok: "pg_ok (tables_of d)" and st: "storable j" and s: "job_SubmissionID j \<noteq> []"
    and new: "pg_jobs (tables_of d) (job_ID j) = None"
    and old: "pg_jobs (tables_of d) k = Some j0" "job_SubmissionID j0 = job_SubmissionID j"
  shows "pgj_Create pool j d = (Inr (j0, False), d)"
proof -
  let ?T = "tables_of d"
  obtain y t1 where q: "pg_QueryRow pool InsertJob (jobInsertArgs j) d = (y, t1)" by fastforce
  have rows: "tb_jobs ?T = map stored_row (pg_list ?T)" and good: "good_jobs (pg_list ?T)"
    using ok by (simp_all add: pg_ok_def)
  have j0: "j0 \<in> set (pg_list ?T)" using old(1) pg_jobs_Some [OF ok] by simp
  have notin: "job_ID j \<notin> job_ID ` set (pg_list ?T)" using new by (simp add: pg_jobs_def map_of_eq_None_iff image_image)
  have "accepts InsertJob (jobInsertArgs j) ?T" by (rule accepts_insert [OF st notin rows])
  from query_row_law [OF this q] s j0 old(2) have y: "y = Inl Pgx_ErrNoRows"
    by (auto simp: rows first_row_def)
  obtain z t2 where g: "pg_QueryRow pool SelectJobBySubmissionID [PText (job_SubmissionID j)] d = (z, t2)" by fastforce
  have "accepts SelectJobBySubmissionID [PText (job_SubmissionID j)] ?T"
    using storable_texts [OF st] by (simp add: accepts_def)
  from query_row_law [OF this g] have "z = Inr (stored_row j0)"
    using pg_rows_by_submission [OF ok j0] old(2) s by (simp add: first_row_def)
  moreover have "storable j0" "pg_norm j0 = j0" using good j0 by (auto simp: good_jobs_def)
  ultimately have "getBySubmissionID pool (job_SubmissionID j) d = Inr j0"
    by (simp add: getBySubmissionID_def g scanJob_stored_row)
  then show ?thesis using begin_law [of d] q y s by (simp add: pgj_Create_def)
qed

lemma pgj_Create_rejected:
  assumes "\<not> list_all fits (jobInsertArgs j) \<or> job_State j = StateZero" "pgj_Create pool j d = (x, d')"
  shows "(\<exists>e. x = Inl e) \<and> d' = d"
proof -
  obtain y t1 where q: "pg_QueryRow pool InsertJob (jobInsertArgs j) d = (y, t1)" by fastforce
  have "\<not> accepts InsertJob (jobInsertArgs j) (tables_of d)"
    using assms(1) by (auto simp: accepts_def job_state_texts_def)
  from query_row_rejected [OF this q] obtain e where "y = Inl e" "\<not> errors_Is e Pgx_ErrNoRows" by blast
  with assms(2) begin_law [of d] q show ?thesis by (auto simp: pgj_Create_def)
qed

text \<open>\<^verbatim>\<open>Update\<close>.\<close>

lemma pgj_Update_missing:
  assumes "pg_ok (tables_of d)" "fits_text k" "pg_jobs (tables_of d) k = None"
  shows "pgj_Update pool k f d = (Inl Jobs_ErrNotFound, d)"
proof -
  obtain x t where q: "pg_QueryRow pool SelectJobByIDForUpdate [PText k] d = (x, t)" by fastforce
  from select_by_id [OF assms(1,2) _ q] assms(3) begin_law [of d] q show ?thesis by (simp add: pgj_Update_def)
qed

lemma pgj_Update_unfit:
  assumes "\<not> fits_text k" "pgj_Update pool k f d = (x, d')"
  shows "(\<exists>e. x = Inl e) \<and> d' = d"
proof -
  obtain y t where q: "pg_QueryRow pool SelectJobByIDForUpdate [PText k] d = (y, t)" by fastforce
  from unfit_query [OF assms(1) q] assms(2) begin_law [of d] q show ?thesis by (auto simp: pgj_Update_def)
qed

lemma pgj_Update_error:
  assumes "pg_ok (tables_of d)" "pg_jobs (tables_of d) k = Some j" "f j = Inl e"
  shows "pgj_Update pool k f d = (Inl e, d)"
proof -
  obtain x t where q: "pg_QueryRow pool SelectJobByIDForUpdate [PText k] d = (x, t)" by fastforce
  have "fits_text k" using assms(1,2) storable_texts by (auto simp: pg_jobs_Some pg_ok_def good_jobs_def)
  from select_by_id [OF assms(1) this _ q] assms(2,3) begin_law [of d] q show ?thesis by (simp add: pgj_Update_def)
qed

lemma pgj_Update_rejected:
  assumes ok: "pg_ok (tables_of d)" and j: "pg_jobs (tables_of d) k = Some j" "f j = Inr j'"
    and u: "\<not> list_all fits (jobUpdateArgs j') \<or> job_State j' = StateZero" "pgj_Update pool k f d = (x, d')"
  shows "(\<exists>e. x = Inl e) \<and> d' = d"
proof -
  obtain y t where q: "pg_QueryRow pool SelectJobByIDForUpdate [PText k] d = (y, t)" by fastforce
  have "fits_text k" using ok j(1) storable_texts by (auto simp: pg_jobs_Some pg_ok_def good_jobs_def)
  note sel = select_by_id [OF ok this _ q]
  obtain z t1 where w: "pg_QueryRow pool UpdateJob (jobUpdateArgs j') t = (z, t1)" by fastforce
  have "\<not> accepts UpdateJob (jobUpdateArgs j') (tables_of t)"
    using u(1) by (auto simp: accepts_def job_state_texts_def)
  from query_row_rejected [OF this w] sel u(2) j q w begin_law [of d] show ?thesis by (auto simp: pgj_Update_def)
qed

lemma pgj_Update_ok:
  assumes ok: "pg_ok (tables_of d)" and j: "pg_jobs (tables_of d) k = Some j" "f j = Inr j'"
    and same: "job_ID j' = job_ID j" "job_SubmissionID j' = job_SubmissionID j" and st: "storable j'"
    and u: "pgj_Update pool k f d = (x, d')"
  shows "x = Inr (pg_norm j') \<and> pg_ok (tables_of d') \<and> pg_jobs (tables_of d') = (pg_jobs (tables_of d))(k \<mapsto> pg_norm j')
    \<and> tb_events (tables_of d') = tb_events (tables_of d) @ (if job_State j' \<noteq> job_State j then [changed_event j j'] else [])"
proof -
  let ?T = "tables_of d" and ?js = "map (replace_job k j') (pg_list (tables_of d))"
  have good: "good_jobs (pg_list ?T)" using ok by (simp add: pg_ok_def)
  have in_list: "j \<in> set (pg_list ?T)" and id: "job_ID j = k" using j(1) pg_jobs_Some [OF ok] by simp_all
  have fk: "fits_text k" using good in_list id storable_texts by (auto simp: good_jobs_def)
  obtain y t where q: "pg_QueryRow pool SelectJobByIDForUpdate [PText k] d = (y, t)" by fastforce
  from select_by_id [OF ok fk _ q] j(1) have sel: "bind_result y scanJob = Inr j" "tables_of t = ?T" by simp_all
  obtain z t1 where w: "pg_QueryRow pool UpdateJob (jobUpdateArgs j') t = (z, t1)" by fastforce
  have "accepts UpdateJob (jobUpdateArgs j') (tables_of t)"
    using st fits_update_args by (auto simp: accepts_def storable_def state_text)
  from query_row_law [OF this w] have z: "z = Inr (stored_row j')"
    and t1: "tables_of t1 = ?T\<lparr>tb_jobs := map stored_row ?js\<rparr>"
    unfolding sel(2) sql_UpdateJob [OF ok j(1) same] by (simp_all add: first_row_def)
  obtain e t2 where ev: "(if job_State j \<noteq> job_State j' then insertJobEvent pool (job_ID j') ''STATE_CHANGED''
      (Some (state_string (job_State j))) (state_string (job_State j')) [] t1 else (None, t1)) = (e, t2)" by fastforce
  have row: "\<exists>r \<in> set (tb_jobs (tables_of t1)). r ! 0 = PText (job_ID j')"
    using in_list id same by (force simp: t1 replace_job_def)
  have t2: "e = None" "tb_jobs (tables_of t2) = map stored_row ?js"
    "tb_events (tables_of t2) = tb_events ?T @ (if job_State j' \<noteq> job_State j then [changed_event j j'] else [])"
    using change_event [OF row _ ev] fk id same by (simp_all add: t1)
  obtain e' d1 where cm: "pg_Commit pool d t2 = (e', d1)" by fastforce
  from commit_law [OF cm] have d1: "e' = None" "tables_of d1 = tables_of t2" by simp_all
  have out: "x = Inr (pg_norm j')" "d' = d1"
    using u begin_law [of d] q sel(1) j(2) w z ev t2(1) cm d1(1)
    by (simp_all add: pgj_Update_def scanJob_stored_row [OF st] cong: if_cong)
  have l: "pg_list (tables_of d') = ?js" "pg_ok (tables_of d')"
    using pg_okI [OF good_jobs_replace [OF good in_list same st]] out(2) d1(2) t2(2) id by simp_all
  have "pg_jobs (tables_of d') = (pg_jobs ?T)(k \<mapsto> pg_norm j')"
    by (rule pg_jobs_upd [OF ok j(1)]) (simp_all add: same id l(1) replace_job_def)
  with out d1(2) t2(3) l(2) show ?thesis by simp
qed

text \<open>\<^verbatim>\<open>ListActive\<close>.\<close>

lemma pgj_ListActive_law:
  assumes "pg_ok (tables_of d)"
  shows "pgj_ListActive pool d =
    Inr (sort_slice active_less (filter (\<lambda>j. \<not> Terminal (job_State j)) (pg_list (tables_of d))))"
proof -
  let ?js = "filter (\<lambda>j. \<not> Terminal (job_State j)) (pg_list (tables_of d))"
  have good: "good_jobs (pg_list (tables_of d))" and rows: "tb_jobs (tables_of d) = map stored_row (pg_list (tables_of d))"
    using assms by (simp_all add: pg_ok_def)
  have "fst (sql SelectActiveJobs [] (tables_of d)) = sort_slice active_row_less (map stored_row ?js)"
    by (simp add: rows filter_map o_def terminal_text)
  also have "\<dots> = map stored_row (sort_slice active_less ?js)"
    unfolding sort_slice_map using good row_orders(2)
    by (intro arg_cong [where f = "map stored_row"] sort_slice_cong) (auto simp: good_jobs_def)
  finally show ?thesis
    using query_law [of SelectActiveJobs "[]" d] scan_rows_stored [OF good_jobs_filter [OF good]]
    by (simp add: pgj_ListActive_def accepts_def del: sql.simps)
qed

text \<open>Every outcome of \<^verbatim>\<open>Create\<close> and \<^verbatim>\<open>Update\<close>.\<close>

lemma pgj_Create_effect:
  assumes "pg_ok (tables_of d)" "job_ranges j" "pg_jobs (tables_of d) (job_ID j) = None" "pgj_Create pool j d = (x, d')"
  shows "(\<exists>e. x = Inl e) \<and> d' = d
    \<or> (\<exists>k j0. pg_jobs (tables_of d) k = Some j0 \<and> job_SubmissionID j0 = job_SubmissionID j \<and> job_SubmissionID j \<noteq> []
         \<and> x = Inr (j0, False) \<and> d' = d)
    \<or> submission_free (job_SubmissionID j) (pg_jobs (tables_of d)) \<and> x = Inr (pg_norm j, True) \<and> pg_ok (tables_of d')
         \<and> pg_jobs (tables_of d') = (pg_jobs (tables_of d))(job_ID j \<mapsto> pg_norm j)
         \<and> tb_events (tables_of d') = tb_events (tables_of d) @ [submitted_event j]"
proof (cases "storable j")
  case False
  then have "\<not> list_all fits (jobInsertArgs j) \<or> job_State j = StateZero" using assms(2) by (auto simp: storable_def)
  from pgj_Create_rejected [OF this assms(4)] show ?thesis by blast
next
  case st: True
  show ?thesis
  proof (cases "submission_free (job_SubmissionID j) (pg_jobs (tables_of d))")
    case True
    from pgj_Create_new [OF assms(1) st True assms(3,4)] True show ?thesis by blast
  next
    case False
    then obtain k j0 where k: "job_SubmissionID j \<noteq> []" "pg_jobs (tables_of d) k = Some j0"
      "job_SubmissionID j0 = job_SubmissionID j" by (auto simp: submission_free_def)
    from pgj_Create_existing [OF assms(1) st k(1) assms(3) k(2,3)] assms(4) k show ?thesis by auto
  qed
qed

lemma pgj_Update_effect:
  assumes "pg_ok (tables_of d)" "keeps_identity f" "pgj_Update pool k f d = (x, d')"
  shows "(\<exists>e. x = Inl e) \<and> d' = d
    \<or> (\<exists>j j'. pg_jobs (tables_of d) k = Some j \<and> f j = Inr j' \<and> x = Inr (pg_norm j') \<and> pg_ok (tables_of d')
         \<and> pg_jobs (tables_of d') = (pg_jobs (tables_of d))(k \<mapsto> pg_norm j')
         \<and> tb_events (tables_of d') = tb_events (tables_of d)
              @ (if job_State j' \<noteq> job_State j then [changed_event j j'] else []))"
proof (cases "pg_jobs (tables_of d) k")
  case None
  show ?thesis
    by (cases "fits_text k")
      (use pgj_Update_missing [OF assms(1) _ None, of f] pgj_Update_unfit [of k f d] assms(3) in auto)
next
  case (Some j)
  have j: "storable j" using assms(1) Some by (auto simp: pg_jobs_Some pg_ok_def good_jobs_def)
  show ?thesis
  proof (cases "f j")
    case (Inl e)
    with pgj_Update_error [where f = f, OF assms(1) Some Inl] assms(3) show ?thesis by simp
  next
    case (Inr j')
    with assms(2) j have same: "job_ID j' = job_ID j" "job_SubmissionID j' = job_SubmissionID j" and "job_ranges j'"
      by (auto simp: keeps_identity_def storable_def)
    show ?thesis
    proof (cases "storable j'")
      case True
      from pgj_Update_ok [where f = f, OF assms(1) Some Inr same True assms(3)] Some Inr show ?thesis by blast
    next
      case False
      then have "\<not> list_all fits (jobUpdateArgs j') \<or> job_State j' = StateZero"
        using \<open>job_ranges j'\<close> same(2) storable_texts [OF j] fits_update_iff [of j'] by (auto simp: storable_def)
      from pgj_Update_rejected [where f = f, OF assms(1) Some Inr this assms(3)] show ?thesis by blast
    qed
  qed
qed

end

text \<open>The repository keeps the contract of a job store: what is proved of the services for every
  store holds of the database.\<close>

lemma NewJobRepository_simps [simp]:
  "repo_Create (NewJobRepository pool) = pgj_Create pool" "repo_Get (NewJobRepository pool) = pgj_Get pool"
  "repo_List (NewJobRepository pool) = pgj_List pool" "repo_Update (NewJobRepository pool) = pgj_Update pool"
  "repo_ListActive (NewJobRepository pool) = pgj_ListActive pool"
  by (simp_all add: NewJobRepository_def)

lemma pg_ok_submission:
  assumes "pg_ok T" "pg_jobs T k = Some j" "pg_jobs T k' = Some j'" "job_SubmissionID j = job_SubmissionID j'"
    "job_SubmissionID j \<noteq> []"
  shows "k = k'"
proof -
  from assms(1-3) have "j \<in> set (pg_list T)" "j' \<in> set (pg_list T)" "job_ID j = k" "job_ID j' = k'"
    by (simp_all add: pg_jobs_Some)
  with assms(1,4,5) show ?thesis unfolding pg_ok_def good_jobs_def by metis
qed

lemma pg_ok_values: "pg_ok T \<Longrightarrow> {j. \<exists>k. pg_jobs T k = Some j} = set (pg_list T)"
  by (auto simp: pg_jobs_Some)

sublocale postgres \<subseteq> pg: job_store "NewJobRepository pool" "\<lambda>d. pg_jobs (tables_of d)"
    "\<lambda>d. pg_ok (tables_of d)" micros nonNilStrings
proof (unfold_locales, goal_cases)
  case (1 s)
  show ?case by simp
next
  case (2 d k j)
  then show ?case by (simp add: pg_jobs_Some)
next
  case (3 d k j)
  then show ?case by (simp add: pg_jobs_Some) (simp add: pg_ok_def good_jobs_def)
next
  case (4 d k j k' j')
  then show ?case by (rule pg_ok_submission)
next
  case (5 d j x d')
  then show ?case using pgj_Create_effect [of d j x d'] by auto
next
  case (6 d k j)
  then have "fits_text k" using storable_texts by (auto simp: pg_jobs_Some pg_ok_def good_jobs_def)
  with 6 show ?case by (simp add: pgj_Get_law)
next
  case (7 d k)
  obtain x t where q: "pg_QueryRow pool SelectJobByID [PText k] d = (x, t)" by fastforce
  show ?case
  proof (cases "fits_text k")
    case True
    with 7 show ?thesis by (simp add: pgj_Get_law)
  next
    case False
    from unfit_query [OF this q] q show ?thesis by (auto simp: pgj_Get_def)
  qed
next
  case (8 d f k x d')
  then show ?case using pgj_Update_effect [of d f k x d'] by auto
next
  case (9 d)
  let ?js = "filter (\<lambda>j. \<not> Terminal (job_State j)) (pg_list (tables_of d))"
  have "distinct (map job_ID ?js)" using 9 by (auto simp: pg_ok_def good_jobs_def intro: distinct_map_filter)
  moreover have "set ?js = {j. (\<exists>k. pg_jobs (tables_of d) k = Some j) \<and> \<not> Terminal (job_State j)}"
    using pg_ok_values [OF 9] by auto
  ultimately show ?case
    by (intro exI [of _ "sort_slice active_less ?js"]) (simp add: pgj_ListActive_law [OF 9] active.ordered_sort)
qed

end
