(* ===== verification/Postgres_Listing.thy ===== *)
theory Postgres_Listing
  imports Postgres_Contract
begin

text \<open>
  Keyset pagination of the PostgreSQL job repository: page tokens round-trip, each page continues
  after the key of the last one, and following the tokens delivers the whole listing.
\<close>

section \<open>Tokens\<close>

lemma split_bar_append:
  assumes "CHR ''|'' \<notin> set s"
  shows "split_bar (s @ CHR ''|'' # k) = Some (s, k)"
proof -
  have "\<forall>c \<in> set s. c \<noteq> CHR ''|''" using assms by auto
  then have "dropWhile (\<lambda>c. c \<noteq> CHR ''|'') (s @ CHR ''|'' # k) = CHR ''|'' # k"
    "takeWhile (\<lambda>c. c \<noteq> CHR ''|'') (s @ CHR ''|'' # k) = s"
    by (simp_all add: dropWhile_append2 takeWhile_append2)
  then show ?thesis by (simp add: split_bar_def)
qed

lemma decode_encodeListToken: "four_digit_year t \<Longrightarrow> decodeListToken (encodeListToken t k) = Inr (t, k)"
  by (simp add: encodeListToken_def decodeListToken_def Decode_Encode split_bar_append [OF format_no_bar] parse_format)

lemma encodeListToken_neq_Nil [simp]: "encodeListToken t k \<noteq> []"
proof
  assume "encodeListToken t k = []"
  then have "EncodeToString (format_rfc3339nano t @ ''|'' @ k) = EncodeToString []"
    by (simp add: encodeListToken_def EncodeToString_def)
  then have "format_rfc3339nano t @ ''|'' @ k = []" by (metis Decode_Encode sum.inject(2))
  then show False by simp
qed

section \<open>One page\<close>

definition pg_listing :: "State \<Rightarrow> Tables \<Rightarrow> Job list" where
  "pg_listing f T = sort_slice created_less (filter (\<lambda>j. f = StateZero \<or> job_State j = f) (pg_list T))"

definition pg_fetch :: "'d Pool \<Rightarrow> ListOptions \<Rightarrow> 'd \<Rightarrow> string \<Rightarrow> (Job list \<times> string) result" where
  "pg_fetch pool opts d token =
     map_sum id (\<lambda>p. (res_Jobs p, res_NextPageToken p)) (pgj_List pool (opts\<lparr>opt_PageToken := token\<rparr>) d)"

text \<open>The jobs after a key, and the query that selects them.\<close>

definition after_key :: "(Time \<times> string) option \<Rightarrow> Job \<Rightarrow> bool" where
  "after_key k j =
     (case k of None \<Rightarrow> True
      | Some (t, i) \<Rightarrow> if t = job_CreatedAt j then i < job_ID j else t < job_CreatedAt j)"

lemma state_string_inject: "state_string s = state_string t \<longleftrightarrow> s = t"
  by (cases s; cases t; simp)

lemma state_string_Nil: "state_string s = [] \<longleftrightarrow> s = StateZero"
  by (cases s; simp)

lemma list_query_rows:
  assumes "list_query ps (state_string f) after = (args, cs)" "pg_norm j = j"
    "case after of None \<Rightarrow> True | Some (t, i) \<Rightarrow> micros t = t"
  shows "list_all (cond_holds 16 19 args (stored_row j)) cs \<longleftrightarrow>
    (f = StateZero \<or> job_State j = f) \<and> after_key after j"
proof -
  have c: "micros (job_CreatedAt j) = job_CreatedAt j"
    using assms(2) by (rule norm_created)
  have "key_less (PTime t, PText i) (PTime (job_CreatedAt j), PText (job_ID j)) = after_key (Some (t, i)) j" for t i
    by (simp add: after_key_def)
  moreover have "PText (state_string (job_State j)) = PText (state_string f) \<longleftrightarrow> job_State j = f"
    by (simp add: state_string_inject)
  moreover have "after_key None j" by (simp add: after_key_def)
  ultimately show ?thesis
    using assms(1,3) c
    by (cases "f = StateZero"; cases after)
      (auto simp: list_query_def Let_def state_string_Nil simp del: key_less.simps pgval.inject)
qed

lemma list_query_args:
  assumes "list_query ps (state_string f) after = (args, cs)" "0 \<le> ps" "ps \<le> 200"
    "case after of None \<Rightarrow> True | Some (t, i) \<Rightarrow> fits_time t \<and> fits_text i"
  shows "args ! 0 = PInt (ps + 1)" "list_all fits args"
proof -
  have "i32 (ps + 1) = ps + 1" by (rule i32_id) (use assms(2,3) in \<open>simp add: in_i32_def\<close>)
  moreover have "in_i64 (ps + 1)" using assms(2,3) by (simp add: in_i64_def)
  ultimately show "args ! 0 = PInt (ps + 1)" "list_all fits args"
    using assms(1,4) by (auto simp: list_query_def Let_def split: if_splits option.splits prod.splits)
qed

lemma sort_filter_after:
  assumes "distinct (map job_ID js)"
  shows "sort_slice created_less (filter (\<lambda>j. P j \<and> Q j) js) = filter Q (sort_slice created_less (filter P js))"
proof (rule created.sort_unique)
  show "ordered_by created_less (filter Q (sort_slice created_less (filter P js)))"
    by (rule sorted_wrt_filter [OF created.ordered_sort])
  show "mset (filter (\<lambda>j. P j \<and> Q j) js) = mset (filter Q (sort_slice created_less (filter P js)))"
    by (simp add: filter_filter_mset mset_filter conj_commute)
  show "distinct (map job_ID (filter Q (sort_slice created_less (filter P js))))"
    using assms by (intro distinct_map_filter) (simp add: distinct_map_filter)
qed

context postgres
begin

lemma select_page:
  assumes "pg_ok (tables_of d)" "list_query ps (state_string f) after = (args, cs)" "0 \<le> ps" "ps \<le> 200"
    "case after of None \<Rightarrow> True | Some (t, i) \<Rightarrow> micros t = t \<and> fits_time t \<and> fits_text i"
  shows "pg_Query pool (SelectJobs cs) args d =
    Inr (map stored_row (take (nat (ps + 1)) (filter (after_key after) (pg_listing f (tables_of d)))), None)"
proof -
  have good: "good_jobs (pg_list (tables_of d))" and rows: "tb_jobs (tables_of d) = map stored_row (pg_list (tables_of d))"
    using assms(1) by (simp_all add: pg_ok_def)
  let ?P = "\<lambda>j. f = StateZero \<or> job_State j = f"
  have arg: "args ! 0 = PInt (ps + 1)" "list_all fits args"
    by (rule list_query_args [OF assms(2,3,4)]; use assms(5) in \<open>auto split: option.splits\<close>)+
  have "filter (\<lambda>r. list_all (cond_holds 16 19 args r) cs) (map stored_row (pg_list (tables_of d))) =
      map stored_row (filter (\<lambda>j. ?P j \<and> after_key after j) (pg_list (tables_of d)))"
    unfolding filter_map o_def
    by (intro arg_cong [where f = "map stored_row"] filter_cong refl list_query_rows [OF assms(2)])
      (use good assms(5) in \<open>auto simp: good_jobs_def split: option.splits\<close>)
  moreover have "sort_slice created_row_less (map stored_row (filter (\<lambda>j. ?P j \<and> after_key after j) (pg_list (tables_of d)))) =
      map stored_row (sort_slice created_less (filter (\<lambda>j. ?P j \<and> after_key after j) (pg_list (tables_of d))))"
    unfolding sort_slice_map
    by (intro arg_cong [where f = "map stored_row"] sort_slice_cong) (use good row_orders(1) in \<open>auto simp: good_jobs_def\<close>)
  moreover have "sort_slice created_less (filter (\<lambda>j. ?P j \<and> after_key after j) (pg_list (tables_of d))) =
      filter (after_key after) (pg_listing f (tables_of d))"
    unfolding pg_listing_def by (rule sort_filter_after) (use good in \<open>simp add: good_jobs_def\<close>)
  ultimately have "fst (sql (SelectJobs cs) args (tables_of d)) =
      map stored_row (take (nat (ps + 1)) (filter (after_key after) (pg_listing f (tables_of d))))"
    by (simp add: rows arg(1) take_map)
  moreover have "accepts (SelectJobs cs) args (tables_of d)" using arg(2) by (simp add: accepts_def)
  ultimately show ?thesis using query_law by (simp del: sql.simps)
qed

lemma list_page:
  assumes "pg_ok (tables_of d)" "ps = nat (effective_page_size (opt_PageSize opts))"
    "token = [] \<and> after = None \<or> token \<noteq> [] \<and> (\<exists>p. decodeListToken token = Inr p \<and> after = Some p)"
    "case after of None \<Rightarrow> True | Some (t, i) \<Rightarrow> micros t = t \<and> fits_time t \<and> fits_text i"
    "xs = filter (after_key after) (pg_listing (opt_StateFilter opts) (tables_of d))"
  shows "pg_fetch pool opts d token =
    Inr (take ps xs, if ps < length xs then encodeListToken (job_CreatedAt (xs ! (ps - 1))) (job_ID (xs ! (ps - 1))) else [])"
proof -
  let ?ps = "effective_page_size (opt_PageSize opts)"
  have ps: "?ps = int ps" "0 < ps" "?ps \<le> 200" using effective_page_size_bounds [of "opt_PageSize opts"] by (simp_all add: assms(2))
  obtain args cs where q: "list_query (int ps) (state_string (opt_StateFilter opts)) after = (args, cs)" by fastforce
  have sel: "pg_Query pool (SelectJobs cs) args d = Inr (map stored_row (take (Suc ps) xs), None)"
    using select_page [OF assms(1) q _ _ assms(4)] ps by (simp add: assms(5) nat_add_distrib)
  have good: "good_jobs (pg_list (tables_of d))" using assms(1) by (simp add: pg_ok_def)
  have "\<forall>j \<in> set (take (Suc ps) xs). storable j \<and> pg_norm j = j"
    using good_jobs_filter [OF good] by (auto simp: assms(5) pg_listing_def dest!: in_set_takeD)
  note scan = scan_rows_stored [OF this]
  have "length (take (Suc ps) xs) > ps \<longleftrightarrow> ps < length xs" by auto
  moreover have "take (Suc ps) xs ! (ps - 1) = xs ! (ps - 1)" "take ps (take (Suc ps) xs) = take ps xs"
    "nat (int ps - 1) = ps - 1" using ps(2) by (simp_all add: min_def)
  moreover have "take (Suc ps) xs = take ps xs" if "\<not> ps < length xs" using that by simp
  ultimately have "pgj_List pool (opts\<lparr>opt_PageToken := token\<rparr>) d =
      Inr \<lparr>res_Jobs = take ps xs, res_NextPageToken =
        (if ps < length xs then encodeListToken (job_CreatedAt (xs ! (ps - 1))) (job_ID (xs ! (ps - 1))) else [])\<rparr>"
    using assms(3) q sel scan ps(1) by (elim disjE conjE exE) (simp_all add: pgj_List_def Let_def)
  then show ?thesis by (simp add: pg_fetch_def)
qed

text \<open>Following the tokens delivers the listing.\<close>

lemma list_walk:
  assumes "pg_ok (tables_of d)" "\<forall>j \<in> set (pg_list (tables_of d)). four_digit_year (job_CreatedAt j)"
    "length (pg_listing (opt_StateFilter opts) (tables_of d)) < n"
  shows "page_walk n (pg_fetch pool opts d) [] = Some (pg_listing (opt_StateFilter opts) (tables_of d))"
proof -
  define xs where "xs = pg_listing (opt_StateFilter opts) (tables_of d)"
  define ps where "ps = nat (effective_page_size (opt_PageSize opts))"
  define key where "key = (\<lambda>off. if off = 0 then None else Some (job_CreatedAt (xs ! (off - 1)), job_ID (xs ! (off - 1))))"
  define tok where "tok = (\<lambda>off. case key off of None \<Rightarrow> [] | Some (t, i) \<Rightarrow> encodeListToken t i)"
  have ps: "0 < ps" using effective_page_size_bounds [of "opt_PageSize opts"] by (simp add: ps_def)
  have good: "good_jobs (pg_list (tables_of d))" using assms(1) by (simp add: pg_ok_def)
  have xs_good: "storable j \<and> pg_norm j = j \<and> four_digit_year (job_CreatedAt j)" if "j \<in> set xs" for j
    using that good assms(2) by (auto simp: xs_def pg_listing_def good_jobs_def)
  have ord: "ordered_by created_less xs" "distinct (map job_ID xs)"
    using good by (simp_all add: xs_def pg_listing_def created.ordered_sort distinct_map_filter good_jobs_def)
  have rest: "filter (after_key (key off)) xs = drop off xs" if "off \<le> length xs" for off
  proof (cases off)
    case 0
    then show ?thesis by (simp add: key_def after_key_def)
  next
    case (Suc i)
    have "after_key (key off) = created_less (xs ! i)"
      using Suc by (auto simp: key_def after_key_def created_less_def fun_eq_iff)
    then show ?thesis using created.filter_after [OF ord, of i] Suc that by simp
  qed
  have fetch: "pg_fetch pool opts d (tok off) =
      Inr (take ps (drop off xs), if off + ps < length xs then tok (off + ps) else [])" if off: "off \<le> length xs" for off
  proof -
    have k: "tok off = [] \<and> key off = None \<or> tok off \<noteq> [] \<and> (\<exists>p. decodeListToken (tok off) = Inr p \<and> key off = Some p)"
      "case key off of None \<Rightarrow> True | Some (t, i) \<Rightarrow> micros t = t \<and> fits_time t \<and> fits_text i"
    proof -
      show "tok off = [] \<and> key off = None \<or> tok off \<noteq> [] \<and> (\<exists>p. decodeListToken (tok off) = Inr p \<and> key off = Some p)"
        using xs_good [of "xs ! (off - 1)"] off by (cases off) (simp_all add: tok_def key_def decode_encodeListToken)
      have "micros (job_CreatedAt j) = job_CreatedAt j \<and> fits_time (job_CreatedAt j) \<and> fits_text (job_ID j)"
        if "j \<in> set xs" for j
        using xs_good [OF that] norm_created [of j] by (auto simp: storable_def jobInsertArgs_def)
      then show "case key off of None \<Rightarrow> True | Some (t, i) \<Rightarrow> micros t = t \<and> fits_time t \<and> fits_text i"
        using off by (cases off) (simp_all add: key_def)
    qed
    have "drop off xs = filter (after_key (key off)) (pg_listing (opt_StateFilter opts) (tables_of d))"
      using rest [OF off] by (simp add: xs_def)
    note page = list_page [OF assms(1) ps_def k this]
    have "ps < length (drop off xs) \<longleftrightarrow> off + ps < length xs" by auto
    moreover have "drop off xs ! (ps - 1) = xs ! (off + ps - 1)" if "off + ps < length xs"
      using that ps by (simp add: nth_drop)
    moreover have "tok (off + ps) = encodeListToken (job_CreatedAt (xs ! (off + ps - 1))) (job_ID (xs ! (off + ps - 1)))"
      using ps by (simp add: tok_def key_def)
    ultimately show ?thesis unfolding page by simp
  qed
  have "page_walk n (pg_fetch pool opts d) (tok 0) = Some (drop 0 xs)"
    by (rule page_walk_tokens [OF ps fetch]) (use assms(3) in \<open>simp_all add: tok_def key_def xs_def\<close>)
  then show ?thesis by (simp add: tok_def key_def xs_def)
qed

end

end
