(* ===== verification/Postgres_Memory.thy ===== *)
theory Postgres_Memory
  imports Postgres_Listing Cluster
begin

text \<open>
  The two implementations of \<^verbatim>\<open>jobs.Repository\<close> against each other, and the cluster over the database.
  \<^verbatim>\<open>persistence.JobRepository\<close> is meant as a drop-in replacement for \<^verbatim>\<open>jobs.MemoryRepository\<close>: on
  stores with the same jobs, calls with values the columns hold exactly give the same answers and
  leave the same jobs.
\<close>

definition exact :: "Job \<Rightarrow> bool" where
  "exact j \<longleftrightarrow> storable j \<and> pg_norm j = j"

definition same_jobs :: "MemoryRepository \<Rightarrow> Tables \<Rightarrow> bool" where
  "same_jobs m T \<longleftrightarrow> mem_ok m \<and> pg_ok T \<and> mem_jobs m = pg_jobs T"

lemma same_jobs_lists:
  assumes "same_jobs m T"
  shows "mset (map snd (jobsByID m)) = mset (pg_list T)" "distinct (map job_ID (pg_list T))"
proof -
  have ok: "mem_ok m" "pg_ok T" "mem_jobs m = pg_jobs T" using assms by (simp_all add: same_jobs_def)
  then have d: "distinct (map job_ID (map snd (jobsByID m)))" "distinct (map job_ID (pg_list T))"
    using mem_ok_distinct by (simp_all add: pg_ok_def good_jobs_def)
  have "set (map snd (jobsByID m)) = set (pg_list T)"
    using mem_ok_values [OF ok(1)] pg_ok_values [OF ok(2)] ok(3) by simp
  with d show "mset (map snd (jobsByID m)) = mset (pg_list T)"
    by (simp only: distinct_map set_eq_iff_mset_eq_distinct)
  show "distinct (map job_ID (pg_list T))" by (rule d(2))
qed

lemma same_listing:
  assumes "same_jobs m T"
  shows "mem_listing f m = pg_listing f T"
proof -
  have eq: "(\<lambda>j. \<not> (f \<noteq> StateZero \<and> job_State j \<noteq> f)) = (\<lambda>j. f = StateZero \<or> job_State j = f)" by auto
  show ?thesis
    unfolding mem_listing_def pg_listing_def eq
    by (rule created.sort_perm)
      (simp_all only: mset_filter same_jobs_lists(1) [OF assms] distinct_map_filter [OF same_jobs_lists(2) [OF assms]])
qed

context postgres
begin

lemma same_active:
  assumes "same_jobs m (tables_of d)"
  shows "pgj_ListActive pool d = mem_ListActive m"
proof -
  have ok: "pg_ok (tables_of d)" using assms by (simp add: same_jobs_def)
  have "sort_slice active_less (filter (\<lambda>j. \<not> Terminal (job_State j)) (pg_list (tables_of d))) =
      sort_slice active_less (filter (\<lambda>j. \<not> Terminal (job_State j)) (map snd (jobsByID m)))"
    by (rule active.sort_perm [symmetric])
      (simp_all only: mset_filter same_jobs_lists(1) [OF assms] distinct_map_filter [OF same_jobs_lists(2) [OF assms]])
  then show ?thesis by (simp add: pgj_ListActive_law [OF ok] mem_ListActive_def)
qed

lemma same_get:
  assumes "same_jobs m (tables_of d)" "fits_text k"
  shows "pgj_Get pool k d = mem_Get k m"
  using assms pgj_Get_law [of d k] by (simp add: same_jobs_def mem_Get_def)

lemma same_create:
  assumes "same_jobs m (tables_of d)" "exact j" "mem_jobs m (job_ID j) = None"
    "mem_Create j m = (x, m')" "pgj_Create pool j d = (y, d')"
  shows "y = x \<and> same_jobs m' (tables_of d')"
proof -
  have ok: "mem_ok m" "pg_ok (tables_of d)" "mem_jobs m = pg_jobs (tables_of d)" and j: "storable j" "pg_norm j = j"
    using assms(1,2) by (simp_all add: same_jobs_def exact_def)
  have new: "pg_jobs (tables_of d) (job_ID j) = None" using assms(3) ok(3) by simp
  show ?thesis
  proof (cases "submission_free (job_SubmissionID j) (mem_jobs m)")
    case True
    with mem_Create_new [OF ok(1) True assms(3,4)] pgj_Create_new [OF ok(2) j(1) _ new assms(5)] j(2) ok(3)
    show ?thesis by (simp add: same_jobs_def)
  next
    case False
    then obtain k j0 where k: "job_SubmissionID j \<noteq> []" "mem_jobs m k = Some j0" "job_SubmissionID j0 = job_SubmissionID j"
      by (auto simp: submission_free_def)
    have "pgj_Create pool j d = (Inr (j0, False), d)"
      by (rule pgj_Create_existing [OF ok(2) j(1) k(1) new _ k(3)]) (use k(2) ok(3) in simp)
    with mem_Create_existing [OF ok(1) k] assms(1,4,5) show ?thesis by auto
  qed
qed

lemma same_update:
  assumes "same_jobs m (tables_of d)" "fits_text k" "keeps_identity f" "\<And>j j'. exact j \<Longrightarrow> f j = Inr j' \<Longrightarrow> exact j'"
    "mem_Update k f m = (x, m')" "pgj_Update pool k f d = (y, d')"
  shows "y = x \<and> same_jobs m' (tables_of d')"
proof -
  have ok: "mem_ok m" "pg_ok (tables_of d)" "mem_jobs m = pg_jobs (tables_of d)" using assms(1) by (simp_all add: same_jobs_def)
  show ?thesis
  proof (cases "mem_jobs m k")
    case None
    with pgj_Update_missing [OF ok(2) assms(2), of f] ok(3) assms(1,5,6) show ?thesis by (auto simp: mem_Update_def)
  next
    case (Some j)
    then have p: "pg_jobs (tables_of d) k = Some j" using ok(3) by simp
    have j: "exact j" using p ok(2) by (auto simp: exact_def pg_jobs_Some pg_ok_def good_jobs_def)
    show ?thesis
    proof (cases "f j")
      case (Inl e)
      with pgj_Update_error [where f = f, OF ok(2) p Inl] Some assms(1,5,6) show ?thesis by (auto simp: mem_Update_def)
    next
      case (Inr j')
      have e: "storable j'" "pg_norm j' = j'" using assms(4) [OF j Inr] by (simp_all add: exact_def)
      have id: "job_ID j' = job_ID j" "job_SubmissionID j' = job_SubmissionID j"
        using assms(3) Inr by (auto simp: keeps_identity_def)
      from mem_Update_ok [where f = f, OF ok(1) Some Inr id assms(5)] pgj_Update_ok [where f = f, OF ok(2) p Inr id e(1) assms(6)]
        e(2) ok(3)
      show ?thesis by (simp add: same_jobs_def)
    qed
  qed
qed

end

section \<open>The cluster over the database\<close>

sublocale postgres \<subseteq> pg_memory: cluster "NewJobRepository pool" "\<lambda>d. pg_jobs (tables_of d)"
    "\<lambda>d. pg_ok (tables_of d)" micros nonNilStrings
    "\<lambda>c n. c_memoryBytes c = n" MemoryBytes w_MemoryCapacityBytes "2 ^ 63 - 1" mem_worker mem_request
  by unfold_locales (simp add: same_capacity_def mem_worker_def)

sublocale postgres \<subseteq> pg_gpus: cluster "NewJobRepository pool" "\<lambda>d. pg_jobs (tables_of d)"
    "\<lambda>d. pg_ok (tables_of d)" micros nonNilStrings
    "\<lambda>c n. c_gpuCount c = n" GPUCount "\<lambda>v. int (length (elems (w_GPUs v)))" "2 ^ 62" gpu_worker gpu_request
  by unfold_locales (simp add: same_capacity_def gpu_worker_def)

context postgres
begin

lemma store_contract:
  "job_store (NewJobRepository pool) (\<lambda>d. pg_jobs (tables_of d)) (\<lambda>d. pg_ok (tables_of d)) micros nonNilStrings"
  by (rule pg.job_store_axioms)

lemmas database_memory_safe = pg_memory.cluster_run_safe
lemmas database_gpus_safe = pg_gpus.cluster_run_safe
lemmas database_job_inv = pg.jobs_run_job_inv
lemmas database_retry = pg.Retry_refused

end

end
