(* ===== verification/Postgres_History.thy ===== *)
theory Postgres_History
  imports Postgres_Contract Job_Lifecycle
begin

text \<open>
  The event log of \<^verbatim>\<open>job_events\<close>.  Every run of \<^verbatim>\<open>jobs.Service\<close> over the database leaves, for each
  job, one \<^verbatim>\<open>SUBMITTED\<close> row followed by \<^verbatim>\<open>STATE_CHANGED\<close> rows that spell a path of the state diagram
  from QUEUED to the state stored in \<^verbatim>\<open>jobs\<close>; the log and the table are written in one transaction.
\<close>

definition events_of :: "string \<Rightarrow> Tables \<Rightarrow> row list" where
  "events_of k T = filter (\<lambda>r. r ! 0 = PText k) (tb_events T)"

fun change_rows :: "string \<Rightarrow> State \<Rightarrow> State list \<Rightarrow> row list" where
  "change_rows k s [] = []"
| "change_rows k s (t # ts) =
     [PText k, PText ''STATE_CHANGED'', PText (state_string s), PText (state_string t), PText []]
     # change_rows k t ts"

definition log_rows :: "string \<Rightarrow> State list \<Rightarrow> row list" where
  "log_rows k ss =
     [PText k, PText ''SUBMITTED'', PNull, PText (state_string StateQueued), PText []]
     # change_rows k StateQueued ss"

fun state_path :: "State \<Rightarrow> State list \<Rightarrow> bool" where
  "state_path s [] = True"
| "state_path s (t # ts) = (job_edge s t \<and> state_path t ts)"

definition logged :: "Tables \<Rightarrow> string \<Rightarrow> State \<Rightarrow> bool" where
  "logged T k s \<longleftrightarrow>
     (\<exists>ss. events_of k T = log_rows k ss \<and> state_path StateQueued ss \<and> last (StateQueued # ss) = s)"

definition log_inv :: "Tables \<Rightarrow> bool" where
  "log_inv T \<longleftrightarrow>
     (\<forall>k. case pg_jobs T k of None \<Rightarrow> events_of k T = [] | Some j \<Rightarrow> logged T k (job_State j))"

lemma log_invD:
  assumes "log_inv T"
  shows "pg_jobs T k = None \<Longrightarrow> events_of k T = []" "pg_jobs T k = Some j \<Longrightarrow> logged T k (job_State j)"
  using assms [unfolded log_inv_def, rule_format, of k] by simp_all

lemma change_rows_append:
  "change_rows k s (ts @ [t]) =
     change_rows k s ts @
       [[PText k, PText ''STATE_CHANGED'', PText (state_string (last (s # ts))), PText (state_string t), PText []]]"
  by (induction ts arbitrary: s) simp_all

lemma state_path_append: "state_path s (ts @ [t]) \<longleftrightarrow> state_path s ts \<and> job_edge (last (s # ts)) t"
  by (induction ts arbitrary: s) simp_all

lemma events_of_append:
  assumes "tb_events T' = tb_events T @ es"
  shows "events_of k T' = events_of k T @ filter (\<lambda>r. r ! 0 = PText k) es"
  by (simp add: events_of_def assms)

lemma event_columns [simp]:
  "submitted_event j ! 0 = PText (job_ID j)" "changed_event j j' ! 0 = PText (job_ID j')"
  by (simp_all add: submitted_event_def changed_event_def)

lemma logged_change:
  assumes "logged T k (job_State j)" "job_ID j' = k" "op_effect j j'"
    "tb_events T' = tb_events T @ (if job_State j' \<noteq> job_State j then [changed_event j j'] else [])"
  shows "logged T' k (job_State j')"
proof (cases "job_State j' = job_State j")
  case True
  with assms(1,4) show ?thesis by (simp add: logged_def events_of_def)
next
  case False
  from assms(1) obtain ss where ss: "events_of k T = log_rows k ss" "state_path StateQueued ss"
    "last (StateQueued # ss) = job_State j" by (auto simp: logged_def)
  have "events_of k T' = log_rows k (ss @ [job_State j'])"
    using False assms(2) ss events_of_append [OF assms(4), of k]
    by (simp add: log_rows_def change_rows_append changed_event_def)
  moreover have "job_edge (job_State j) (job_State j')" using assms(3) False by (simp add: op_effect_def)
  then have "state_path StateQueued (ss @ [job_State j'])" using ss(2,3) by (simp add: state_path_append)
  ultimately show ?thesis
    unfolding logged_def by (intro exI [of _ "ss @ [job_State j']"]) simp
qed

lemma log_inv_empty [simp]: "log_inv empty_tables"
  by (simp add: log_inv_def events_of_def empty_tables_def pg_jobs_def pg_list_def)

lemma log_inv_append:
  assumes "log_inv T" "pg_jobs T' = (pg_jobs T)(k \<mapsto> j)" "tb_events T' = tb_events T @ es"
    "\<forall>r \<in> set es. r ! 0 = PText k" "logged T' k (job_State j)"
  shows "log_inv T'"
  unfolding log_inv_def
proof
  fix i
  have same: "events_of i T' = events_of i T" if "i \<noteq> k"
    using events_of_append [OF assms(3), of i] assms(4) that by (simp add: filter_empty_conv)
  show "case pg_jobs T' i of None \<Rightarrow> events_of i T' = [] | Some j \<Rightarrow> logged T' i (job_State j)"
  proof (cases "i = k")
    case True
    then show ?thesis using assms(2,5) by simp
  next
    case False
    then show ?thesis using assms(2) same log_invD [OF assms(1), of i]
      by (simp add: logged_def split: option.split)
  qed
qed

context postgres
begin

lemma submit_log:
  assumes "pg_ok (tables_of d)" "log_inv (tables_of d)" "submit_ranges i" "pg_jobs (tables_of d) newID = None"
    "Submit (NewJobRepository pool) newID now i d = (x, d')"
  shows "log_inv (tables_of d')"
proof (cases "valid_submit i")
  case False
  with assms show ?thesis by (simp add: Submit_invalid)
next
  case True
  let ?j = "submitted_job newID now i"
  obtain y d1 where c: "pgj_Create pool ?j d = (y, d1)" by fastforce
  with assms(5) have d': "d' = d1" by (auto simp: Submit_valid [OF True] split: sum.splits prod.splits)
  have new: "pg_jobs (tables_of d) (job_ID ?j) = None" using assms(4) by simp
  have none: "events_of newID (tables_of d) = []" by (rule log_invD(1) [OF assms(2,4)])
  from pgj_Create_effect [OF assms(1) submitted_job_ranges [OF assms(3)] new c] show ?thesis
  proof (elim disjE conjE exE)
    assume e: "pg_jobs (tables_of d1) = (pg_jobs (tables_of d))(job_ID ?j \<mapsto> pg_norm ?j)"
      "tb_events (tables_of d1) = tb_events (tables_of d) @ [submitted_event ?j]"
    have "events_of newID (tables_of d1) = log_rows newID []"
      using events_of_append [OF e(2), of newID] none by (simp add: log_rows_def submitted_event_def)
    then have "logged (tables_of d1) (job_ID ?j) (job_State (pg_norm ?j))"
      unfolding logged_def by (intro exI [of _ "[]"]) simp
    from log_inv_append [OF assms(2) e _ this] show ?thesis by (simp add: d')
  qed (use assms(2) d' in simp_all)
qed

lemma call_log:
  assumes "pg_ok (tables_of d)" "log_inv (tables_of d)" "job_call (NewJobRepository pool) f k d = (x, d')"
  shows "log_inv (tables_of d')"
proof -
  have u: "pgj_Update pool k (op_fn f) d = (x, d')" using assms(3) by (simp add: job_call_update)
  from pgj_Update_effect [OF assms(1) op_fn_keeps_identity u] show ?thesis
  proof (elim disjE conjE exE)
    fix j j' assume j: "pg_jobs (tables_of d) k = Some j" "op_fn f j = Inr j'"
      and e: "pg_jobs (tables_of d') = (pg_jobs (tables_of d))(k \<mapsto> pg_norm j')"
        "tb_events (tables_of d') = tb_events (tables_of d) @ (if job_State j' \<noteq> job_State j then [changed_event j j'] else [])"
    have id: "job_ID j' = k"
      using op_fn_same_request [OF j(2)] pg.stored_id [OF assms(1) j(1)] by (simp add: same_request_def)
    have "logged (tables_of d) k (job_State j)" by (rule log_invD(2) [OF assms(2) j(1)])
    from logged_change [OF this id op_fn_effect [OF j(2)] e(2)]
    have "logged (tables_of d') k (job_State (pg_norm j'))" by simp
    from log_inv_append [OF assms(2) e _ this] id show ?thesis by simp
  qed (use assms(2) in simp)
qed

lemma step_log:
  assumes "jobs_step (NewJobRepository pool) d d'" "pg_ok (tables_of d)" "log_inv (tables_of d)"
  shows "log_inv (tables_of d')"
  using assms(1)
proof (cases rule: jobs_step.cases)
  case (step_submit newID i now x)
  with submit_log assms(2,3) pg.unused_id show ?thesis by blast
next
  case (step_call f k y)
  with call_log assms(2,3) show ?thesis by blast
qed

lemma run_log:
  assumes "(jobs_step (NewJobRepository pool))\<^sup>*\<^sup>* d0 d" "pg_ok (tables_of d0)" "all_reachable (pg_jobs (tables_of d0))"
    "log_inv (tables_of d0)"
  shows "log_inv (tables_of d)"
  using assms(1)
proof (induction rule: rtranclp_induct)
  case (step d1 d2)
  with step_log [OF step.hyps(2)] pg.jobs_run_inv [OF step.hyps(1) assms(2,3)] show ?case by blast
qed (rule assms(4))

end

end
