(* ===== verification/Gang_Placement.thy ===== *)
theory Gang_Placement
  imports Plan_Fairness
begin

text \<open>
  The aggregate GPU count of \<^verbatim>\<open>capacity.go\<close> is realised by devices: whichever devices the jobs
  already on a worker occupy, every job that \<^verbatim>\<open>Plan\<close> puts there can be given its own free
  devices, all of them on that worker and all meeting its memory bar.
\<close>

definition devices :: "Worker \<Rightarrow> nat set" where
  "devices v = {..<length (elems (w_GPUs v))}"

definition devices_with :: "Worker \<Rightarrow> int \<Rightarrow> nat set" where
  "devices_with v m = {i \<in> devices v. gpu_TotalMemoryBytes (elems (w_GPUs v) ! i) \<ge> m}"

text \<open>\<open>gang_alloc v used js as alloc\<close>: \<open>alloc\<close> gives every job of \<open>js\<close> that \<open>as\<close> puts on \<open>v\<close> as
  many devices as it asks for, outside \<open>used\<close> and disjoint from those of any other job.\<close>

definition gang_alloc :: "Worker \<Rightarrow> nat set \<Rightarrow> Job list \<Rightarrow> Assignment list \<Rightarrow> (string \<Rightarrow> nat set) \<Rightarrow> bool" where
  "gang_alloc v used js as alloc \<longleftrightarrow>
     (\<forall>j \<in> set js. target as (job_ID j) = Some (w_ID v) \<longrightarrow>
        alloc (job_ID j) \<subseteq> devices_with v (MinGPUMemoryBytes (job_Resources j)) - used
        \<and> int (card (alloc (job_ID j))) = GPUCount (job_Resources j))
     \<and> (\<forall>j \<in> set js. \<forall>i \<in> set js. target as (job_ID j) = Some (w_ID v) \<and> target as (job_ID i) = Some (w_ID v)
          \<and> job_ID i \<noteq> job_ID j \<longrightarrow> alloc (job_ID j) \<inter> alloc (job_ID i) = {})"

lemma card_devices_with: "int (card (devices_with v m)) = qualifying v m"
  by (simp add: devices_with_def devices_def qualifying_def length_filter_conv_card)

lemma finite_devices [simp]: "finite (devices v)" "finite (devices_with v m)"
  by (simp_all add: devices_def devices_with_def)

lemma devices_with_sub: "devices_with v m \<subseteq> devices v"
  by (auto simp: devices_with_def)

lemma eligible_devices:
  assumes "sound_worker v" "sound_request q" "eligible q c v" "used \<subseteq> devices v"
    "c_gpuCount c = int (card used)"
  obtains S where "S \<subseteq> devices_with v (MinGPUMemoryBytes q) - used" "int (card S) = GPUCount q"
proof -
  let ?D = "devices_with v (MinGPUMemoryBytes q)"
  have fin: "finite used" using assms(4) finite_devices(1) by (rule finite_subset)
  have "card used \<le> length (elems (w_GPUs v))"
    using card_mono [OF finite_devices(1) assms(4)] by (simp add: devices_def)
  then have "int (card used) < 2 ^ 62" using assms(1) by (simp add: sound_defs)
  then have "free_gpus v q c = max 0 (qualifying v (MinGPUMemoryBytes q) - int (card used))"
    using assms(1,5) by (simp add: free_gpus_def freeGPUCount_exact sound_worker_def)
  with assms(2,3) have g: "0 \<le> GPUCount q" "GPUCount q \<le> max 0 (int (card ?D) - int (card used))"
    by (auto simp: eligible_def sound_defs card_devices_with)
  have "card ?D - card used \<le> card (?D - used)" using fin by (rule diff_card_le_card_Diff)
  with g have "nat (GPUCount q) \<le> card (?D - used)" by linarith
  then obtain S where "S \<subseteq> ?D - used" "card S = nat (GPUCount q)"
    using obtain_subset_with_card_n by metis
  with g(1) that show ?thesis by simp
qed

lemma gang_alloc_skip:
  assumes "gang_alloc v used js as alloc" "target as' (job_ID job) \<noteq> Some (w_ID v)"
    "\<And>j. j \<in> set js \<Longrightarrow> target as' (job_ID j) = target as (job_ID j)"
  shows "gang_alloc v used (job # js) as' alloc"
  using assms unfolding gang_alloc_def by simp

lemma gang_alloc_place:
  assumes "gang_alloc v (used \<union> S) js as alloc" "distinct (map job_ID (job # js))"
    "S \<subseteq> devices_with v (MinGPUMemoryBytes (job_Resources job)) - used"
    "int (card S) = GPUCount (job_Resources job)"
    "\<And>j. j \<in> set js \<Longrightarrow> target as' (job_ID j) = target as (job_ID j)"
  shows "gang_alloc v used (job # js) as' (alloc(job_ID job := S))"
proof -
  have ne: "job_ID j \<noteq> job_ID job" if "j \<in> set js" for j
    using distinct_map_Cons_neq [OF assms(2) that] .
  have out: "alloc (job_ID j) \<subseteq> devices_with v (MinGPUMemoryBytes (job_Resources j)) - used"
    "int (card (alloc (job_ID j))) = GPUCount (job_Resources j)" "alloc (job_ID j) \<inter> S = {}"
    if "j \<in> set js" "target as' (job_ID j) = Some (w_ID v)" for j
    using assms(1,5) that unfolding gang_alloc_def by auto
  have dis: "alloc (job_ID j) \<inter> alloc (job_ID i) = {}"
    if "j \<in> set js" "i \<in> set js" "target as' (job_ID j) = Some (w_ID v)"
      "target as' (job_ID i) = Some (w_ID v)" "job_ID i \<noteq> job_ID j" for i j
    using assms(1,5) that unfolding gang_alloc_def by simp
  show ?thesis
    unfolding gang_alloc_def
  proof (intro conjI ballI impI, goal_cases)
    case (1 j)
    then show ?case using assms(3) out(1) ne by (cases "j = job") auto
  next
    case (2 j)
    then show ?case using assms(4) out(2) ne by (cases "j = job") auto
  next
    case (3 j i)
    then show ?case using out(3) dis ne by (cases "j = job"; cases "i = job") auto
  qed
qed

lemma plan_loop_gang:
  assumes "\<forall>v \<in> set ws. sound_worker v" "distinct (map w_ID ws)" "v \<in> set ws"
    "distinct (map job_ID js)" "\<forall>j \<in> set js. sound_request (job_Resources j)"
    "used \<subseteq> devices v" "c_gpuCount (c (w_ID v)) = int (card used)"
  shows "\<exists>alloc. gang_alloc v used js (plan_loop ws js c) alloc"
  using assms(4-7)
proof (induction js arbitrary: c used)
  case (Cons job js)
  have sq: "sound_request (job_Resources job)" and rest: "distinct (map job_ID js)"
    "\<forall>j \<in> set js. sound_request (job_Resources j)" using Cons.prems by simp_all
  from Cons.prems(1) assms(2) show ?case
  proof (cases rule: plan_loop_cases [where c = c])
    case skipped
    from Cons.IH [where c = c, OF rest Cons.prems(3,4)] obtain alloc where
      "gang_alloc v used js (plan_loop ws js c) alloc" by blast
    from gang_alloc_skip [OF this, of "plan_loop ws (job # js) c" job] skipped(1,2)
    show ?thesis by auto
  next
    case (placed u)
    let ?c = "reserve (w_ID u) (job_Resources job) c"
    show ?thesis
    proof (cases "w_ID u = w_ID v")
      case False
      then have "c_gpuCount (?c (w_ID v)) = int (card used)" using Cons.prems(4) by (simp add: reserve_def)
      from Cons.IH [where c = ?c, OF rest Cons.prems(3) this] obtain alloc where
        "gang_alloc v used js (plan_loop ws js ?c) alloc" by blast
      from this have "gang_alloc v used (job # js) (plan_loop ws (job # js) c) alloc"
        by (rule gang_alloc_skip [OF _ _ placed(4)]) (use placed(3) False in \<open>simp del: plan_loop.simps\<close>)
      then show ?thesis by blast
    next
      case True
      then have u: "u = v" by (rule distinct_map_inj [OF assms(2) placed(1) assms(3)])
      have sv: "sound_worker v" using assms(1,3) by blast
      obtain S where S: "S \<subseteq> devices_with v (MinGPUMemoryBytes (job_Resources job)) - used"
        "int (card S) = GPUCount (job_Resources job)"
        using eligible_devices [OF sv sq _ Cons.prems(3,4)] placed(2) u by blast
      have sub: "used \<union> S \<subseteq> devices v" using S(1) Cons.prems(3) devices_with_sub by blast
      have "card (used \<union> S) = card used + card S"
        using S(1) finite_subset [OF sub finite_devices(1)] by (intro card_Un_disjoint) auto
      moreover have "card (used \<union> S) \<le> length (elems (w_GPUs v))"
        using card_mono [OF finite_devices(1) sub] by (simp add: devices_def)
      ultimately have "c_gpuCount (?c (w_ID v)) = int (card (used \<union> S))"
        using Cons.prems(4) S(2) sv u by (simp add: reserve_def i64_id in_i64_def sound_defs)
      from Cons.IH [where c = ?c, OF rest sub this] obtain alloc where
        "gang_alloc v (used \<union> S) js (plan_loop ws js ?c) alloc" by blast
      from gang_alloc_place [OF this Cons.prems(1) S placed(4)] show ?thesis by blast
    qed
  qed
qed (unfold gang_alloc_def, simp)

lemma Plan_gang:
  assumes "sound_snapshot js ws" "v \<in> set ws" "used \<subseteq> devices v"
    "int (card used) = demand GPUCount (w_ID v) js"
  shows "\<exists>alloc. gang_alloc v used js (Plan js ws now) alloc"
proof -
  let ?q = "sortByEffectivePriority now (filter (\<lambda>j. job_State j = StateQueued) js)"
  from assms(1,2) have s: "\<forall>v \<in> set ws. sound_worker v" "distinct (map w_ID ws)"
    "distinct (map job_ID ?q)" "\<forall>j \<in> set ?q. sound_request (job_Resources j)" "distinct (map job_ID js)"
    "\<forall>j \<in> set js. gpu_request (job_Resources j)" "sound_worker v"
    by (auto simp: sound_request_def sound_snapshot_def sortByEffectivePriority_def distinct_map_filter)
  have "card used \<le> length (elems (w_GPUs v))"
    using card_mono [OF finite_devices(1) assms(3)] by (simp add: devices_def)
  then have "demand GPUCount (w_ID v) js \<le> 2 ^ 62" using s(7) assms(4) by (simp add: sound_defs)
  from gpus.committed_tracks [OF s(6) this]
  have "c_gpuCount (committedByWorker js (w_ID v)) = int (card used)" using assms(4) by simp
  from plan_loop_gang [where c = "committedByWorker js", OF s(1,2) assms(2) s(3,4) assms(3) this] obtain alloc where
    a: "gang_alloc v used ?q (Plan js ws now) alloc" unfolding Plan_def by blast
  have "j \<in> set ?q" if "j \<in> set js" "target (Plan js ws now) (job_ID j) = Some (w_ID v)" for j
    using target_Plan_queued [OF s(5) that(1), of ws now] that by (simp add: sortByEffectivePriority_def)
  with a have "gang_alloc v used js (Plan js ws now) alloc" unfolding gang_alloc_def by blast
  then show ?thesis by blast
qed

end
