(* ===== verification/Samples.thy ===== *)
theory Samples
  imports Job_Repository Scheduler
begin

text \<open>Sample jobs and workers, the concrete inputs of the witnesses and of the scenarios.\<close>

definition sample_request :: "int \<Rightarrow> int \<Rightarrow> int \<Rightarrow> int \<Rightarrow> ResourceRequest" where
  "sample_request gpus bar cores mem =
     \<lparr>GPUCount = gpus, MinGPUMemoryBytes = bar, CPUCores = whole cores, MemoryBytes = mem\<rparr>"

definition sample_job :: "string \<Rightarrow> State \<Rightarrow> int \<Rightarrow> bool \<Rightarrow> ResourceRequest \<Rightarrow> string list \<Rightarrow> Job" where
  "sample_job k s priority preemptible q ws =
     zero_job\<lparr>job_ID := k, job_Name := ''train'', job_Image := ''img'', job_Resources := q,
       job_Priority := priority, job_Preemptible := preemptible, job_RetryLimit := 3,
       job_CurrentAttempt := 1, job_State := s, job_AssignedWorkerIDs := copy_slice ws,
       job_CreatedAt := 0\<rparr>"

definition sample_gpu :: "int \<Rightarrow> int \<Rightarrow> GPU" where
  "sample_gpu i mem =
     \<lparr>gpu_ID = [], gpu_DeviceIndex = i, gpu_UUID = [], gpu_TotalMemoryBytes = mem,
      gpu_AllocatedMemoryBytes = 0, gpu_UtilizationPercent = f_zero, gpu_TemperatureCelsius = None,
      gpu_MIGProfile = [], gpu_HealthState = GPUHealthZero\<rparr>"

definition sample_worker :: "string \<Rightarrow> int \<Rightarrow> int \<Rightarrow> GPU list \<Rightarrow> Worker" where
  "sample_worker k cores mem gs =
     \<lparr>w_ID = k, w_Hostname = ''host'', w_Status = StatusActive, w_LeaseID = Some 1,
      w_CPUCapacity = whole cores, w_MemoryCapacityBytes = mem, w_GPUs = Some gs,
      w_SoftwareVersion = [], w_Labels = None, w_RunningJobIDs = None, w_RegisteredAt = 0,
      w_LastHeartbeatAt = 0\<rparr>"

text \<open>Evaluation by rewriting; the \<^verbatim>\<open>float64\<close> sums go through the exact rules for \<open>fx\<close>.\<close>

lemmas plan_eval =
  Plan_def sortByEffectivePriority_def committedByWorker_def selectWorker_def candidate_of_def
  candidate_less_def eligible_def free_cpu_def free_memory_def free_gpus_def freeGPUCount_def
  qualifying_def ep_less_def EffectivePriority_def Let_def holds_capacity_def reserve_def
  add_resources_def no_resources_def i64_def copy_slice_def whole_def fx_0 [symmetric]

lemmas preemption_eval =
  PlanPreemptions_def runningPreemptibleByWorker_def victim_less_def fits_with_def short_with_def
  enough_on_def short_on_def sub_resources_def

lemmas sample_defs = sample_job_def sample_worker_def sample_gpu_def sample_request_def

end
