(* ===== verification/Job_Properties.thy ===== *)
theory Job_Properties
  imports Job_Recovery Samples
begin

text \<open>
  The properties of the job component: submission, the state machine, retries, recovery and the
  listings, stated for the service over the in-memory repository.
\<close>

section \<open>Sample submissions\<close>

definition sample_input :: "string \<Rightarrow> SubmitInput" where
  "sample_input sid =
     \<lparr>in_Name = ''train'', in_Owner = ''ml'', in_Image = ''img'', in_Command = Some [''run''],
      in_Resources = sample_request 1 0 2 64, in_Priority = 5, in_Preemptible = True,
      in_RetryLimit = 2, in_TimeoutSeconds = 60, in_CheckpointIntervalSeconds = 0,
      in_SubmissionID = sid\<rparr>"

definition sample_store :: "Job list \<Rightarrow> MemoryRepository" where
  "sample_store js = \<lparr>jobsByID = map (\<lambda>j. (job_ID j, j)) js, idBySubmission = []\<rparr>"

lemma valid_sample_input: "length sid \<le> 256 \<Longrightarrow> valid_submit (sample_input sid)"
  by (simp add: valid_submit_def sample_input_def sample_request_def TrimSpace_printable printable_def whole_def flip: fx_0)

lemma sample_input_ranges: "submit_ranges (sample_input sid)"
  by (simp add: submit_ranges_def sample_input_def sample_request_def resource_ranges_def in_u32_def in_i32_def in_i64_def)

lemma sample_store_ok:
  assumes "distinct (map job_ID js)" "\<forall>j \<in> set js. job_SubmissionID j = []"
  shows "mem_ok (sample_store js)"
proof -
  have "mem_jobs (sample_store js) k = Some j \<Longrightarrow> j \<in> set js \<and> job_ID j = k" for k j
    by (auto simp: sample_store_def dest: map_of_SomeD)
  note stored = this
  have "keys_ok (jobsByID (sample_store js))"
    using assms(1) by (simp add: keys_ok_def sample_store_def o_def)
  moreover have "\<not> (s \<noteq> [] \<and> (\<exists>j. mem_jobs (sample_store js) k = Some j \<and> job_SubmissionID j = s))" for s k
    using assms(2) stored by blast
  moreover have "map_of (idBySubmission (sample_store js)) s = None" for s
    by (simp add: sample_store_def)
  ultimately show ?thesis
    unfolding mem_ok_def using stored by (intro conjI allI iffI) (simp_all only: option.distinct, blast+)
qed

lemma sample_job_fields [simp]:
  "job_ID (sample_job k s p b q ws) = k" "job_State (sample_job k s p b q ws) = s"
  "job_SubmissionID (sample_job k s p b q ws) = []"
  "elems (job_AssignedWorkerIDs (sample_job k s p b q ws)) = ws"
  by (simp_all add: sample_job_def zero_job_def)

abbreviation first_job :: Job where
  "first_job \<equiv> submitted_job ''j1'' 7 (sample_input ''s'')"

lemma sample_submission:
  obtains r1 where "Submit memory_repository ''j1'' 7 (sample_input ''s'') NewMemoryRepository = (Inr first_job, r1)"
    "mem_ok r1" "mem_jobs r1 = [''j1'' \<mapsto> first_job]" "jobs_step memory_repository NewMemoryRepository r1"
proof -
  obtain x r1 where s: "Submit memory_repository ''j1'' 7 (sample_input ''s'') NewMemoryRepository = (x, r1)"
    by fastforce
  have v: "valid_submit (sample_input ''s'')" by (rule valid_sample_input) simp
  have new: "repo_Get memory_repository ''j1'' NewMemoryRepository = Inl Jobs_ErrNotFound"
    by (simp add: mem_Get_def NewMemoryRepository_def)
  have "x = Inr first_job \<and> mem_ok r1 \<and> mem_jobs r1 = [''j1'' \<mapsto> first_job]"
    using mem.Submit_new [OF mem_ok_new v _ _ s] by (simp add: NewMemoryRepository_def submission_free_def)
  then show ?thesis using that [of r1] s jobs_step.step_submit [OF new sample_input_ranges s] by simp
qed

section \<open>Submission\<close>

text \<open>\<^verbatim>\<open>ValidateSubmit\<close> accepts exactly the well-formed requests and otherwise reports every
  problem it finds, in order, as one validation error.\<close>

theorem ValidateSubmit_decides:
  "ValidateSubmit i =
     (if valid_submit i then None else Some (Jobs_ValidationError (submit_problems i)))"
  by (simp add: ValidateSubmit_None ValidateSubmit_Some)

text \<open>A first submission stores exactly one new job: QUEUED, on its first attempt, unassigned,
  with the request copied, and touches no other job.\<close>

theorem Submit_stores_queued_job:
  assumes "mem_ok r" "valid_submit i" "mem_jobs r newID = None"
    "submission_free (in_SubmissionID i) (mem_jobs r)" "Submit memory_repository newID now i r = (x, r')"
  shows "x = Inr (submitted_job newID now i) \<and> mem_ok r'
    \<and> mem_jobs r' = (mem_jobs r)(newID \<mapsto> submitted_job newID now i)"
  using mem.Submit_new [OF assms] by simp

theorem Submit_stores_queued_job_witness:
  "mem_jobs (snd (Submit memory_repository ''j1'' 7 (sample_input ''s'') NewMemoryRepository)) ''j1''
     = Some first_job"
proof -
  have v: "valid_submit (sample_input ''s'')" by (rule valid_sample_input) simp
  show ?thesis
    using Submit_stores_queued_job [OF mem_ok_new v _ _ prod.collapse [symmetric], of "''j1''" 7]
    by (simp add: NewMemoryRepository_def submission_free_def)
qed

text \<open>Submission is idempotent: a second request with the same non-empty submission
  identifier, whatever else it asks for, gets the first job back and changes nothing.\<close>

theorem Submit_idempotent:
  assumes "mem_ok r" "valid_submit i" "mem_jobs r id1 = None" "in_SubmissionID i \<noteq> []"
    "Submit memory_repository id1 t1 i r = (Inr j, r1)"
    "valid_submit i'" "in_SubmissionID i' = in_SubmissionID i"
  shows "Submit memory_repository id2 t2 i' r1 = (Inr j, r1)"
proof (cases "submission_free (in_SubmissionID i) (mem_jobs r)")
  case True
  from mem.Submit_new [OF assms(1-3) True assms(5)]
  have r1: "j = submitted_job id1 t1 i" "mem_ok r1" "mem_jobs r1 id1 = Some j" by simp_all
  show ?thesis
    by (rule mem.Submit_existing [OF r1(2) assms(6) _ r1(3)]) (use assms(4,7) r1(1) in simp_all)
next
  case False
  then obtain k j0 where k: "mem_jobs r k = Some j0" "job_SubmissionID j0 = in_SubmissionID i"
    using assms(4) by (auto simp: submission_free_def)
  from mem.Submit_existing [OF assms(1,2,4) k] assms(5) have "j = j0" "r1 = r" by simp_all
  then show ?thesis using mem.Submit_existing [OF assms(1,6) _ k(1)] k(2) assms(4,7) by simp
qed

theorem Submit_idempotent_witness:
  "snd (Submit memory_repository ''j2'' 9 (sample_input ''s'')
     (snd (Submit memory_repository ''j1'' 7 (sample_input ''s'') NewMemoryRepository)))
   = snd (Submit memory_repository ''j1'' 7 (sample_input ''s'') NewMemoryRepository)"
proof -
  have v: "valid_submit (sample_input ''s'')" by (rule valid_sample_input) simp
  obtain r1 where s: "Submit memory_repository ''j1'' 7 (sample_input ''s'') NewMemoryRepository = (Inr first_job, r1)"
    by (rule sample_submission)
  have "Submit memory_repository ''j2'' 9 (sample_input ''s'') r1 = (Inr first_job, r1)"
    by (rule Submit_idempotent [OF mem_ok_new v _ _ s v])
      (simp_all add: NewMemoryRepository_def sample_input_def)
  with s show ?thesis by simp
qed

section \<open>The state machine\<close>



text \<open>C3.  In every run of the service that starts from an empty store, every stored job satisfies
  \<open>job_inv\<close>: it is in one of the eight states the code uses, its attempt counter lies between 1
  and its retry limit (or is 1), it is FAILED only with its attempts used up, the completion,
  failure and start times are set exactly in the states that have them, only preemptible jobs
  are PREEMPTED, and QUEUED jobs hold no worker.\<close>

theorem stored_jobs_invariant:
  assumes "(jobs_step memory_repository)\<^sup>*\<^sup>* NewMemoryRepository r" "mem_jobs r k = Some j"
  shows "job_inv j"
  using mem.jobs_run_job_inv [OF assms(1) mem_ok_new _ assms(2)] by (simp add: NewMemoryRepository_def)

theorem stored_jobs_invariant_witness: "job_inv first_job"
proof -
  obtain r1 where r1: "mem_jobs r1 = [''j1'' \<mapsto> first_job]" "jobs_step memory_repository NewMemoryRepository r1"
    by (rule sample_submission)
  show ?thesis
    by (rule stored_jobs_invariant [where r = r1 and k = "''j1''"]) (use r1 in simp_all)
qed

text \<open>C26.  Terminal jobs are final: once a job of a run is SUCCEEDED, FAILED or CANCELLED, no later
  call changes it in any way.\<close>

theorem terminal_jobs_final:
  assumes "(jobs_step memory_repository)\<^sup>*\<^sup>* NewMemoryRepository r" "mem_jobs r k = Some j"
    "Terminal (job_State j)" "(jobs_step memory_repository)\<^sup>*\<^sup>* r r'"
  shows "mem_jobs r' k = Some j"
proof -
  have "mem_ok r \<and> all_reachable (mem_jobs r)"
    using mem.jobs_run_inv [OF assms(1) mem_ok_new] by (simp add: NewMemoryRepository_def all_reachable_def)
  with mem.terminal_kept [OF assms(4) _ _ assms(2,3)] show ?thesis by blast
qed

theorem terminal_jobs_final_witness:
  "\<exists>r j. mem_jobs r ''j1'' = Some j \<and> job_State j = StateCancelled
     \<and> mem_jobs (snd (Start memory_repository 9 ''j1'' r)) ''j1'' = Some j"
proof -
  obtain r1 where r1: "mem_jobs r1 = [''j1'' \<mapsto> first_job]" "jobs_step memory_repository NewMemoryRepository r1"
    by (rule sample_submission)
  define r2 where "r2 = snd (job_call memory_repository (OpCancel 8) ''j1'' r1)"
  define r3 where "r3 = snd (job_call memory_repository (OpStart 9) ''j1'' r2)"
  obtain j where j: "mem_jobs r2 ''j1'' = Some j" "job_State j = StateCancelled"
    using r1(1) by (simp add: r2_def Cancel_def mem_Update_def Cancel_fn_def submitted_job_def update_conv')
  have "jobs_step memory_repository r1 r2"
    unfolding r2_def by (rule jobs_step.step_call [OF prod.collapse [symmetric]])
  with r1(2) have run: "(jobs_step memory_repository)\<^sup>*\<^sup>* NewMemoryRepository r2" by simp
  have "jobs_step memory_repository r2 r3"
    unfolding r3_def by (rule jobs_step.step_call [OF prod.collapse [symmetric]])
  then have "mem_jobs r3 ''j1'' = Some j"
    by (intro terminal_jobs_final [OF run j(1)]) (simp_all add: j(2))
  with j show ?thesis by (auto simp: r3_def)
qed

text \<open>C38.  Manual retry never takes effect: in every run of the service \<^verbatim>\<open>Retry\<close> answers with an
  error and leaves the store as it is, because a job is FAILED only when its attempts are used
  up, and that is exactly when \<^verbatim>\<open>Retry\<close> refuses.\<close>

theorem Retry_always_refused:
  assumes "(jobs_step memory_repository)\<^sup>*\<^sup>* NewMemoryRepository r"
  shows "\<exists>e. Retry memory_repository k r = (Inl e, r)"
  using mem.Retry_refused [OF assms mem_ok_new] by (simp add: NewMemoryRepository_def)

theorem Retry_always_refused_witness:
  "\<exists>e. Retry memory_repository ''j1'' NewMemoryRepository = (Inl e, NewMemoryRepository)"
  by (rule Retry_always_refused) simp

section \<open>Operations\<close>

definition cancel_outcome :: "State \<Rightarrow> State option" where
  "cancel_outcome s =
     (if s \<in> {StateSucceeded, StateFailed, StateCancelled, StateCancelRequested} then Some s
      else if s \<in> {StateQueued, StateScheduled, StateRetrying} then Some StateCancelled
      else if s \<in> {StateRunning, StateCheckpointing} then Some StateCancelRequested
      else None)"

lemma Cancel_fn_outcome:
  "case cancel_outcome (job_State j) of
     None \<Rightarrow> \<exists>e. Cancel_fn t j = Inl e \<and> errors_Is e Jobs_ErrInvalidState
   | Some s \<Rightarrow> \<exists>j'. Cancel_fn t j = Inr j' \<and> job_State j' = s \<and> Cancel_fn t' j' = Inr j'"
  by (cases "job_State j") (simp_all add: cancel_outcome_def Cancel_fn_def invalid_state_def)

text \<open>\<^verbatim>\<open>Cancel\<close> on every state: terminal and cancel-requested jobs are returned unchanged, a job
  that is not executing becomes CANCELLED at once, an executing one becomes CANCEL_REQUESTED, and
  a PREEMPTED or LOST one is refused.  A second cancellation changes nothing.\<close>

theorem Cancel_on_every_state:
  assumes "mem_ok r" "mem_jobs r k = Some j" "Cancel memory_repository t k r = (x, r')"
  shows "case cancel_outcome (job_State j) of
      None \<Rightarrow> (\<exists>e. x = Inl e \<and> errors_Is e Jobs_ErrInvalidState) \<and> r' = r
    | Some s \<Rightarrow> \<exists>j'. x = Inr j' \<and> job_State j' = s \<and> mem_jobs r' = (mem_jobs r)(k \<mapsto> j')
        \<and> fst (Cancel memory_repository t' k r') = Inr j'
        \<and> mem_jobs (snd (Cancel memory_repository t' k r')) = mem_jobs r'"
proof (cases "cancel_outcome (job_State j)")
  case None
  with Cancel_fn_outcome [where j = j and t = t and t' = t'] obtain e where
    "Cancel_fn t j = Inl e" "errors_Is e Jobs_ErrInvalidState" by auto
  with assms have "x = Inl e" "r' = r" by (simp_all add: Cancel_def mem_Update_def)
  with \<open>errors_Is e Jobs_ErrInvalidState\<close> None show ?thesis by simp
next
  case (Some s)
  with Cancel_fn_outcome [where j = j and t = t and t' = t'] obtain j' where j': "Cancel_fn t j = Inr j'" "job_State j' = s"
    "Cancel_fn t' j' = Inr j'" by auto
  from assms j'(1) have x: "x = Inr j'" and
    r': "mem_jobs r' = (mem_jobs r)(k \<mapsto> j')" by (auto simp: Cancel_def mem_Update_def update_conv')
  from r' j'(3) have "fst (Cancel memory_repository t' k r') = Inr j'"
    "mem_jobs (snd (Cancel memory_repository t' k r')) = mem_jobs r'"
    by (simp_all add: Cancel_def mem_Update_def update_conv' fun_upd_idem)
  with x r' j'(2) Some show ?thesis by simp
qed

theorem Cancel_on_every_state_witness:
  "\<exists>r j'. mem_jobs r ''j1'' = Some j' \<and> job_State j' = StateCancelled"
proof -
  obtain r where r: "mem_ok r" "mem_jobs r = [''j1'' \<mapsto> first_job]" by (rule sample_submission)
  have j: "mem_jobs r ''j1'' = Some first_job" by (simp add: r(2))
  obtain x r' where c: "Cancel memory_repository 8 ''j1'' r = (x, r')" by fastforce
  from Cancel_on_every_state [OF r(1) j c, of 9] obtain j' where
    "job_State j' = StateCancelled" "mem_jobs r' = (mem_jobs r)(''j1'' \<mapsto> j')"
    by (auto simp: cancel_outcome_def)
  then show ?thesis by (intro exI [of _ r'] exI [of _ j']) simp
qed

text \<open>A job is assigned at most once: of two assignments racing for the same QUEUED job, the
  first to lock it wins and the second gets \<^verbatim>\<open>ErrInvalidState\<close> and changes nothing.\<close>

theorem AssignToWorkers_exclusive:
  assumes "mem_ok r" "AssignToWorkers memory_repository k ws r = (Inr j, r1)"
  shows "job_State j = StateScheduled \<and> elems (job_AssignedWorkerIDs j) = ws
    \<and> mem_jobs r1 = (mem_jobs r)(k \<mapsto> j)
    \<and> (\<exists>e. AssignToWorkers memory_repository k ws' r1 = (Inl e, r1) \<and> errors_Is e Jobs_ErrInvalidState)"
  using assms by (auto simp: AssignToWorkers_def mem_Update_def AssignToWorkers_fn_def invalid_state_def
      update_conv' split: option.splits if_splits)

theorem AssignToWorkers_exclusive_witness:
  "\<exists>r1 e. AssignToWorkers memory_repository ''j1'' [''b''] r1 = (Inl e, r1)
     \<and> (\<exists>j. mem_jobs r1 ''j1'' = Some j \<and> elems (job_AssignedWorkerIDs j) = [''a''])"
proof -
  obtain r where r: "mem_ok r" "mem_jobs r = [''j1'' \<mapsto> first_job]" by (rule sample_submission)
  obtain j r1 where a: "AssignToWorkers memory_repository ''j1'' [''a''] r = (Inr j, r1)"
    using r(2) by (simp add: AssignToWorkers_def mem_Update_def AssignToWorkers_fn_def)
  from AssignToWorkers_exclusive [OF r(1) a, of "[''b'']"] show ?thesis by auto
qed

definition running_sample :: Job where
  "running_sample = (sample_job ''j'' StateRunning 1 True (sample_request 1 0 1 1) [''w''])
     \<lparr>job_StartedAt := Some 3\<rparr>"

text \<open>Failure accounting: a RUNNING job that fails is requeued with its next attempt, unstarted
  and unassigned, while attempts remain, and FAILED otherwise; being preempted and stopped puts
  it back in the queue without using up an attempt.\<close>

theorem failure_accounting:
  assumes "job_inv j" "job_State j = StateRunning"
  shows "(\<exists>j'. Fail_fn reason t j = Inr j'
    \<and> (if job_CurrentAttempt j < job_RetryLimit j
       then job_State j' = StateQueued \<and> job_CurrentAttempt j' = job_CurrentAttempt j + 1
         \<and> job_StartedAt j' = None \<and> elems (job_AssignedWorkerIDs j') = []
       else job_State j' = StateFailed \<and> job_CurrentAttempt j' = job_CurrentAttempt j
         \<and> job_FailedAt j' = Some t))
    \<and> (job_Preemptible j \<longrightarrow> (\<exists>p q. Preempt_fn reason j = Inr p \<and> ReportStopped_fn t p = Inr q
      \<and> job_State p = StatePreempted \<and> job_State q = StateQueued
      \<and> job_CurrentAttempt q = job_CurrentAttempt j \<and> elems (job_AssignedWorkerIDs q) = []))"
  using assms attempt_succ [OF assms(1)]
  by (simp add: Fail_fn_def Preempt_fn_def ReportStopped_fn_def)

theorem failure_accounting_witness:
  "\<exists>j'. Fail_fn ''oom'' 9 running_sample = Inr j' \<and> job_State j' = StateQueued \<and> job_CurrentAttempt j' = 2"
proof -
  have "job_inv running_sample" "job_State running_sample = StateRunning"
    "job_CurrentAttempt running_sample = 1" "job_RetryLimit running_sample = 3"
    by (simp_all add: running_sample_def sample_job_def job_inv_def used_states_def copy_slice_def zero_job_def)
  with failure_accounting [of running_sample "''oom''" 9] show ?thesis by auto
qed

text \<open>C11.  Losing a worker recovers exactly the jobs it held, once each: SCHEDULED and RUNNING ones
  are requeued or failed by the attempt rule, CANCEL_REQUESTED ones are CANCELLED, PREEMPTED
  ones requeued; every other job is untouched, the count returned is the number of jobs
  recovered, and afterwards the lost worker holds nothing.\<close>

theorem LoseWorker_recovers_exactly:
  assumes "mem_ok r" "LoseWorker memory_repository clock w r = (x, r')"
  shows "x = (None, card {k. \<exists>j. mem_jobs r k = Some j \<and> held_by w j}) \<and> mem_ok r'
    \<and> (\<forall>k. case mem_jobs r k of
          None \<Rightarrow> mem_jobs r' k = None
        | Some j \<Rightarrow>
            if held_by w j then \<exists>j'. mem_jobs r' k = Some j' \<and> same_request j j'
              \<and> job_State j' = (if job_State j = StateCancelRequested then StateCancelled
                  else if job_State j = StatePreempted \<or> job_CurrentAttempt j < job_RetryLimit j
                  then StateQueued else StateFailed)
            else mem_jobs r' k = Some j)
    \<and> (\<forall>k j'. mem_jobs r' k = Some j' \<longrightarrow> \<not> held_by w j')"
proof -
  note rec = mem.LoseWorker_recovers [OF assms]
  note all = rec [THEN conjunct2, THEN conjunct2, THEN conjunct2, THEN spec]
  have "case mem_jobs r k of None \<Rightarrow> mem_jobs r' k = None
     | Some j \<Rightarrow> if held_by w j then \<exists>j'. mem_jobs r' k = Some j' \<and> same_request j j'
           \<and> job_State j' = (if job_State j = StateCancelRequested then StateCancelled
               else if job_State j = StatePreempted \<or> job_CurrentAttempt j < job_RetryLimit j
               then StateQueued else StateFailed)
         else mem_jobs r' k = Some j" for k
  proof (cases "mem_jobs r k")
    case None
    with all [of k] show ?thesis by simp
  next
    case (Some j)
    show ?thesis
    proof (cases "held_by w j")
      case True
      with all [of k] Some obtain j' where j': "recovered w j j'" "mem_jobs r' k = Some j'" by auto
      have "job_State j \<in> set held_states" using True by (simp add: held_by_def)
      from recovered_state [OF this j'(1)] recovered_identity [OF j'(1)] j'(2) Some True
      show ?thesis by simp
    next
      case False
      with all [of k] Some show ?thesis by simp
    qed
  qed
  moreover have "x = (None, card {k. \<exists>j. mem_jobs r k = Some j \<and> held_by w j})"
    by (rule prod_eqI) (simp_all add: rec)
  moreover have "mem_ok r'" by (simp add: rec)
  moreover have "\<forall>k j'. mem_jobs r' k = Some j' \<longrightarrow> \<not> held_by w j'"
    by (intro allI impI) (rule mem.LoseWorker_none_held [OF assms])
  ultimately show ?thesis by blast
qed

theorem LoseWorker_recovers_exactly_witness:
  "\<exists>j'. mem_jobs (snd (LoseWorker memory_repository (\<lambda>_. 9) ''w'' (sample_store [running_sample]))) ''j'' = Some j'
     \<and> job_State j' = StateQueued"
proof -
  have ok: "mem_ok (sample_store [running_sample])"
    by (rule sample_store_ok) (simp_all add: running_sample_def)
  have j: "mem_jobs (sample_store [running_sample]) ''j'' = Some running_sample" "held_by ''w'' running_sample"
    "job_CurrentAttempt running_sample < job_RetryLimit running_sample" "job_State running_sample = StateRunning"
    by (simp_all add: sample_store_def running_sample_def held_by_def held_states_def) (simp add: sample_job_def)
  show ?thesis
    using LoseWorker_recovers_exactly [OF ok prod.collapse [symmetric], of "\<lambda>_. 9" "''w''",
        THEN conjunct2, THEN conjunct2, THEN conjunct1, THEN spec, of "''j''"] j by auto
qed

section \<open>Listings\<close>

text \<open>Following the page tokens of \<^verbatim>\<open>List\<close> from the first page visits every stored job that
  passes the filter exactly once, in order of creation, whatever page size is asked for, and no
  page holds more than 200 jobs.\<close>

theorem List_pages_complete:
  assumes "mem_ok r" "int (length (jobsByID r)) < 2 ^ 63"
  shows "(\<exists>xs. page_walk (Suc (length (jobsByID r))) (mem_fetch opts r) [] = Some xs
    \<and> set xs = {j. (\<exists>k. mem_jobs r k = Some j) \<and> (opt_StateFilter opts = StateZero \<or> job_State j = opt_StateFilter opts)}
    \<and> distinct (map job_ID xs) \<and> ordered_by created_less xs)
    \<and> (\<forall>token page next. mem_fetch opts r token = Inr (page, next) \<longrightarrow> length page \<le> 200)"
proof
  let ?xs = "mem_listing (opt_StateFilter opts) r"
  have len: "length ?xs \<le> length (jobsByID r)" by (simp add: mem_listing_def le_trans [OF length_filter_le])
  have "page_walk (Suc (length (jobsByID r))) (page_slice ?xs (opt_PageSize opts)) [] = Some (drop 0 ?xs)"
    by (rule page_walk_from) (use len assms(2) in simp_all)
  then show "\<exists>xs. page_walk (Suc (length (jobsByID r))) (mem_fetch opts r) [] = Some xs
    \<and> set xs = {j. (\<exists>k. mem_jobs r k = Some j) \<and> (opt_StateFilter opts = StateZero \<or> job_State j = opt_StateFilter opts)}
    \<and> distinct (map job_ID xs) \<and> ordered_by created_less xs"
    using mem_listing_set [OF assms(1)] mem_listing_distinct [OF assms(1)] mem_listing_ordered
    by (intro exI [of _ ?xs]) (simp add: mem_fetch_eq del: page_walk.simps)
  show "\<forall>token page next. mem_fetch opts r token = Inr (page, next) \<longrightarrow> length page \<le> 200"
    unfolding mem_fetch_eq using page_slice_size by blast
qed

theorem List_pages_complete_witness:
  "\<exists>xs. page_walk 2 (mem_fetch \<lparr>opt_PageSize = 1, opt_PageToken = [], opt_StateFilter = StateZero\<rparr>
       (sample_store [running_sample])) [] = Some xs \<and> set xs = {running_sample}"
proof -
  have ok: "mem_ok (sample_store [running_sample])"
    by (rule sample_store_ok) (simp_all add: running_sample_def)
  have len: "length (jobsByID (sample_store [running_sample])) = 1" by (simp add: sample_store_def)
  have "{j. \<exists>k. mem_jobs (sample_store [running_sample]) k = Some j} = {running_sample}"
    by (auto simp: sample_store_def)
  with List_pages_complete [OF ok, of "\<lparr>opt_PageSize = 1, opt_PageToken = [], opt_StateFilter = StateZero\<rparr>"] len
  show ?thesis by (auto simp: numeral_2_eq_2 simp del: page_walk.simps)
qed

text \<open>Page tokens round-trip: decoding an encoded offset gives the offset back.\<close>

theorem page_token_roundtrip: "in_i64 n \<Longrightarrow> decodePageToken (encodePageToken n) = Inr n"
  by (rule decode_encodePageToken)

theorem page_token_roundtrip_witness: "decodePageToken (encodePageToken 150) = Inr 150"
  by (rule page_token_roundtrip) (simp add: in_i64_def)

end
