(* ===== verification/Worker_Properties.thy ===== *)
theory Worker_Properties
  imports Worker_Loss Job_Properties
begin

text \<open>
  The properties of the worker component: registration, leases and heartbeats, loss and the
  recovery it triggers, and two races the code leaves open.
\<close>

section \<open>Samples\<close>

definition sample_registration :: RegisterInput where
  "sample_registration =
     \<lparr>reg_Hostname = ''host'', reg_CPUCapacity = whole 8, reg_MemoryCapacityBytes = 1024,
      reg_GPUs = Some [sample_gpu 0 80], reg_SoftwareVersion = ''v1'', reg_Labels = None\<rparr>"

lemma valid_sample_registration: "valid_register sample_registration"
  by (simp add: valid_register_def sample_registration_def sample_gpu_def valid_gpu_def
      TrimSpace_printable printable_def whole_def flip: fx_0)

definition worker_store :: "Worker list \<Rightarrow> WMemoryRepository" where
  "worker_store vs = \<lparr>workersByID = map (\<lambda>v. (w_ID v, v)) vs\<rparr>"

lemma worker_store_ok: "distinct (map w_ID vs) \<Longrightarrow> wmem_ok (worker_store vs)"
  by (auto simp: wmem_ok_def keys_ok_def worker_store_def o_def dest: map_of_SomeD)

definition one_worker :: Worker where
  "one_worker = sample_worker ''w'' 8 1024 [sample_gpu 0 80]"

lemma one_worker_store:
  "wmem_ok (worker_store [one_worker])" "wmem_workers (worker_store [one_worker]) = [''w'' \<mapsto> one_worker]"
  by (simp_all add: worker_store_ok) (simp add: worker_store_def one_worker_def sample_worker_def)

definition one_lease :: FakeManager where
  "one_lease = \<lparr>nextID = 1, keyByID = [(1, LeaseKey ''w'')], watchers = [(0, [])]\<rparr>"

lemma one_lease_room: "int n + 1 < 2 ^ 63 \<Longrightarrow> fake_room n one_lease"
  by (simp add: fake_room_def fake_ok_def one_lease_def)

section \<open>Registration\<close>

text \<open>\<^verbatim>\<open>ValidateRegister\<close> accepts exactly the well-formed registrations, among them only
  inventories with distinct device indices, and otherwise reports every problem.\<close>

theorem ValidateRegister_decides:
  "ValidateRegister i =
     (if valid_register i then None else Some (Workers_ValidationError (register_problems i)))"
  by (simp add: ValidateRegister_None ValidateRegister_Some)

text \<open>A registration grants one fresh lease bound to the worker's key and stores one ACTIVE
  worker that carries it; nothing else changes.\<close>

theorem Register_grants_lease:
  assumes "wmem_ok w" "fake_room (Suc n) l" "valid_register i" "wmem_workers w newID = None"
    "Register worker_memory_repository fake_manager ttl newID now i (w, l) = (x, w', l')"
  shows "\<exists>lease u. x = Inr u \<and> wmem_ok w' \<and> fake_live l lease = None
    \<and> fake_live l' = (fake_live l)(lease \<mapsto> LeaseKey newID)
    \<and> (\<exists>u'. wmem_workers w' = (wmem_workers w)(newID \<mapsto> u') \<and> w_Status u' = StatusActive
         \<and> w_LeaseID u' = Some lease)"
  using mem_workers.Register_valid [OF assms] by blast

theorem Register_grants_lease_witness:
  "\<exists>w' l' lease u'. Register worker_memory_repository fake_manager DefaultLeaseTTL ''w'' 5 sample_registration
       (NewWMemoryRepository, NewFakeManager) = (Inr u', w', l')
     \<and> fake_live l' = [lease \<mapsto> LeaseKey ''w'']"
proof -
  obtain x w' l' where r: "Register worker_memory_repository fake_manager DefaultLeaseTTL ''w'' 5 sample_registration
       (NewWMemoryRepository, NewFakeManager) = (x, w', l')" by (rule prod_cases3)
  have room: "fake_room (Suc 0) NewFakeManager" by (rule fake_room_new) simp
  from Register_grants_lease [OF wmem_ok_new room valid_sample_registration _ r] show ?thesis
    using r by (auto simp: NewWMemoryRepository_def NewFakeManager_def)
qed

section \<open>Leases\<close>



text \<open>C27.  A heartbeat of a known worker always leaves it ACTIVE with a live lease: the one it had
  if that is still alive, and otherwise (lease expired, or worker already LOST) a fresh one bound
  to its key.\<close>

theorem Heartbeat_self_heals:
  assumes "wmem_ok w" "fake_room (Suc n) l" "wmem_workers w k = Some v"
    "Heartbeat worker_memory_repository fake_manager ttl now k gpus running (w, l) = (x, w', l')"
  shows "\<exists>lease u u'. x = Inr u \<and> wmem_workers w' = (wmem_workers w)(k \<mapsto> u')
    \<and> w_Status u' = StatusActive \<and> w_LeaseID u' = Some lease \<and> fake_live l' lease \<noteq> None
    \<and> (if w_LeaseID v \<noteq> None \<and> fake_live l (the (w_LeaseID v)) \<noteq> None
       then w_LeaseID v = Some lease \<and> fake_live l' = fake_live l
       else fake_live l lease = None \<and> fake_live l' = (fake_live l)(lease \<mapsto> LeaseKey k))"
  using mem_workers.Heartbeat_known [OF assms] by blast

theorem Heartbeat_self_heals_witness:
  "\<exists>lease u' w' l'. w_Status u' = StatusActive \<and> w_LeaseID u' = Some lease
     \<and> wmem_workers w' = [''w'' \<mapsto> u'] \<and> fake_live l' = [lease \<mapsto> LeaseKey ''w'']"
proof -
  obtain x w' l' where h: "Heartbeat worker_memory_repository fake_manager DefaultLeaseTTL 9 ''w'' None None
      (worker_store [one_worker], NewFakeManager) = (x, w', l')" by (rule prod_cases3)
  have v: "wmem_workers (worker_store [one_worker]) ''w'' = Some one_worker" by (simp add: one_worker_store(2))
  have room: "fake_room (Suc 0) NewFakeManager" by (rule fake_room_new) simp
  have "fake_live NewFakeManager = Map.empty" by (simp add: NewFakeManager_def)
  with Heartbeat_self_heals [OF one_worker_store(1) room v h] one_worker_store(2) show ?thesis by auto
qed

text \<open>Lease keys round-trip: the watcher recovers exactly the worker identifier a key was made
  from, and accepts no other key.\<close>

theorem lease_key_roundtrip:
  "WorkerIDFromLeaseKey key = (k, True) \<longleftrightarrow> key = LeaseKey k \<and> k \<noteq> []"
  by (rule WorkerIDFromLeaseKey_eq)

text \<open>The heartbeat interval is at least one second, and from four seconds of lease on a
  worker has four intervals before its lease expires.\<close>

theorem HeartbeatInterval_bounds:
  "Second \<le> HeartbeatInterval ttl \<and> (4 * Second \<le> ttl \<longrightarrow> 4 * HeartbeatInterval ttl \<le> ttl)
   \<and> HeartbeatInterval DefaultLeaseTTL = 5 * Second"
  by (auto simp: HeartbeatInterval_def Let_def heartbeatFractionOfTTL_def DefaultLeaseTTL_def Second_def)

theorem HeartbeatInterval_bounds_witness: "4 * HeartbeatInterval (9 * Second) \<le> 9 * Second"
  using HeartbeatInterval_bounds [of "9 * Second"] by (simp add: Second_def)

section \<open>Loss\<close>

text \<open>C4.  From an expired lease to recovered jobs: when a worker's lease runs out, the watch loop
  of the API server marks that worker LOST, leaves every worker whose key did not come up
  alone, and recovers exactly the jobs held by the workers it marked.\<close>

theorem expired_lease_recovers_jobs:
  assumes "wmem_ok w" "mem_ok r" "fake_live l i = Some (LeaseKey k)" "k \<noteq> []" "watchers l = [(c, queue)]"
    "watchers (fake_Expire i l) = [(c, keys)]" "k \<in> dom (wmem_workers w)"
    "WatchExpirations worker_memory_repository (Some (serve_onLost memory_repository clocks))
       (Some serve_onError) keys (w, n, r) = (w', n', r')"
  shows "(\<forall>v. wmem_workers w' k = Some v \<longrightarrow> w_Status v = StatusLost)
    \<and> (\<forall>j' m. mem_jobs r' m = Some j' \<longrightarrow> \<not> held_by k j')
    \<and> worker_effect (lost_ids keys) (wmem_workers w) (wmem_workers w')
    \<and> job_effect (\<lambda>j. j) (lost_ids keys \<inter> dom (wmem_workers w)) (mem_jobs r) (mem_jobs r')"
proof -
  have keys: "keys = queue @ [LeaseKey k]" using fake_Expire_delivers [OF assms(3)] assms(5,6) by simp
  have k: "k \<in> lost_ids keys" using assms(4) by (simp add: keys lost_ids_def)
  have norm: "norm_job (\<lambda>t. t) (\<lambda>s. s) = (\<lambda>j. j)" by (simp add: fun_eq_iff)
  from mem_watch.watch_loop [OF assms(1,2,8)] have
    ws: "worker_effect (lost_ids keys) (wmem_workers w) (wmem_workers w')" and
    js: "job_effect (\<lambda>j. j) (lost_ids keys \<inter> dom (wmem_workers w)) (mem_jobs r) (mem_jobs r')"
    by (simp_all add: norm)
  have "\<not> held_by k j'" if "mem_jobs r' m = Some j'" for m j'
    using job_effect_none_held [OF js, of k m j'] k assms(7) that by simp
  moreover have "\<forall>v. wmem_workers w' k = Some v \<longrightarrow> w_Status v = StatusLost"
    using ws k by (simp add: worker_effect_def)
  ultimately show ?thesis using ws js by blast
qed

theorem expired_lease_recovers_jobs_witness:
  "\<exists>w' n' r'. WatchExpirations worker_memory_repository (Some (serve_onLost memory_repository (\<lambda>_ _. 9)))
       (Some serve_onError) [LeaseKey ''w''] (worker_store [one_worker], 0, sample_store [running_sample]) = (w', n', r')
     \<and> (\<forall>m j'. mem_jobs r' m = Some j' \<longrightarrow> \<not> held_by ''w'' j')"
proof -
  obtain w' n' r' where run: "WatchExpirations worker_memory_repository (Some (serve_onLost memory_repository (\<lambda>_ _. 9)))
       (Some serve_onError) [LeaseKey ''w''] (worker_store [one_worker], 0, sample_store [running_sample]) = (w', n', r')"
    by (rule prod_cases3)
  have jobs: "mem_ok (sample_store [running_sample])"
    by (rule sample_store_ok) (simp_all add: running_sample_def)
  have live: "fake_live one_lease 1 = Some (LeaseKey ''w'')" "watchers one_lease = [(0, [])]"
    "watchers (fake_Expire 1 one_lease) = [(0, [LeaseKey ''w''])]"
    by (simp_all add: one_lease_def fake_Expire_def fake_drop_def)
  from expired_lease_recovers_jobs [OF one_worker_store(1) jobs live(1) _ live(2,3) _ run] run
  show ?thesis by (auto simp: one_worker_store(2))
qed

section \<open>Races\<close>

text \<open>A late expiration event undoes a self-healing heartbeat: when the old lease has expired,
  the heartbeat has re-granted one, and the event of the old lease is handled only then, the worker
  ends up LOST without a lease although a live lease is bound to its key.  \<^verbatim>\<open>MarkLost\<close> does not
  check which lease the event was about.\<close>

theorem stale_expiration_loses_live_worker:
  assumes "wmem_ok w" "fake_room (Suc n) l" "wmem_workers w k = Some v" "w_LeaseID v = Some i"
    "fake_live l i = None"
    "Heartbeat worker_memory_repository fake_manager ttl now k gpus running (w, l) = (x, w', l')"
    "MarkLost worker_memory_repository k w' = (y, w'')"
  shows "\<exists>lease u. fake_live l' lease = Some (LeaseKey k) \<and> wmem_workers w'' k = Some u
    \<and> w_Status u = StatusLost \<and> w_LeaseID u = None"
proof -
  from mem_workers.Heartbeat_known [OF assms(1,2,3,6)] assms(4,5) obtain lease u where
    h: "wmem_ok w'" "wmem_workers w' = (wmem_workers w)(k \<mapsto> u)" "w_Status u = StatusActive"
    "fake_live l' = (fake_live l)(lease \<mapsto> LeaseKey k)" by auto
  then have "wmem_workers w' k = Some u" "fake_live l' lease = Some (LeaseKey k)" by simp_all
  with mem_workers.MarkLost_known [OF h(1) _ assms(7)] h(3) show ?thesis by fastforce
qed

definition expired_worker :: Worker where
  "expired_worker = one_worker\<lparr>w_LeaseID := Some 7\<rparr>"

theorem stale_expiration_loses_live_worker_witness:
  "\<exists>l' w'' lease u. fake_live l' lease = Some (LeaseKey ''w'') \<and> wmem_workers w'' ''w'' = Some u
     \<and> w_Status u = StatusLost"
proof -
  obtain x w' l' where h: "Heartbeat worker_memory_repository fake_manager DefaultLeaseTTL 9 ''w'' None None
      (worker_store [expired_worker], NewFakeManager) = (x, w', l')" by (rule prod_cases3)
  obtain y w'' where m: "MarkLost worker_memory_repository ''w'' w' = (y, w'')" by fastforce
  have ok: "wmem_ok (worker_store [expired_worker])" by (simp add: worker_store_ok)
  have v: "wmem_workers (worker_store [expired_worker]) ''w'' = Some expired_worker"
    "w_LeaseID expired_worker = Some 7"
    by (simp_all add: worker_store_def expired_worker_def one_worker_def sample_worker_def)
  have room: "fake_room (Suc 0) NewFakeManager" by (rule fake_room_new) simp
  have "fake_live NewFakeManager 7 = None" by (simp add: NewFakeManager_def)
  from stale_expiration_loses_live_worker [OF ok room v this h m] show ?thesis by blast
qed

text \<open>A heartbeat that read and renewed before the loss and writes after it: the worker is ACTIVE
  with no lease, so that no expiry will ever mark it lost.\<close>

lemma late_heartbeat_active_without_lease:
  assumes "wmem_ok w" "wmem_workers w k = Some v" "w_Status v = StatusActive" "w_LeaseID v = Some i"
    "fake_live l i \<noteq> None" "Heartbeat_lease fake_manager ttl k v l = (Inr newLease, l')"
    "MarkLost worker_memory_repository k w = (y, w')"
    "wmem_Update k (Heartbeat_fn now newLease gpus running) w' = (x, w'')"
  shows "\<exists>u. wmem_workers w'' k = Some u \<and> w_Status u = StatusActive \<and> w_LeaseID u = None"
proof -
  have new: "newLease = None" using assms(4-6)
    by (auto simp: Heartbeat_lease_def fake_Renew_def split: if_splits prod.splits option.splits)
  from mem_workers.MarkLost_known [OF assms(1,2,7)] assms(3) obtain u where
    u: "wmem_workers w' k = Some u" "w_LeaseID u = None" by auto
  from assms(8) u new show ?thesis
    by (auto simp: wmem_Update_def Heartbeat_fn_def Let_def update_conv')
qed

section \<open>The etcd lease manager\<close>

text \<open>C35.  On an etcd cluster that behaves as documented, \<^verbatim>\<open>EtcdManager\<close> keeps the contract of
  \<^verbatim>\<open>leases.Manager\<close> that the worker service is verified against: a grant binds the key to a
  fresh lease, a renewal tells live from expired leases, a revocation is idempotent.\<close>

theorem EtcdManager_keeps_contract:
  assumes "etcd_laws client leases"
  shows "lease_manager (etcd_manager client) (bound_leases leases) (all_bound leases)"
  using assms by (rule etcd_lease_manager)

text \<open>A client over a list of leases.\<close>

definition list_client :: "(int \<times> string option) list EtcdClient" where
  "list_client =
     \<lparr>ec_Grant = (\<lambda>secs e. let i = Max (insert 0 (fst ` set e)) + 1 in (Inr i, (i, None) # e)),
      ec_PutWithLease = (\<lambda>key v i e. (None, (i, Some key) # e)),
      ec_KeepAliveOnce = (\<lambda>i e. (if map_of e i = None then Some Rpc_ErrLeaseNotFound else None, e)),
      ec_Revoke = (\<lambda>i e. (if map_of e i = None then Some Rpc_ErrLeaseNotFound else None,
        AList.delete i e))\<rparr>"

lemma list_client_fresh: "map_of e (Max (insert 0 (fst ` set e)) + 1) = (None :: 'b option)"
  for e :: "(int \<times> 'b) list"
proof -
  have "x \<le> Max (insert 0 (fst ` set e))" if "x \<in> fst ` set e" for x
    using that by (intro Max_ge) auto
  from this [of "Max (insert 0 (fst ` set e)) + 1"] show ?thesis by (auto simp: map_of_eq_None_iff)
qed

lemma list_client_laws: "etcd_laws list_client map_of"
  by (auto simp: etcd_laws_def list_client_def Let_def list_client_fresh delete_conv')

theorem EtcdManager_keeps_contract_witness:
  "lease_manager (etcd_manager list_client) (bound_leases map_of) (all_bound map_of)"
  by (rule EtcdManager_keeps_contract [OF list_client_laws])

end
