(* ===== verification/Scheduler_Properties.thy ===== *)
theory Scheduler_Properties
  imports Gang_Placement Preemption Scheduler_Service Job_Properties Worker_Properties
begin

text \<open>
  The properties of the scheduler: what a plan and a set of preemptions guarantee, what a pass of
  the service writes, and two scenarios in which the preemption algorithm does not reach what its
  comments promise.
\<close>

section \<open>Samples\<close>

text \<open>A worker with two GPUs that runs \<open>''r''\<close>, and two queued jobs that both fit beside it only
  one at a time.\<close>

definition sample_cluster :: "Worker list" where
  "sample_cluster = [sample_worker ''w'' 8 1024 [sample_gpu 0 80, sample_gpu 1 80]]"

definition sample_jobs :: "Job list" where
  "sample_jobs =
     [sample_job ''r'' StateRunning 0 True (sample_request 1 0 1 10) [''w''],
      sample_job ''a'' StateQueued 1 True (sample_request 1 0 1 10) [],
      sample_job ''b'' StateQueued 2 True (sample_request 1 0 1 10) []]"

lemma sample_sound: "sound_snapshot sample_jobs sample_cluster"
  by (simp add: sound_snapshot_def sample_jobs_def sample_cluster_def sample_defs sound_defs
      whole_def exact_cpu_fx)

lemma sample_within: "no_overcommit sample_jobs sample_cluster"
  by (simp add: no_overcommit_def sample_jobs_def sample_cluster_def sample_defs demand_def
      job_demand_def holds_capacity_def whole_def copy_slice_def)

lemma sample_plan:
  "Plan sample_jobs sample_cluster 0 =
     [\<lparr>a_JobID = ''b'', a_WorkerID = ''w'', a_Reason = ''eligible worker found''\<rparr>]"
  by (simp add: plan_eval sample_jobs_def sample_cluster_def sample_defs)

section \<open>Placement\<close>



text \<open>C24.  Gang placement: whichever devices the jobs already on a worker occupy, as many as they hold,
  the jobs a plan puts there can all be given their GPUs at once, disjoint from those and from one
  another and each with the memory the job asks for.\<close>

theorem Plan_gang_devices:
  assumes "sound_snapshot js ws" "v \<in> set ws" "used \<subseteq> devices v"
    "int (card used) = demand GPUCount (w_ID v) js"
  shows "\<exists>alloc. gang_alloc v used js (Plan js ws now) alloc"
  using assms by (rule Plan_gang)

theorem Plan_gang_devices_witness:
  "\<exists>alloc. gang_alloc (hd sample_cluster) {0} sample_jobs (Plan sample_jobs sample_cluster 0) alloc"
  by (rule Plan_gang_devices [OF sample_sound])
    (simp_all add: sample_cluster_def devices_def sample_jobs_def sample_defs demand_def
      job_demand_def holds_capacity_def copy_slice_def)




definition sample_pair :: "Job list" where
  "sample_pair =
     [sample_job ''a'' StateQueued 1 True (sample_request 1 0 1 10) [],
      sample_job ''b'' StateQueued 2 True (sample_request 1 0 1 10) []]"


text \<open>A plan assigns only QUEUED jobs of the snapshot, each at most once, and only to ACTIVE
  workers that had room for it beside everything assigned before.\<close>

theorem Plan_assigns_queued_once:
  assumes "distinct (map job_ID js)"
  shows "distinct (map a_JobID (Plan js ws now)) \<and> (\<forall>a \<in> set (Plan js ws now).
    (\<exists>j \<in> set js. job_ID j = a_JobID a \<and> job_State j = StateQueued)
    \<and> (\<exists>v \<in> set ws. w_ID v = a_WorkerID a \<and> w_Status v = StatusActive))"
proof -
  let ?q = "sortByEffectivePriority now (filter (\<lambda>j. job_State j = StateQueued) js)"
  have "distinct (map job_ID ?q)"
    using assms by (simp add: sortByEffectivePriority_def distinct_map_filter)
  moreover have "set ?q = {j \<in> set js. job_State j = StateQueued}" by (auto simp: sortByEffectivePriority_def)
  ultimately show ?thesis
    using plan_loop_ids [of ws ?q] plan_loop_distinct [of ?q ws] plan_loop_active [of _ ws ?q]
    unfolding Plan_def by fastforce
qed

theorem Plan_assigns_queued_once_witness:
  "length (Plan sample_jobs sample_cluster 0) = 1 \<and> distinct (map a_JobID (Plan sample_jobs sample_cluster 0))"
  using Plan_assigns_queued_once [of sample_jobs sample_cluster 0] sample_sound
  by (simp add: sample_plan sound_snapshot_def)

text \<open>Aging: the effective priority is the priority plus one for every 30 seconds waited, at most
  20, so after ten minutes a job outranks every newcomer less than 20 above it.\<close>

theorem EffectivePriority_ages:
  assumes "in_i32 p" "p + 20 < 2 ^ 31"
  shows "EffectivePriority p createdAt now = p + min 20 (max 0 ((now - createdAt) div (30 * Second)))
    \<and> (createdAt + 600 * Second \<le> now \<longrightarrow>
        (\<forall>p'. in_i32 p' \<and> p' < p + 20 \<longrightarrow> EffectivePriority p' now now < EffectivePriority p createdAt now))"
proof -
  have "EffectivePriority p' now now = p'" for p' by (simp add: EffectivePriority_def)
  then show ?thesis
    using aging_bonus_full [of createdAt now]
    by (simp add: EffectivePriority_closed [OF assms] aging_bonus_def AgingInterval_def Second_def)
qed

theorem EffectivePriority_ages_witness:
  "EffectivePriority 5 0 (95 * Second) = 8 \<and> EffectivePriority 24 (601 * Second) (601 * Second) < EffectivePriority 5 0 (601 * Second)"
  using EffectivePriority_ages [of 5 0 "95 * Second"]
    EffectivePriority_ages [of 5 0 "601 * Second", THEN conjunct2, THEN mp, THEN spec, of 24]
  by (simp add: in_i32_def Second_def)

section \<open>Preemption\<close>

text \<open>C31.  Every preemption is justified: the victim is a RUNNING, preemptible job assigned to the
  named ACTIVE worker, its effective priority is below that of the queued, unplaced job named in
  the reason, and no job is chosen twice.\<close>

theorem preemptions_justified:
  assumes "distinct (map job_ID js)" "\<forall>j \<in> set js. distinct (elems (job_AssignedWorkerIDs j))"
  shows "distinct (map p_JobID (PlanPreemptions js ws placed now))
    \<and> (\<forall>p \<in> set (PlanPreemptions js ws placed now).
        \<exists>pending \<in> set js. \<exists>j \<in> set js. \<exists>v \<in> set ws. job_State pending = StateQueued \<and> job_ID pending \<notin> a_JobID ` set placed
          \<and> job_ID j = p_JobID p \<and> w_ID v = p_WorkerID p \<and> w_Status v = StatusActive \<and> may_preempt (w_ID v) j
          \<and> job_priority now j < job_priority now pending \<and> p_Reason p = preempt_reason pending)"
proof
  show "distinct (map p_JobID (PlanPreemptions js ws placed now))"
    using assms by (rule PlanPreemptions_distinct)
  show "\<forall>p \<in> set (PlanPreemptions js ws placed now).
        \<exists>pending \<in> set js. \<exists>j \<in> set js. \<exists>v \<in> set ws. job_State pending = StateQueued \<and> job_ID pending \<notin> a_JobID ` set placed
          \<and> job_ID j = p_JobID p \<and> w_ID v = p_WorkerID p \<and> w_Status v = StatusActive \<and> may_preempt (w_ID v) j
          \<and> job_priority now j < job_priority now pending \<and> p_Reason p = preempt_reason pending"
  proof
    fix p assume "p \<in> set (PlanPreemptions js ws placed now)"
    from preempt_queue_justified [OF this [unfolded PlanPreemptions_def]] show
      "\<exists>pending \<in> set js. \<exists>j \<in> set js. \<exists>v \<in> set ws. job_State pending = StateQueued \<and> job_ID pending \<notin> a_JobID ` set placed
          \<and> job_ID j = p_JobID p \<and> w_ID v = p_WorkerID p \<and> w_Status v = StatusActive \<and> may_preempt (w_ID v) j
          \<and> job_priority now j < job_priority now pending \<and> p_Reason p = preempt_reason pending"
      by (fastforce simp: sortByEffectivePriority_def runningPreemptible_set)
  qed
qed

text \<open>One GPU, held by a preemptible job, and a queued job of higher priority.\<close>

definition full_worker :: "Worker list" where
  "full_worker = [sample_worker ''w'' 8 1024 [sample_gpu 0 80]]"

definition contending_jobs :: "Job list" where
  "contending_jobs =
     [sample_job ''p'' StateQueued 5 False (sample_request 1 0 1 10) [],
      sample_job ''r'' StateRunning 0 True (sample_request 1 0 1 10) [''w'']]"

lemma contending_preempts:
  "PlanPreemptions contending_jobs full_worker [] 0 =
     [\<lparr>p_JobID = ''r'', p_WorkerID = ''w'', p_Reason = preempt_reason (contending_jobs ! 0)\<rparr>]"
  by (simp add: plan_eval preemption_eval sample_defs contending_jobs_def full_worker_def)

lemma contending_once: "\<forall>j \<in> set contending_jobs. distinct (elems (job_AssignedWorkerIDs j))"
  by (simp add: contending_jobs_def sample_job_def copy_slice_def)

theorem preemptions_justified_witness:
  "\<exists>p \<in> set (PlanPreemptions contending_jobs full_worker [] 0). \<exists>j \<in> set contending_jobs.
     job_ID j = p_JobID p \<and> may_preempt ''w'' j"
proof -
  have "distinct (map job_ID contending_jobs)" by (simp add: contending_jobs_def sample_job_def)
  from preemptions_justified [OF this contending_once, of full_worker "[]" 0, THEN conjunct2]
  show ?thesis by (auto simp: contending_preempts)
qed

text \<open>Preemption helps the job it is for: when the search for the first pending job preempts
  anything, and on every worker the committed GPUs do not exceed those that meet the job's memory
  bar, then the job fits some worker once the victims are gone.\<close>

theorem preemption_makes_room:
  assumes "sound_snapshot js ws" "no_overcommit js ws" "\<forall>j \<in> set js. distinct (elems (job_AssignedWorkerIDs j))"
    "sound_request (job_Resources job)"
    "\<forall>v \<in> set ws. demand GPUCount (w_ID v) js \<le> qualifying v (MinGPUMemoryBytes (job_Resources job))"
    "preempt_workers now (runningPreemptibleByWorker js) job ws (committedByWorker js) [] = (ps, c, pre)" "ps \<noteq> []"
  shows "\<exists>v \<in> set ws. eligible (job_Resources job) (c (w_ID v)) v"
  using assms by (rule first_pending_fits)

theorem preemption_makes_room_witness:
  "\<exists>ps c pre. preempt_workers 0 (runningPreemptibleByWorker contending_jobs) (contending_jobs ! 0) full_worker
      (committedByWorker contending_jobs) [] = (ps, c, pre)
    \<and> (\<exists>v \<in> set full_worker. eligible (job_Resources (contending_jobs ! 0)) (c (w_ID v)) v)"
proof -
  have s: "sound_snapshot contending_jobs full_worker" "no_overcommit contending_jobs full_worker"
    by (simp_all add: sound_snapshot_def no_overcommit_def contending_jobs_def full_worker_def sample_defs
        sound_defs whole_def exact_cpu_fx demand_def job_demand_def holds_capacity_def copy_slice_def)
  have q: "sound_request (job_Resources (contending_jobs ! 0))"
    "\<forall>v \<in> set full_worker. demand GPUCount (w_ID v) contending_jobs
       \<le> qualifying v (MinGPUMemoryBytes (job_Resources (contending_jobs ! 0)))"
    by (simp_all add: contending_jobs_def full_worker_def sample_defs sound_defs whole_def exact_cpu_fx
        demand_def job_demand_def holds_capacity_def copy_slice_def qualifying_def)
  obtain ps c pre where p: "preempt_workers 0 (runningPreemptibleByWorker contending_jobs) (contending_jobs ! 0) full_worker
      (committedByWorker contending_jobs) [] = (ps, c, pre)" by (rule prod_cases3)
  have "fst (preempt_workers 0 (runningPreemptibleByWorker contending_jobs) (contending_jobs ! 0) full_worker
      (committedByWorker contending_jobs) []) \<noteq> []"
    by (simp add: plan_eval preemption_eval sample_defs contending_jobs_def full_worker_def)
  with p have "ps \<noteq> []" by simp
  from preemption_makes_room [OF s contending_once q p this] p show ?thesis by blast
qed

definition mixed_worker :: "Worker list" where
  "mixed_worker = [sample_worker ''w'' 8 1024 [sample_gpu 0 80, sample_gpu 1 16]]"

definition mixed_jobs :: "State \<Rightarrow> string list \<Rightarrow> Job list" where
  "mixed_jobs s ws =
     [sample_job ''r1'' StateRunning 9 False (sample_request 1 0 1 10) [''w''],
      sample_job ''r2'' s 0 True (sample_request 1 0 1 10) ws,
      sample_job ''p'' StateQueued 5 False (sample_request 1 80 1 10) []]"

text \<open>Where committed GPUs outnumber the qualifying ones, preemption can be in vain for ever: the
  victim is taken down for a pending job that does not fit afterwards either, and once requeued the
  victim is the one that is placed again.\<close>

theorem preemption_in_vain:
  "Plan (mixed_jobs StateRunning [''w'']) mixed_worker 0 = []
   \<and> map p_JobID (PlanPreemptions (mixed_jobs StateRunning [''w'']) mixed_worker [] 0) = [''r2'']
   \<and> Plan (mixed_jobs StatePreempted [''w'']) mixed_worker 0 = []
   \<and> target (Plan (mixed_jobs StateQueued []) mixed_worker 0) = [''r2'' \<mapsto> ''w'']"
  by (simp add: plan_eval preemption_eval sample_defs mixed_jobs_def mixed_worker_def)

definition wide_worker :: "Worker list" where
  "wide_worker = [sample_worker ''w'' 8 1024 (map (\<lambda>i. sample_gpu i 80) [0, 1, 2, 3, 4])]"

definition wide_jobs :: "Job list" where
  "wide_jobs =
     [sample_job ''a'' StateRunning 0 True (sample_request 1 0 1 10) [''w''],
      sample_job ''b'' StateRunning 1 True (sample_request 4 0 1 10) [''w''],
      sample_job ''p'' StateQueued 5 False (sample_request 4 0 1 10) []]"

text \<open>The victims are not always as few as possible: with four GPUs needed, the job that holds one
  and the job that holds four are both preempted, although the second alone would do.\<close>

theorem preemption_not_minimal:
  "map p_JobID (PlanPreemptions wide_jobs wide_worker [] 0) = [''a'', ''b'']
   \<and> enough_on (job_Resources (wide_jobs ! 2)) (hd wide_worker) (committedByWorker wide_jobs ''w'')
       (freed_by no_resources [wide_jobs ! 1])"
  by (simp add: plan_eval preemption_eval sample_defs wide_jobs_def wide_worker_def)

section \<open>Requests that escape the CPU check\<close>

text \<open>A request for \<^verbatim>\<open>NaN\<close> CPU cores passes validation like one for none, is placed without
  regard to CPU, and from then on switches the CPU check of its worker off for every other job.\<close>

theorem nan_cpu_escapes:
  "(valid_submit (i\<lparr>in_Resources := q\<lparr>CPUCores := NaN\<rparr>\<rparr>) \<longleftrightarrow> valid_submit (i\<lparr>in_Resources := q\<lparr>CPUCores := f_zero\<rparr>\<rparr>))
   \<and> (eligible (q\<lparr>CPUCores := NaN\<rparr>) c v \<longleftrightarrow>
        w_Status v = StatusActive \<and> MemoryBytes q \<le> free_memory v c \<and> GPUCount q \<le> free_gpus v q c)
   \<and> (eligible q' (add_resources c (q\<lparr>CPUCores := NaN\<rparr>)) v \<longleftrightarrow>
        w_Status v = StatusActive \<and> MemoryBytes q' \<le> free_memory v (add_resources c q)
        \<and> GPUCount q' \<le> free_gpus v q' (add_resources c q))"
  by (auto simp: valid_submit_def eligible_def free_cpu_def free_memory_def free_gpus_def add_resources_def)

section \<open>The pass\<close>

text \<open>C30.  An undisturbed pass does what it planned: it stores exactly the planned assignments and, if
  enabled, the planned preemptions, touches no other job and no worker, logs one decision per
  assignment in order, and reports the true counts.\<close>

theorem RunOnce_applies_plan:
  assumes "mem_ok r" "repo_ListActive memory_repository r = Inr js"
    "wrepo_ListActive worker_memory_repository w = Inr ws"
    "\<forall>j \<in> set js. distinct (elems (job_AssignedWorkerIDs j))"
    "RunOnce memory_repository worker_memory_repository memory_decisions enabled now (r, w, d) = ((e, result), r', w', d')"
  shows "e = None \<and> mem_ok r' \<and> w' = w
    \<and> result = \<lparr>Considered = length (filter (\<lambda>j. job_State j = StateQueued) js),
         Assigned = length (Plan js ws now), Conflicted = 0,
         Preempted = length (planned_preemptions enabled js ws now)\<rparr>
    \<and> Decisions d' = Decisions d @ map decision_of (Plan js ws now)
    \<and> mem_jobs r' = pass_effect (\<lambda>j. j) (Plan js ws now) (planned_preemptions enabled js ws now) (mem_jobs r)"
proof -
  have norm: "norm_job (\<lambda>t. t) (\<lambda>s. s) = (\<lambda>j. j)" by (simp add: fun_eq_iff)
  from mem_pass.RunOnce_effect [OF assms, unfolded norm] show ?thesis .
qed

theorem RunOnce_applies_plan_witness:
  "\<exists>r' w' d' result. RunOnce memory_repository worker_memory_repository memory_decisions True 0
       (sample_store contending_jobs, worker_store full_worker, NewMemoryDecisionRepository) = ((None, result), r', w', d')
     \<and> Assigned result = 0 \<and> Preempted result = 1 \<and> map_option job_State (mem_jobs r' ''r'') = Some StatePreempted"
proof -
  obtain e result r' w' d' where run: "RunOnce memory_repository worker_memory_repository memory_decisions True 0
       (sample_store contending_jobs, worker_store full_worker, NewMemoryDecisionRepository) = ((e, result), r', w', d')"
    by (metis prod.collapse)
  have ok: "mem_ok (sample_store contending_jobs)"
    by (rule sample_store_ok) (simp_all add: contending_jobs_def sample_job_def zero_job_def)
  have js: "repo_ListActive memory_repository (sample_store contending_jobs) = Inr contending_jobs"
    by (simp add: mem_ListActive_def sample_store_def contending_jobs_def sample_job_def active_less_def)
  have ws: "wrepo_ListActive worker_memory_repository (worker_store full_worker) = Inr full_worker"
    by (simp add: wmem_ListActive_def worker_store_def full_worker_def sample_worker_def)
  have plan: "Plan contending_jobs full_worker 0 = []"
    by (simp add: plan_eval sample_defs contending_jobs_def full_worker_def)
  have "mem_jobs (sample_store contending_jobs) ''r'' = Some (contending_jobs ! 1)"
    by (simp add: sample_store_def contending_jobs_def sample_job_def)
  with RunOnce_applies_plan [OF ok js ws contending_once run] run show ?thesis
    by (simp add: plan planned_preemptions_def contending_preempts pass_effect_def preempted_job_def)
qed

text \<open>A pass that lost a race does no harm: whatever has happened to the store since the plan was
  made, writing the plan fails no job, counts every proposal once as assigned or conflicted, logs
  exactly the assigned ones, and changes only jobs that are still QUEUED.\<close>

theorem stale_plan_is_harmless:
  assumes "mem_ok r" "apply_assignments memory_repository memory_decisions as result (r, d) = ((e, result'), r', d')"
  shows "e = None \<and> mem_ok r'
    \<and> Assigned result' + Conflicted result' = Assigned result + Conflicted result + length as
    \<and> length (Decisions d') + Assigned result = length (Decisions d) + Assigned result'
    \<and> (\<forall>i. mem_jobs r' i \<noteq> mem_jobs r i \<longrightarrow> (\<exists>j k. mem_jobs r i = Some j \<and> job_State j = StateQueued
         \<and> (i, k) \<in> set (map (\<lambda>a. (a_JobID a, a_WorkerID a)) as) \<and> mem_jobs r' i = Some (assigned_job k j)))"
proof -
  have norm: "norm_job (\<lambda>t. t) (\<lambda>s. s) = (\<lambda>j. j)" by (simp add: fun_eq_iff)
  from mem_pass.apply_assignments_any [OF assms, unfolded norm] show ?thesis .
qed

theorem stale_plan_is_harmless_witness:
  "\<exists>result r' d'. apply_assignments memory_repository memory_decisions (Plan sample_jobs sample_cluster 0)
       zero_result (sample_store contending_jobs, NewMemoryDecisionRepository) = ((None, result), r', d')
     \<and> Assigned result + Conflicted result = 1"
proof -
  obtain e result r' d' where run: "apply_assignments memory_repository memory_decisions (Plan sample_jobs sample_cluster 0)
       zero_result (sample_store contending_jobs, NewMemoryDecisionRepository) = ((e, result), r', d')"
    by (metis prod.collapse)
  have ok: "mem_ok (sample_store contending_jobs)"
    by (rule sample_store_ok) (simp_all add: contending_jobs_def sample_job_def zero_job_def)
  from stale_plan_is_harmless [OF ok run] run show ?thesis by (simp add: sample_plan zero_result_def)
qed

end
