(* ===== verification/Scenarios.thy ===== *)
theory Scenarios
  imports Cluster Scheduler_Properties
begin

text \<open>
  Concrete runs of \<open>cluster_step\<close>, from the empty store on, on a cluster of one worker with one
  GPU: one scheduler at work, two at work at once, and a cancellation that is not yet confirmed.
\<close>

section \<open>The empty store and submissions\<close>

definition unit_input :: "int \<Rightarrow> SubmitInput" where
  "unit_input p = (sample_input [])\<lparr>in_Resources := sample_request 1 0 1 10, in_Priority := p\<rparr>"

definition unit_job :: "string \<Rightarrow> int \<Rightarrow> Job" where
  "unit_job k p = submitted_job k 0 (unit_input p)"

lemma valid_unit_input: "0 \<le> p \<Longrightarrow> p \<le> 100 \<Longrightarrow> valid_submit (unit_input p)"
  by (simp add: valid_submit_def unit_input_def sample_input_def sample_request_def TrimSpace_printable printable_def
      whole_def flip: fx_0)

lemma unit_job_fields [simp]:
  "job_ID (unit_job k p) = k" "job_State (unit_job k p) = StateQueued" "job_Priority (unit_job k p) = p"
  "job_Resources (unit_job k p) = sample_request 1 0 1 10" "job_CreatedAt (unit_job k p) = 0"
  "job_AssignedWorkerIDs (unit_job k p) = None" "job_SubmissionID (unit_job k p) = []"
  by (simp_all add: unit_job_def submitted_job_def unit_input_def sample_input_def)

lemma update_fresh: "k \<notin> fst ` set xs \<Longrightarrow> AList.update k v xs = xs @ [(k, v)]"
  by (induction xs) auto

lemma empty_store: "NewMemoryRepository = sample_store []"
  by (simp add: NewMemoryRepository_def sample_store_def)

lemma unit_submit:
  assumes "0 \<le> p" "p \<le> 100" "k \<notin> job_ID ` set js"
  shows "Submit memory_repository k 0 (unit_input p) (sample_store js) =
    (Inr (unit_job k p), sample_store (js @ [unit_job k p]))"
proof -
  have "ValidateSubmit (unit_input p) = None"
    by (simp add: ValidateSubmit_None valid_unit_input [OF assms(1,2)])
  moreover have "in_SubmissionID (unit_input p) = []" by (simp add: unit_input_def sample_input_def)
  moreover have "k \<notin> fst ` set (map (\<lambda>j. (job_ID j, j)) js)" using assms(3) by auto
  ultimately show ?thesis
    by (simp add: Submit_def Let_def mem_Create_def sample_store_def unit_job_def submitted_job_def update_fresh)
qed

lemma unit_ranges: "0 \<le> p \<Longrightarrow> p \<le> 100 \<Longrightarrow> submit_ranges (unit_input p)"
  by (simp add: submit_ranges_def unit_input_def sample_input_def sample_request_def resource_ranges_def
      in_u32_def in_i32_def in_i64_def)

text \<open>Requests of the Go types that passed validation.\<close>

definition typed_request :: "ResourceRequest \<Rightarrow> bool" where
  "typed_request q \<longleftrightarrow> mem_request q \<and> gpu_request q"

lemma unit_requests: "typed_request (in_Resources (unit_input p))" "cpu_request (in_Resources (unit_input p))"
  by (simp_all add: typed_request_def sound_defs unit_input_def sample_request_def whole_def exact_cpu_fx)

abbreviation cluster_run :: "(ResourceRequest \<Rightarrow> bool) \<Rightarrow> Worker list \<Rightarrow> nat \<Rightarrow> MemoryRepository \<Rightarrow> (nat \<Rightarrow> Assignment list) \<Rightarrow> bool" where
  "cluster_run good fleet n r pend \<equiv>
     (cluster_step memory_repository good fleet n)\<^sup>*\<^sup>* (NewMemoryRepository, \<lambda>_. []) (r, pend)"

lemma run_start: "cluster_run good fleet n (sample_store []) (\<lambda>_. [])"
  by (simp add: empty_store)

lemma run_submit:
  assumes "cluster_run good fleet n (sample_store js) pend" "0 \<le> p" "p \<le> 100" "k \<notin> job_ID ` set js"
    "good (in_Resources (unit_input p))"
  shows "cluster_run good fleet n (sample_store (js @ [unit_job k p])) pend"
proof -
  have "map_of (map (\<lambda>j. (job_ID j, j)) js) k = None"
    using assms(4) by (simp add: map_of_eq_None_iff image_image)
  then have "repo_Get memory_repository k (sample_store js) = Inl Jobs_ErrNotFound"
    by (simp add: mem_Get_def sample_store_def)
  with assms show ?thesis
    by (meson cluster_step.cl_submit unit_ranges unit_submit rtranclp.rtrancl_into_rtrancl)
qed

lemma run_plan:
  assumes "cluster_run good fleet n (sample_store js) pend" "s < n" "pend s = []" "distinct (map w_ID fleet)"
    "mem_ListActive (sample_store js) = Inr active" "Plan active fleet 0 = as"
  shows "cluster_run good fleet n (sample_store js) (pend(s := as))"
proof -
  have "\<forall>u \<in> set fleet. \<exists>v \<in> set fleet. same_capacity u v" by (auto simp: same_capacity_def)
  with assms have "cluster_step memory_repository good fleet n (sample_store js, pend) (sample_store js, pend(s := as))"
    using cluster_step.cl_plan [of s n pend memory_repository "sample_store js" active fleet fleet good 0]
    by (simp add: ListActive_def)
  with assms(1) show ?thesis by (rule rtranclp.rtrancl_into_rtrancl)
qed

lemma run_assign:
  assumes "cluster_run good fleet n (sample_store js) pend" "s < n" "pend s = a # as"
    "AssignToWorkers memory_repository (a_JobID a) [a_WorkerID a] (sample_store js) = (x, sample_store js')"
  shows "cluster_run good fleet n (sample_store js') (pend(s := as))"
  using assms cluster_step.cl_assign by (meson rtranclp.rtrancl_into_rtrancl)

lemma run_call:
  assumes "cluster_run good fleet n (sample_store js) pend" "\<not> is_assign f"
    "job_call memory_repository f k (sample_store js) = (x, sample_store js')"
  shows "cluster_run good fleet n (sample_store js') pend"
  using assms cluster_step.cl_call by (meson rtranclp.rtrancl_into_rtrancl)

section \<open>One worker with one GPU\<close>

lemma full_worker_ids: "distinct (map w_ID full_worker)"
  by (simp add: full_worker_def)

definition assign_to_w :: "string \<Rightarrow> Assignment" where
  "assign_to_w k = \<lparr>a_JobID = k, a_WorkerID = ''w'', a_Reason = ''eligible worker found''\<rparr>"

lemma unit_plans:
  "Plan [unit_job ''a'' 1] full_worker 0 = [assign_to_w ''a'']"
  "Plan [unit_job ''b'' 2, unit_job ''a'' 1] full_worker 0 = [assign_to_w ''b'']"
  by (simp_all add: plan_eval sample_defs full_worker_def assign_to_w_def)

lemma unit_listings:
  "mem_ListActive (sample_store [unit_job ''a'' 1]) = Inr [unit_job ''a'' 1]"
  "mem_ListActive (sample_store [unit_job ''a'' 1, unit_job ''b'' 2]) = Inr [unit_job ''b'' 2, unit_job ''a'' 1]"
  by (simp_all add: mem_ListActive_def sample_store_def active_less_def)

abbreviation on_w :: "Job \<Rightarrow> Job" where
  "on_w \<equiv> assigned_job ''w''"

lemma on_w_id [simp]: "job_ID (on_w j) = job_ID j"
  by (simp add: assigned_job_def)

lemma assign_first:
  "job_State j = StateQueued \<Longrightarrow>
   AssignToWorkers memory_repository (job_ID j) [''w''] (sample_store (j # js)) = (Inr (on_w j), sample_store (on_w j # js))"
  by (simp add: AssignToWorkers_def mem_Update_def sample_store_def AssignToWorkers_fn_queued)

lemma assign_second:
  "job_State j = StateQueued \<Longrightarrow> job_ID i \<noteq> job_ID j \<Longrightarrow>
   AssignToWorkers memory_repository (job_ID j) [''w''] (sample_store (i # j # js)) = (Inr (on_w j), sample_store (i # on_w j # js))"
  by (simp add: AssignToWorkers_def mem_Update_def sample_store_def AssignToWorkers_fn_queued)

text \<open>One scheduler places the first job.\<close>

lemma one_scheduler_run:
  assumes "\<And>p. good (in_Resources (unit_input p))" "0 < n"
  shows "cluster_run good full_worker n (sample_store [on_w (unit_job ''a'' 1)]) (\<lambda>_. [])"
proof -
  have s: "cluster_run good full_worker n (sample_store [unit_job ''a'' 1]) (\<lambda>_. [])"
    using run_submit [OF run_start, of 1 "''a''"] assms(1) by simp
  note run_plan [OF this assms(2) refl full_worker_ids unit_listings(1) unit_plans(1)]
  from run_assign [OF this assms(2), where x = "Inr (on_w (unit_job ''a'' 1))"] assign_first [of "unit_job ''a'' 1" "[]"] show ?thesis
    by (simp add: assign_to_w_def fun_upd_idem)
qed

text \<open>Two schedulers that both read before either writes place two jobs on the one GPU.\<close>

lemma two_scheduler_run:
  assumes "\<And>p. good (in_Resources (unit_input p))"
  shows "\<exists>pend. cluster_run good full_worker 2
    (sample_store [on_w (unit_job ''a'' 1), on_w (unit_job ''b'' 2)]) pend"
proof -
  let ?a = "unit_job ''a'' 1" and ?b = "unit_job ''b'' 2"
  have "cluster_run good full_worker 2 (sample_store [?a]) (\<lambda>_. [])"
    using run_submit [OF run_start, of 1 "''a''"] assms by simp
  from run_plan [OF this _ refl full_worker_ids unit_listings(1) unit_plans(1), of 0]
  have "cluster_run good full_worker 2 (sample_store [?a]) ((\<lambda>_. [])(0 := [assign_to_w ''a'']))" by simp
  from run_submit [OF this, of 2 "''b''"] assms
  have "cluster_run good full_worker 2 (sample_store [?a, ?b]) ((\<lambda>_. [])(0 := [assign_to_w ''a'']))" by simp
  from run_plan [OF this _ _ full_worker_ids unit_listings(2) unit_plans(2), of 1]
  have "cluster_run good full_worker 2 (sample_store [?a, ?b])
    ((\<lambda>_. [])(0 := [assign_to_w ''a''], 1 := [assign_to_w ''b'']))" by simp
  from run_assign [OF this, of 0, where x = "Inr (on_w ?a)" and js' = "[on_w ?a, ?b]"] assign_first [of ?a "[?b]"]
  have "cluster_run good full_worker 2 (sample_store [on_w ?a, ?b])
    ((\<lambda>_. [])(0 := [assign_to_w ''a''], 1 := [assign_to_w ''b''], 0 := []))"
    by (simp add: assign_to_w_def)
  from run_assign [OF this, of 1, where x = "Inr (on_w ?b)" and js' = "[on_w ?a, on_w ?b]"] assign_second [of ?b "on_w ?a" "[]"]
  show ?thesis by (auto simp: assign_to_w_def)
qed

text \<open>A running job whose cancellation is requested still executes on its worker, but no longer counts
  against it: the next pass gives the same GPU to another job.\<close>

definition stopping_job :: Job where
  "stopping_job = (on_w (unit_job ''a'' 1))\<lparr>job_State := StateCancelRequested, job_StartedAt := Some 1\<rparr>"

lemma stopping_job_id [simp]: "job_ID stopping_job = ''a''" "job_State stopping_job = StateCancelRequested"
  by (simp_all add: stopping_job_def)

lemma stopping_calls:
  "job_call memory_repository (OpStart 1) ''a'' (sample_store [on_w (unit_job ''a'' 1)]) =
     (Inr ((on_w (unit_job ''a'' 1))\<lparr>job_State := StateRunning, job_StartedAt := Some 1\<rparr>),
      sample_store [(on_w (unit_job ''a'' 1))\<lparr>job_State := StateRunning, job_StartedAt := Some 1\<rparr>])"
  "job_call memory_repository (OpCancel 2) ''a''
      (sample_store [(on_w (unit_job ''a'' 1))\<lparr>job_State := StateRunning, job_StartedAt := Some 1\<rparr>]) =
     (Inr stopping_job, sample_store [stopping_job])"
  by (simp_all add: job_call_update mem_Update_def sample_store_def Start_fn_def Cancel_fn_def assigned_job_def stopping_job_def)

lemma stopping_listing: "mem_ListActive (sample_store [stopping_job, unit_job ''b'' 2]) = Inr [unit_job ''b'' 2, stopping_job]"
  by (simp add: mem_ListActive_def sample_store_def active_less_def stopping_job_def assigned_job_def)

lemma stopping_plan: "Plan [unit_job ''b'' 2, stopping_job] full_worker 0 = [assign_to_w ''b'']"
  by (simp add: plan_eval sample_defs full_worker_def assign_to_w_def)

lemma stopping_run:
  assumes "\<And>p. good (in_Resources (unit_input p))"
  shows "cluster_run good full_worker 1 (sample_store [stopping_job, on_w (unit_job ''b'' 2)]) (\<lambda>_. [])"
proof -
  let ?b = "unit_job ''b'' 2"
  have "cluster_run good full_worker 1 (sample_store [on_w (unit_job ''a'' 1)]) (\<lambda>_. [])"
    using one_scheduler_run assms by simp
  note run_call [OF this _ stopping_calls(1), simplified]
  note run_call [OF this _ stopping_calls(2), simplified]
  from run_submit [OF this, of 2 "''b''"] assms
  have "cluster_run good full_worker 1 (sample_store [stopping_job, ?b]) (\<lambda>_. [])" by simp
  from run_plan [OF this _ refl full_worker_ids stopping_listing stopping_plan, of 0]
  have "cluster_run good full_worker 1 (sample_store [stopping_job, ?b]) ((\<lambda>_. [])(0 := [assign_to_w ''b'']))" by simp
  from run_assign [OF this, of 0, where x = "Inr (on_w ?b)"] assign_second [of ?b stopping_job "[]"] show ?thesis
    by (simp add: assign_to_w_def fun_upd_idem)
qed

end
