(* ===== verification/Postgres_Properties.thy ===== *)
theory Postgres_Properties
  imports Postgres_Memory Postgres_History Scenarios
begin

text \<open>
  What the PostgreSQL job repository promises.  The hypothesis \<open>postgres pool tables_of\<close> says that the
  server executes the statements of the package as \<open>sql\<close> describes; \<open>plain_pool\<close> is one that does.
\<close>

lemma plain_postgres: "postgres plain_pool (\<lambda>d. d)"
  by (rule plain.postgres_axioms)

lemma empty_pg_ok [simp]: "pg_ok empty_tables"
  using pg_okI [of "[]" empty_tables] by (simp add: empty_tables_def good_jobs_def)

lemma empty_pg_jobs [simp]: "pg_jobs empty_tables = Map.empty"
  by (simp add: pg_jobs_def pg_list_def empty_tables_def)

section \<open>A database with one job\<close>

abbreviation db_job :: Job where
  "db_job \<equiv> submitted_job ''j1'' 7000 (sample_input ''s'')"

lemma db_job_storable: "storable db_job"
proof -
  have "job_ranges db_job" by (rule submitted_job_ranges [OF sample_input_ranges])
  moreover have "list_all fits (jobInsertArgs db_job)"
    by (simp add: jobInsertArgs_def submitted_job_def sample_input_def sample_request_def texts_arg_def
        nonNilStrings_def time_arg_def copy_slice_def fits_ascii fits_time_def in_i64_def i32_def)
  ultimately show ?thesis by (simp add: storable_def)
qed

lemma db_job_norm: "job_State (pg_norm db_job) = StateQueued" "job_ID (pg_norm db_job) = ''j1''"
  by simp_all

lemma db_submission:
  obtains d where "Submit (NewJobRepository plain_pool) ''j1'' 7000 (sample_input ''s'') empty_tables = (Inr (pg_norm db_job), d)"
    "pg_ok d" "pg_jobs d = [''j1'' \<mapsto> pg_norm db_job]" "jobs_step (NewJobRepository plain_pool) empty_tables d"
    "pgj_Create plain_pool db_job empty_tables = (Inr (pg_norm db_job, True), d)"
proof -
  obtain x d where c: "pgj_Create plain_pool db_job empty_tables = (x, d)" by fastforce
  have e: "x = Inr (pg_norm db_job, True)" "pg_ok d" "pg_jobs d = [''j1'' \<mapsto> pg_norm db_job]"
    using plain.pgj_Create_new [OF _ db_job_storable _ _ c] by (simp_all add: submission_free_def)
  have v: "valid_submit (sample_input ''s'')" by (rule valid_sample_input) simp
  have s: "Submit (NewJobRepository plain_pool) ''j1'' 7000 (sample_input ''s'') empty_tables = (Inr (pg_norm db_job), d)"
    by (simp add: Submit_valid [OF v] c e(1))
  have "repo_Get (NewJobRepository plain_pool) ''j1'' empty_tables = Inl Jobs_ErrNotFound"
    using plain.pgj_Get_law [of empty_tables "''j1''"] by (simp add: fits_ascii)
  from that [OF s e(2,3) jobs_step.step_submit [OF this sample_input_ranges s]] c e(1) show ?thesis by simp
qed

section \<open>Contract\<close>



text \<open>C2.  On such a server the PostgreSQL repository keeps the contract of a job store, so what is
  proved of the services over every store holds of the database.\<close>

theorem database_keeps_contract:
  assumes "postgres pool tables_of"
  shows "job_store (NewJobRepository pool) (\<lambda>d. pg_jobs (tables_of d)) (\<lambda>d. pg_ok (tables_of d)) micros nonNilStrings"
  by (rule postgres.store_contract [OF assms])

theorem database_keeps_contract_witness:
  "job_store (NewJobRepository plain_pool) pg_jobs pg_ok micros nonNilStrings"
  by (rule database_keeps_contract [OF plain_postgres])



text \<open>C10.  In every run of the service over an empty database, the event log of each job is one
  \<^verbatim>\<open>SUBMITTED\<close> row followed by \<^verbatim>\<open>STATE_CHANGED\<close> rows that spell a path of the state diagram from QUEUED
  to the state stored in the jobs table, and no other job has events.\<close>

theorem database_event_log:
  assumes "postgres pool tables_of" "tables_of d0 = empty_tables" "(jobs_step (NewJobRepository pool))\<^sup>*\<^sup>* d0 d"
  shows "case pg_jobs (tables_of d) k of
      None \<Rightarrow> events_of k (tables_of d) = []
    | Some j \<Rightarrow> \<exists>ss. events_of k (tables_of d) = log_rows k ss \<and> state_path StateQueued ss
        \<and> last (StateQueued # ss) = job_State j"
proof -
  have "log_inv (tables_of d)" by (rule postgres.run_log [OF assms(1,3)]) (simp_all add: assms(2))
  then have "case pg_jobs (tables_of d) k of None \<Rightarrow> events_of k (tables_of d) = []
      | Some j \<Rightarrow> logged (tables_of d) k (job_State j)" unfolding log_inv_def by blast
  then show ?thesis by (simp only: logged_def)
qed

theorem database_event_log_witness:
  "\<exists>d ss. events_of ''j1'' d = log_rows ''j1'' ss \<and> last (StateQueued # ss) = StateQueued"
proof -
  obtain d where d: "pg_jobs d = [''j1'' \<mapsto> pg_norm db_job]" "jobs_step (NewJobRepository plain_pool) empty_tables d"
    using db_submission by metis
  have "(jobs_step (NewJobRepository plain_pool))\<^sup>*\<^sup>* empty_tables d" using d(2) by (rule r_into_rtranclp)
  from database_event_log [OF plain_postgres refl this, of "''j1''"] d(1)
  have "\<exists>ss. events_of ''j1'' d = log_rows ''j1'' ss \<and> state_path StateQueued ss \<and> last (StateQueued # ss) = StateQueued"
    by (simp only: fun_upd_same option.case db_job_norm)
  then show ?thesis by blast
qed

text \<open>One scheduler never overcommits the database either: in every interleaving of client calls
  and worker reports with the reads and single writes of one scheduler, whatever writes the database
  refuses, the memory and the GPUs held on a worker stay within what it has.\<close>

theorem database_never_overcommits:
  assumes "postgres pool tables_of" "tables_of d0 = empty_tables"
    "(cluster_step (NewJobRepository pool) typed_request fleet 1)\<^sup>*\<^sup>* (d0, \<lambda>_. []) (d, pend)"
    "distinct (map w_ID fleet)" "\<forall>v \<in> set fleet. mem_worker v \<and> gpu_worker v" "v \<in> set fleet"
  shows "demand_map MemoryBytes (w_ID v) (pg_jobs (tables_of d)) \<le> w_MemoryCapacityBytes v
    \<and> demand_map GPUCount (w_ID v) (pg_jobs (tables_of d)) \<le> int (length (elems (w_GPUs v)))"
proof -
  have run: "(cluster_step (NewJobRepository pool) mem_request fleet 1)\<^sup>*\<^sup>* (d0, \<lambda>_. []) (d, pend)"
    "(cluster_step (NewJobRepository pool) gpu_request fleet 1)\<^sup>*\<^sup>* (d0, \<lambda>_. []) (d, pend)"
    by (rule cluster_steps_mono [OF assms(3)], simp add: typed_request_def)+
  have start: "pg_ok (tables_of d0)" "pg_jobs (tables_of d0) = Map.empty" by (simp_all add: assms(2))
  from postgres.database_memory_safe [OF assms(1,4) _ run(1) start assms(6)]
    postgres.database_gpus_safe [OF assms(1,4) _ run(2) start assms(6)] assms(5)
  show ?thesis by blast
qed

theorem database_never_overcommits_witness:
  "\<exists>d. pg_jobs d = [''j1'' \<mapsto> pg_norm db_job] \<and> demand_map GPUCount ''w'' (pg_jobs d) \<le> 1"
proof -
  obtain d where d: "pg_jobs d = [''j1'' \<mapsto> pg_norm db_job]"
    "Submit (NewJobRepository plain_pool) ''j1'' 7000 (sample_input ''s'') empty_tables = (Inr (pg_norm db_job), d)"
    using db_submission by metis
  have "repo_Get (NewJobRepository plain_pool) ''j1'' empty_tables = Inl Jobs_ErrNotFound"
    using plain.pgj_Get_law [of empty_tables "''j1''"] by (simp add: fits_ascii)
  moreover have "typed_request (in_Resources (sample_input ''s''))"
    by (simp add: typed_request_def sound_defs sample_input_def sample_request_def)
  ultimately have "cluster_step (NewJobRepository plain_pool) typed_request full_worker 1 (empty_tables, \<lambda>_. []) (d, \<lambda>_. [])"
    using cluster_step.cl_submit sample_input_ranges d(2) by metis
  then have "(cluster_step (NewJobRepository plain_pool) typed_request full_worker 1)\<^sup>*\<^sup>* (empty_tables, \<lambda>_. []) (d, \<lambda>_. [])"
    by (rule r_into_rtranclp)
  from database_never_overcommits [OF plain_postgres refl this full_worker_ids, of "hd full_worker"] d(1)
  show ?thesis by (intro exI [of _ d]) (simp add: full_worker_def sample_worker_def sound_defs)
qed

section \<open>Rows and listings\<close>

text \<open>C36.  The row written for a job scans back to a job of the same Go types: the same one, with
  instants to the microsecond and empty instead of nil slices.\<close>

theorem job_row_roundtrip:
  assumes "storable j"
  shows "scanJob (map stored (jobInsertArgs j)) = Inr (pg_norm j) \<and> job_ranges (pg_norm j)"
  using scanJob_stored_row [OF assms] storable_norm [OF assms] by (simp add: stored_row_def storable_def)

theorem job_row_roundtrip_witness: "scanJob (map stored (jobInsertArgs db_job)) = Inr (pg_norm db_job)"
  using job_row_roundtrip [OF db_job_storable] by simp

text \<open>Page tokens of the database round-trip for every instant with a four-digit year.\<close>

theorem list_token_roundtrip:
  assumes "four_digit_year t"
  shows "decodeListToken (encodeListToken t k) = Inr (t, k)"
  by (rule decode_encodeListToken [OF assms])

theorem list_token_roundtrip_witness:
  "decodeListToken (encodeListToken 1700000000123456000 ''job-1'') = Inr (1700000000123456000, ''job-1'')"
  by (rule list_token_roundtrip) (simp add: four_digit_year_def year_yday_def unix_days_def Let_def)

text \<open>C32.  Following the page tokens of the database's \<^verbatim>\<open>List\<close> visits every matching job exactly once, in
  order, and ends, for every page size the client asks for.\<close>

theorem database_pages_complete:
  assumes "postgres pool tables_of" "pg_ok (tables_of d)"
    "\<forall>k j. pg_jobs (tables_of d) k = Some j \<longrightarrow> four_digit_year (job_CreatedAt j)"
  shows "\<exists>n xs. page_walk n (pg_fetch pool opts d) [] = Some xs
    \<and> set xs = {j. (\<exists>k. pg_jobs (tables_of d) k = Some j) \<and> (opt_StateFilter opts = StateZero \<or> job_State j = opt_StateFilter opts)}
    \<and> distinct (map job_ID xs) \<and> ordered_by created_less xs"
proof -
  let ?T = "tables_of d" let ?xs = "pg_listing (opt_StateFilter opts) (tables_of d)"
  have "four_digit_year (job_CreatedAt j)" if "j \<in> set (pg_list ?T)" for j
    using assms(2,3) that pg_jobs_Some [OF assms(2)] by blast
  then have walk: "page_walk (Suc (length ?xs)) (pg_fetch pool opts d) [] = Some ?xs"
    by (intro postgres.list_walk [OF assms(1,2)]) simp_all
  have "set ?xs = {j. (\<exists>k. pg_jobs ?T k = Some j) \<and> (opt_StateFilter opts = StateZero \<or> job_State j = opt_StateFilter opts)}"
    using pg_ok_values [OF assms(2)] by (auto simp: pg_listing_def)
  moreover have "distinct (map job_ID ?xs)"
    using assms(2) by (simp add: pg_listing_def distinct_map_filter pg_ok_def good_jobs_def)
  moreover have "ordered_by created_less ?xs" unfolding pg_listing_def by (rule created.ordered_sort)
  ultimately show ?thesis using walk by blast
qed

theorem database_pages_complete_witness:
  "\<exists>d n xs. page_walk n (pg_fetch plain_pool \<lparr>opt_PageSize = 1, opt_PageToken = [], opt_StateFilter = StateQueued\<rparr> d) [] = Some xs
     \<and> set xs = {pg_norm db_job}"
proof -
  obtain d where d: "pg_ok d" "pg_jobs d = [''j1'' \<mapsto> pg_norm db_job]" using db_submission by metis
  have "job_CreatedAt (pg_norm db_job) = 7000" by (simp add: norm_job_def submitted_job_def micros_def)
  moreover have "four_digit_year 7000" by (simp add: four_digit_year_def year_yday_def unix_days_def Let_def)
  ultimately have "\<forall>k j. pg_jobs d k = Some j \<longrightarrow> four_digit_year (job_CreatedAt j)" by (simp add: d(2))
  note walk = database_pages_complete [OF plain_postgres d(1) this, of "\<lparr>opt_PageSize = 1, opt_PageToken = [], opt_StateFilter = StateQueued\<rparr>"]
  have "{j. (\<exists>k. pg_jobs d k = Some j) \<and> job_State j = StateQueued} = {pg_norm db_job}"
    by (auto simp: d(2) split: if_splits)
  with walk show ?thesis by simp blast
qed

end
