(* ===== verification/Process_Properties.thy ===== *)
theory Process_Properties
  imports Scheduler_Process Election Http Postgres_Properties
begin

text \<open>
  What the processes around the services promise: configuration, startup, the scheduling loop of a
  leader, the election between schedulers, and the HTTP endpoints.
\<close>

section \<open>Configuration\<close>

lemma empty_env_config: "env_config (\<lambda>_. None) n 5 False = Defaults n"
  by (simp add: env_config_def env_value_def value_or_def Defaults_def)

text \<open>C33.  Loading decides: it succeeds exactly when the interval and the preemption switch parse and
  the configuration the environment asks for, each variable over its default, is well-formed, and that
  configuration is the result.  With an empty environment it always succeeds with the defaults.\<close>

theorem Load_decides:
  "(Load q env n = Inr c \<longleftrightarrow>
     (\<exists>i b. interval_of (env_value env ''ORIONQUEUE_SCHEDULING_INTERVAL_SECONDS'') = Some i
        \<and> preemption_of (env_value env ''ORIONQUEUE_PREEMPTION_ENABLED'') = Some b
        \<and> c = env_config env n i b \<and> valid_config c))
   \<and> Load q (\<lambda>_. None) n = Inr (Defaults n)"
proof (rule conjI [OF Load_iff])
  show "Load q (\<lambda>_. None) n = Inr (Defaults n)"
    unfolding Load_iff empty_env_config [symmetric]
    using defaults_valid [of n]
    by (intro exI [of _ 5] exI [of _ False])
      (simp add: empty_env_config, simp add: env_value_def interval_of_def preemption_of_def)
qed

definition interval_env :: "string \<Rightarrow> string \<Rightarrow> string option" where
  "interval_env v name = (if name = ''ORIONQUEUE_SCHEDULING_INTERVAL_SECONDS'' then Some v else None)"

lemma interval_env_values:
  assumes "v \<noteq> []"
  shows "env_value (interval_env v) ''ORIONQUEUE_SCHEDULING_INTERVAL_SECONDS'' = Some v"
    "env_value (interval_env v) ''ORIONQUEUE_PREEMPTION_ENABLED'' = None"
    "env_config (interval_env v) n i False = (Defaults n)\<lparr>cfg_SchedulingIntervalSeconds := i\<rparr>"
  using assms by (simp_all add: env_value_def interval_env_def env_config_def value_or_def Defaults_def)

lemma interval_accepted:
  assumes "0 < i" "in_i64 i"
  shows "Load q (interval_env (itoa i)) ''orionqueue-scheduler'' =
    Inr ((Defaults ''orionqueue-scheduler'')\<lparr>cfg_SchedulingIntervalSeconds := i\<rparr>)"
proof -
  have "itoa i \<noteq> []" by (simp add: itoa_def)
  note v = interval_env_values [OF this]
  have "valid_config ((Defaults ''orionqueue-scheduler'')\<lparr>cfg_SchedulingIntervalSeconds := i\<rparr>)"
    using defaults_valid [of "''orionqueue-scheduler''"] assms(1) by (simp add: valid_config_def)
  then show ?thesis
    unfolding Load_iff
    by (intro exI [of _ i] exI [of _ False])
      (simp add: v interval_of_def preemption_of_def ParseInt_itoa [OF assms(2)])
qed

text \<open>C37.  Up to 9223372036 seconds a loaded interval is the ticker's interval and the loop never
  panics; from 9223372037 seconds, an accepted value, the product with a second wraps around and the
  ticker panics after the first pass.\<close>

theorem scheduling_interval_bound:
  "(\<forall>env cfg. Load q env ''orionqueue-scheduler'' = Inr cfg \<longrightarrow> cfg_SchedulingIntervalSeconds cfg \<le> 9223372036 \<longrightarrow>
      serve_interval cfg = cfg_SchedulingIntervalSeconds cfg * Second
      \<and> fst (runSchedulingLoop repo wrepo drepo p clock (serve_interval cfg) es s) \<noteq> LoopPanicked)
   \<and> (\<exists>env cfg. Load q env ''orionqueue-scheduler'' = Inr cfg \<and> cfg_SchedulingIntervalSeconds cfg = 9223372037
      \<and> fst (runSchedulingLoop repo wrepo drepo p clock (serve_interval cfg) es s) = LoopPanicked)"
proof (intro conjI allI impI)
  fix env cfg
  assume l: "Load q env ''orionqueue-scheduler'' = Inr cfg" "cfg_SchedulingIntervalSeconds cfg \<le> 9223372036"
  have pos: "0 < cfg_SchedulingIntervalSeconds cfg"
    using l(1) by (auto simp: Load_iff valid_config_def env_config_def)
  with l(2) have "in_i64 (cfg_SchedulingIntervalSeconds cfg)" by (simp add: in_i64_def)
  from serve_interval_exact [OF this pos l(2)] pos
  show "serve_interval cfg = cfg_SchedulingIntervalSeconds cfg * Second"
    "fst (runSchedulingLoop repo wrepo drepo p clock (serve_interval cfg) es s) \<noteq> LoopPanicked"
    by (simp_all add: loop_end Second_def)
next
  let ?cfg = "(Defaults ''orionqueue-scheduler'')\<lparr>cfg_SchedulingIntervalSeconds := 9223372037\<rparr>"
  have "Load q (interval_env (itoa 9223372037)) ''orionqueue-scheduler'' = Inr ?cfg"
    by (rule interval_accepted) (simp_all add: in_i64_def)
  moreover have "serve_interval ?cfg \<le> 0" by (simp add: serve_interval_def Second_def i64_def)
  ultimately show "\<exists>env cfg. Load q env ''orionqueue-scheduler'' = Inr cfg \<and> cfg_SchedulingIntervalSeconds cfg = 9223372037
      \<and> fst (runSchedulingLoop repo wrepo drepo p clock (serve_interval cfg) es s) = LoopPanicked"
    by (intro exI [of _ "interval_env (itoa 9223372037)"] exI [of _ ?cfg]) (simp add: loop_end)
qed

theorem scheduling_interval_bound_witness:
  "serve_interval (Defaults ''orionqueue-scheduler'') = 5 * Second"
proof -
  have "Load (\<lambda>s. s) (interval_env (itoa 5)) ''orionqueue-scheduler'' = Inr (Defaults ''orionqueue-scheduler'')"
    using interval_accepted [of 5 "\<lambda>s. s"] by (simp add: in_i64_def Defaults_def)
  with scheduling_interval_bound [of "\<lambda>s. s" memory_repository worker_memory_repository memory_decisions]
  have "cfg_SchedulingIntervalSeconds (Defaults ''orionqueue-scheduler'') \<le> 9223372036 \<longrightarrow>
      serve_interval (Defaults ''orionqueue-scheduler'') =
        cfg_SchedulingIntervalSeconds (Defaults ''orionqueue-scheduler'') * Second" by blast
  then show ?thesis by (simp add: Defaults_def)
qed

section \<open>The scheduling loop\<close>



section \<open>Election\<close>

text \<open>C8.  Of all candidates running the election, at most one runs its scheduling loop with a session
  that etcd still counts as alive; and a candidate gives its session up, by closing it or resigning, only
  after its loop has returned.\<close>

theorem leaders_exclusive:
  assumes "election_service etcd_step seen live elected" "live e0 \<subseteq> seen e0" "elected e0 = {}"
    "(election_step etcd_step)\<^sup>*\<^sup>* (e0, \<lambda>_. new_candidate) (e, cs)"
  shows "(\<forall>i j s t. leader_running (cs i) \<and> session_of (phase (cs i)) = Some s \<and> s \<in> live e
          \<and> leader_running (cs j) \<and> session_of (phase (cs j)) = Some t \<and> t \<in> live e \<longrightarrow> i = j)
    \<and> (\<forall>i as c s. run_step (cs i) as c \<and> (Resigned s \<in> set as \<or> Closed s \<in> set as) \<longrightarrow> \<not> leader_running (cs i))"
proof -
  note inv = election_service.election_run_inv [OF assms(1,4,2,3)]
  show ?thesis
    using election_service.one_live_leader [OF assms(1) inv] election_service.inv_stops_first [OF assms(1) inv] by blast
qed

definition leading :: "session \<Rightarrow> candidate" where
  "leading s = notify ''leader'' (notify ''campaigning'' new_candidate\<lparr>phase := Leading s, leader_running := True\<rparr>)"

lemma becomes_leader:
  assumes "cs i = new_candidate" "h \<subseteq> {}"
  shows "(election_step plain_etcd)\<^sup>*\<^sup>* ((n, l, h), cs) ((Suc n, insert n l, {n}), cs(i := leading n))"
proof -
  let ?c = "notify ''campaigning'' (new_candidate\<lparr>phase := Campaigning n\<rparr>)"
  have "election_step plain_etcd ((n, l, h), cs) ((Suc n, insert n l, h), cs(i := ?c))"
    by (rule es_candidate [where as = "[Opened n]"])
      (use session_opened [of new_candidate n] assms(1) in \<open>simp_all add: new_candidate_def\<close>)
  moreover have "election_step plain_etcd ((Suc n, insert n l, h), cs(i := ?c)) ((Suc n, insert n l, {n}), cs(i := ?c, i := leading n))"
    by (rule es_candidate [where as = "[Elected n]"])
      (use campaign_won [of ?c n] assms(2) in \<open>simp_all add: leading_def notify_def new_candidate_def\<close>)
  ultimately show ?thesis by (simp add: converse_rtranclp_into_rtranclp)
qed

theorem leaders_exclusive_witness:
  "\<exists>e cs. (election_step plain_etcd)\<^sup>*\<^sup>* ((0, {}, {}), \<lambda>_. new_candidate) (e, cs) \<and> leader_running (cs 0)
     \<and> (\<forall>j s. leader_running (cs j) \<and> session_of (phase (cs j)) = Some s \<and> s \<in> fst (snd e) \<longrightarrow> j = 0)"
proof -
  have run: "(election_step plain_etcd)\<^sup>*\<^sup>* ((0, {}, {}), \<lambda>_. new_candidate) ((1, {0}, {0}), (\<lambda>_. new_candidate)(0 := leading 0))"
    using becomes_leader [of "\<lambda>_. new_candidate" 0 "{}" 0 "{}"] by simp
  have start: "(case (0, {}, {}) of (n, l, h) \<Rightarrow> l) \<subseteq> (case (0, {}, {}) of (n, l, h) \<Rightarrow> {..<n})"
    "(case (0, {}, {}) of (n, l, h) \<Rightarrow> h) = {}" by simp_all
  let ?cs = "(\<lambda>_. new_candidate)(0 := leading 0) :: nat \<Rightarrow> candidate"
  have lead: "leader_running (?cs 0)" "session_of (phase (?cs 0)) = Some 0" by (simp_all add: leading_def notify_def)
  have "\<forall>i j s t. leader_running (?cs i) \<and> session_of (phase (?cs i)) = Some s \<and> s \<in> {0}
      \<and> leader_running (?cs j) \<and> session_of (phase (?cs j)) = Some t \<and> t \<in> {0} \<longrightarrow> i = j"
    using leaders_exclusive [OF plain_election.election_service_axioms start run, THEN conjunct1, unfolded prod.case] .
  then have "\<forall>j s. leader_running (?cs j) \<and> session_of (phase (?cs j)) = Some s \<and> s \<in> {0} \<longrightarrow> j = 0"
    using lead by blast
  with run lead(1) show ?thesis
    by (intro exI [of _ "(1, {0}, {0})"] exI [of _ ?cs]) (simp only: fst_conv snd_conv simp_thms)
qed

text \<open>C39.  The lease is not a lock: a scheduler whose session has run out on the server keeps running
  its loop until it notices, while another has already been elected and runs its own.\<close>

theorem leaders_can_overlap:
  "\<exists>e cs. (election_step plain_etcd)\<^sup>*\<^sup>* ((0, {}, {}), \<lambda>_. new_candidate) (e, cs)
     \<and> leader_running (cs 0) \<and> \<not> leader_cancelled (cs 0) \<and> leader_running (cs 1) \<and> \<not> leader_cancelled (cs 1)"
proof -
  let ?cs = "(\<lambda>_. new_candidate)(0 := leading 0)"
  have "(election_step plain_etcd)\<^sup>*\<^sup>* ((0, {}, {}), \<lambda>_. new_candidate) ((1, {0}, {0}), ?cs)"
    using becomes_leader [of "\<lambda>_. new_candidate" 0 "{}" 0 "{}"] by simp
  moreover have "election_step plain_etcd ((1, {0}, {0}), ?cs) ((1, {}, {}), ?cs)"
    by (rule es_expire [where s = 0]) simp
  moreover have "(election_step plain_etcd)\<^sup>*\<^sup>* ((1, {}, {}), ?cs) ((2, {1}, {1}), ?cs(1 := leading 1))"
    using becomes_leader [of ?cs 1 "{}" 1 "{}"] by (simp add: numeral_2_eq_2)
  ultimately have "(election_step plain_etcd)\<^sup>*\<^sup>* ((0, {}, {}), \<lambda>_. new_candidate) ((2, {1}, {1}), ?cs(1 := leading 1))"
    by (meson rtranclp.rtrancl_into_rtrancl rtranclp_trans)
  then show ?thesis
    by (intro exI [of _ "(2, {1}, {1})"] exI [of _ "?cs(1 := leading 1)"])
      (simp add: leading_def notify_def new_candidate_def)
qed

section \<open>Startup\<close>

lemma Connect_spec:
  assumes "Connect None ping ctx = (x, acts)"
  shows "(x = None \<longleftrightarrow> (\<exists>k. reached 10 ping ctx 1 k)) \<and> length (probes acts) \<le> 10 \<and> slept acts \<le> 13500000000
    \<and> (ClosePool \<in> set acts \<longleftrightarrow> x \<noteq> None)"
proof -
  obtain y as where l: "probe_loop ''persistence: database'' connectMaxAttempts connectBaseDelay ping ctx 1 = (y, as)" by fastforce
  have spec: "(y = None \<longleftrightarrow> (\<exists>k. reached 10 ping ctx 1 k))
    \<and> (\<exists>n. 1 \<le> n \<and> n \<le> 10 \<and> probes as = [1..<Suc n] \<and> slept as = 300000000 * int (sum_list [1..<n]))
    \<and> set as \<subseteq> range Probe \<union> range Sleep"
    using probe_loop_spec [OF l] by (simp add: connectMaxAttempts_def connectBaseDelay_def)
  have out: "x = y" "acts = (if y = None then as else as @ [ClosePool])"
    using assms l by (auto simp: Connect_def split: option.splits)
  obtain n where n: "1 \<le> n" "n \<le> 10" "probes as = [1..<Suc n]" "slept as = 300000000 * int (sum_list [1..<n])"
    using spec by blast
  have "sum_list [1..<n] \<le> 45"
  proof -
    have "sum_list [1..<n] = \<Sum> {1..<n}" using sum_list_distinct_conv_sum_set [of "[1..<n]" "\<lambda>i. i"] by simp
    also have "\<dots> \<le> \<Sum> {1..<10::nat}" using n(2) by (intro sum_mono2) auto
    also have "\<dots> = 45" by (simp add: numeral_eq_Suc)
    finally show ?thesis .
  qed
  then have "slept acts \<le> 13500000000" using n(4) by (simp add: out)
  moreover have "length (probes acts) \<le> 10" using n(1-3) by (simp add: out)
  moreover have "ClosePool \<notin> set as" using spec by auto
  ultimately show ?thesis using spec out by auto
qed

text \<open>Startup waits for the database no longer than it says: at most ten probes and 13.5 seconds
  of waiting, success exactly if one of the ten succeeds before the context ends, and the pool is closed
  exactly when the database was not reached.\<close>

theorem Connect_bounded:
  assumes "Connect None ping ctx = (x, acts)"
  shows "(x = None \<longleftrightarrow> (\<exists>k \<in> {1..10}. ping k = None \<and> (\<forall>i \<in> {1..<k}. ping i \<noteq> None \<and> ctx i = None)))
    \<and> length (probes acts) \<le> 10 \<and> slept acts \<le> 13500000000 \<and> (ClosePool \<in> set acts \<longleftrightarrow> x \<noteq> None)"
proof -
  have "(\<exists>k. reached 10 ping ctx 1 k) \<longleftrightarrow> (\<exists>k \<in> {1..10}. ping k = None \<and> (\<forall>i \<in> {1..<k}. ping i \<noteq> None \<and> ctx i = None))"
    unfolding reached_def by (simp add: Bex_def Ball_def) blast
  with Connect_spec [OF assms] show ?thesis by blast
qed

theorem Connect_bounded_witness:
  "\<exists>acts. Connect None (\<lambda>i. if i < 3 then Some (Plain ''refused'') else None) never = (None, acts) \<and> length (probes acts) \<le> 10"
proof -
  obtain x acts where c: "Connect None (\<lambda>i. if i < 3 then Some (Plain ''refused'') else None) never = (x, acts)" by fastforce
  have "x = None \<and> length (probes acts) \<le> 10"
    using Connect_bounded [OF c] by (auto simp: never_def intro!: bexI [of _ 3])
  with c show ?thesis by simp
qed

section \<open>HTTP\<close>

text \<open>Every answer of the API server carries a request identifier, the caller's own if it sent one;
  the handler sees the same identifier in its context and the log line repeats it with the status that
  was sent.  The health route answers 200, and the readiness route 200 exactly when the database and
  etcd answered.\<close>

theorem request_ids:
  assumes "newID \<noteq> []" "\<And>r. orderly (gateway r)" "\<And>r v. SetHeader RequestIDHeader v \<notin> set (gateway r)"
    "api_handler newID duration (Ready ping get) gateway r = (acts, line)"
  shows "\<exists>ident. ident \<noteq> [] \<and> (\<forall>v. rq_Header r RequestIDHeader = Some v \<longrightarrow> v \<noteq> [] \<longrightarrow> ident = v)
    \<and> (rq_Path r \<notin> {''/healthz'', ''/readyz''} \<longrightarrow>
         acts = SetHeader RequestIDHeader ident # gateway (r\<lparr>rq_RequestID := Some ident\<rparr>))
    \<and> RequestIDFromContext (r\<lparr>rq_RequestID := Some ident\<rparr>) = ident
    \<and> rs_header (respond acts) RequestIDHeader = Some ident
    \<and> map_of (snd line) ''request_id'' = Some ident
    \<and> map_of (snd line) ''status'' = Some (itoa (rs_status (respond acts)))
    \<and> (rq_Path r = ''/healthz'' \<longrightarrow> rs_status (respond acts) = 200)
    \<and> (rq_Path r = ''/readyz'' \<longrightarrow> rs_status (respond acts) = (if ping = None \<and> get = None then 200 else 503))"
proof -
  have run: "WithRequestID newID duration (RegisterRoutes (Ready ping get) gateway) r = (acts, line)"
    using assms(4) by (simp add: api_handler_def WithAuthPlaceholder_def)
  note ids = RequestID_kept [OF run assms(1) health_orderly(2,1) [OF assms(2,3)]]
  then obtain ident where i: "acts = SetHeader RequestIDHeader ident # RegisterRoutes (Ready ping get) gateway (r\<lparr>rq_RequestID := Some ident\<rparr>)"
    and rest: "ident \<noteq> [] \<and> (\<forall>v. rq_Header r RequestIDHeader = Some v \<longrightarrow> v \<noteq> [] \<longrightarrow> ident = v)
      \<and> RequestIDFromContext (r\<lparr>rq_RequestID := Some ident\<rparr>) = ident
      \<and> rs_header (respond acts) RequestIDHeader = Some ident \<and> map_of (snd line) ''request_id'' = Some ident
      \<and> map_of (snd line) ''status'' = Some (itoa (rs_status (respond acts)))"
    by blast
  have "Ready ping get = None \<longleftrightarrow> ping = None \<and> get = None" by (auto simp: Ready_def split: option.splits)
  then have "rq_Path r = ''/healthz'' \<longrightarrow> rs_status (respond acts) = 200"
    "rq_Path r = ''/readyz'' \<longrightarrow> rs_status (respond acts) = (if ping = None \<and> get = None then 200 else 503)"
    "rq_Path r \<notin> {''/healthz'', ''/readyz''} \<longrightarrow> acts = SetHeader RequestIDHeader ident # gateway (r\<lparr>rq_RequestID := Some ident\<rparr>)"
    unfolding i by (auto simp: RegisterRoutes_def respond_def writeJSON_def StatusOK_def StatusServiceUnavailable_def split: option.splits)
  with rest show ?thesis by blast
qed

theorem request_ids_witness:
  "\<exists>acts line. api_handler ''n'' ''1ms'' (Ready None None) (\<lambda>_. [])
       \<lparr>rq_Method = ''GET'', rq_Path = ''/readyz'', rq_Header = (\<lambda>_. Some ''mine''), rq_RequestID = None\<rparr> = (acts, line)
     \<and> rs_header (respond acts) RequestIDHeader = Some ''mine'' \<and> rs_status (respond acts) = 200"
proof -
  let ?r = "\<lparr>rq_Method = ''GET'', rq_Path = ''/readyz'', rq_Header = (\<lambda>_. Some ''mine''), rq_RequestID = None\<rparr>"
  obtain acts line where a: "api_handler ''n'' ''1ms'' (Ready None None) (\<lambda>_. []) ?r = (acts, line)"
    by (rule prod.exhaust)
  from request_ids [OF _ _ _ a] obtain ident where "ident = ''mine''" "rs_header (respond acts) RequestIDHeader = Some ident"
    "rs_status (respond acts) = 200" by auto
  with a show ?thesis by blast
qed

end
