(* ===== verification/Python_Values.thy ===== *)
theory Python_Values
  imports Page_Token Float64
begin

text \<open>
  What the worker agent uses of Python: \<^verbatim>\<open>str.strip\<close> and \<^verbatim>\<open>str.lower\<close>, \<^verbatim>\<open>int()\<close> and \<^verbatim>\<open>float()\<close> of a text, and
  exceptions.  Texts are ASCII; Python also takes digits and white space of other scripts.  \<^verbatim>\<open>repr\<close> of a
  text and \<^verbatim>\<open>str\<close> of a float, which show in messages only, are arguments of the definitions that use them.
\<close>

datatype py_exc = ValueError string | OverflowError string

type_synonym 'a py = "py_exc + 'a"

definition py_space :: "char \<Rightarrow> bool" where
  "py_space c \<longleftrightarrow> (let n = (of_char c :: nat) in (9 \<le> n \<and> n \<le> 13) \<or> (28 \<le> n \<and> n \<le> 32))"

definition py_strip :: "string \<Rightarrow> string" where
  "py_strip s = rev (dropWhile py_space (rev (dropWhile py_space s)))"

definition py_lower_char :: "char \<Rightarrow> char" where
  "py_lower_char c = (let n = (of_char c :: nat) in if 65 \<le> n \<and> n \<le> 90 then char_of (n + 32) else c)"

definition py_lower :: "string \<Rightarrow> string" where
  "py_lower s = map py_lower_char s"

section \<open>Numbers\<close>

text \<open>Digits with single underscores between them, the underscores left out.\<close>

fun py_digits :: "string \<Rightarrow> string option" where
  "py_digits [] = None"
| "py_digits [c] = (if digit_val c = None then None else Some [c])"
| "py_digits (c # d # cs) =
     (if digit_val c = None then None
      else map_option ((#) c) (py_digits (if d = CHR ''_'' then cs else d # cs)))"

definition py_sign :: "string \<Rightarrow> bool \<times> string" where
  "py_sign s = (case s of c # cs \<Rightarrow> if c = CHR ''-'' then (True, cs) else if c = CHR ''+'' then (False, cs) else (False, s)
     | [] \<Rightarrow> (False, s))"

definition py_nat :: "string \<Rightarrow> nat" where
  "py_nat ds = (case parse_digits ds 0 of None \<Rightarrow> 0 | Some n \<Rightarrow> n)"

text \<open>\<^verbatim>\<open>int(s)\<close>: None where it raises \<^verbatim>\<open>ValueError\<close>, which it also does beyond 4300 digits.\<close>

definition py_int :: "string \<Rightarrow> int option" where
  "py_int s =
     (case py_sign (py_strip s) of (neg, body) \<Rightarrow>
        (case py_digits body of
           None \<Rightarrow> None
         | Some ds \<Rightarrow>
             if length ds > 4300 then None else Some (if neg then - int (py_nat ds) else int (py_nat ds))))"

text \<open>The double nearest to \<open>n / d\<close> units, ties to even.\<close>

definition f_ratio :: "int \<Rightarrow> int \<Rightarrow> float64" where
  "f_ratio n d =
     (let k = excess_bits (n div d); u = d * 2 ^ k; q = n div u; r = n mod u;
          m = (if 2 * r < u \<or> (2 * r = u \<and> even q) then q * 2 ^ k else (q + 1) * 2 ^ k)
      in if m \<ge> overflow_at then PInf else Fin m)"

definition f_decimal :: "nat \<Rightarrow> int \<Rightarrow> float64" where
  "f_decimal m e =
     (if e \<ge> 0 then f_ratio (int m * 10 ^ nat e * 2 ^ 1074) 1 else f_ratio (int m * 2 ^ 1074) (10 ^ nat (- e)))"

text \<open>A group of digits that may be empty.\<close>

definition py_group :: "string \<Rightarrow> string option" where
  "py_group s = (if s = [] then Some [] else py_digits s)"

definition split_at :: "(char \<Rightarrow> bool) \<Rightarrow> string \<Rightarrow> string \<times> string option" where
  "split_at P s =
     (case dropWhile (\<lambda>c. \<not> P c) s of [] \<Rightarrow> (s, None) | _ # rest \<Rightarrow> (takeWhile (\<lambda>c. \<not> P c) s, Some rest))"

definition py_mantissa :: "string \<Rightarrow> (nat \<times> int) option" where
  "py_mantissa s =
     (case split_at (\<lambda>c. c = CHR ''.'') s of (ip, fp) \<Rightarrow>
        (case (py_group ip, py_group (case fp of None \<Rightarrow> [] | Some f \<Rightarrow> f)) of
           (Some a, Some b) \<Rightarrow> if a @ b = [] then None else Some (py_nat (a @ b), - int (length b))
         | _ \<Rightarrow> None))"

definition py_exponent :: "string option \<Rightarrow> int option" where
  "py_exponent s =
     (case s of
        None \<Rightarrow> Some 0
      | Some s \<Rightarrow>
          (case py_sign s of (neg, body) \<Rightarrow>
             map_option (\<lambda>ds. if neg then - int (py_nat ds) else int (py_nat ds)) (py_digits body)))"

text \<open>\<^verbatim>\<open>float(s)\<close>.\<close>

definition py_float :: "string \<Rightarrow> float64 option" where
  "py_float s =
     (case py_sign (py_strip s) of (neg, body) \<Rightarrow>
        map_option (\<lambda>x. if neg then f_neg x else x)
          (if py_lower body \<in> {''inf'', ''infinity''} then Some PInf
           else if py_lower body = ''nan'' then Some NaN
           else case split_at (\<lambda>c. c = CHR ''e'' \<or> c = CHR ''E'') body of (mant, ex) \<Rightarrow>
             (case (py_mantissa mant, py_exponent ex) of
                (Some (m, e), Some x) \<Rightarrow> Some (f_decimal m (e + x))
              | _ \<Rightarrow> None)))"

lemma py_digits_nat_digits: "list_all (\<lambda>c. digit_val c \<noteq> None) ds \<Longrightarrow> ds \<noteq> [] \<Longrightarrow> py_digits ds = Some ds"
proof (induction ds rule: py_digits.induct)
  case (3 c d cs)
  then have "d \<noteq> CHR ''_''" by (auto simp: digit_val_def Let_def)
  with 3 show ?case by simp
qed simp_all

lemma digit_vals: "list_all (\<lambda>c. digit_val c \<noteq> None) (nat_digits n)"
proof (induction n rule: nat_digits.induct)
  case (1 n)
  then show ?case by (cases "n < 10") (simp_all add: nat_digits.simps [of n])
qed

lemma py_strip_digits: "list_all (\<lambda>c. \<not> py_space c) s \<Longrightarrow> py_strip s = s"
proof -
  assume "list_all (\<lambda>c. \<not> py_space c) s"
  then have "dropWhile py_space s = s" "dropWhile py_space (rev s) = rev s"
    by (auto simp: dropWhile_eq_self_iff list_all_iff hd_in_set)
      (metis hd_in_set rev_is_Nil_conv set_rev)
  then show ?thesis by (simp add: py_strip_def)
qed

text \<open>A decimal literal reads back as the number it spells.\<close>

lemma py_int_nat_digits:
  assumes "length (nat_digits n) \<le> 4300"
  shows "py_int (nat_digits n) = Some (int n)"
proof -
  have "\<not> py_space c" if "digit_val c \<noteq> None" for c
    using that by (auto simp: digit_val_def py_space_def Let_def split: if_splits)
  then have "list_all (\<lambda>c. \<not> py_space c) (nat_digits n)"
    using digit_vals [of n] by (auto simp: list_all_iff)
  then have strip: "py_strip (nat_digits n) = nat_digits n" by (rule py_strip_digits)
  obtain c cs where c: "nat_digits n = c # cs" by (cases "nat_digits n") simp_all
  obtain d where "d < 10" "hd (nat_digits n) = digit_char d" using hd_nat_digits by blast
  then have "py_sign (nat_digits n) = (False, nat_digits n)"
    using c digit_char_not_sign [of d] by (simp add: py_sign_def)
  moreover have "py_digits (nat_digits n) = Some (nat_digits n)"
    by (rule py_digits_nat_digits [OF digit_vals]) simp
  ultimately show ?thesis using assms by (simp add: py_int_def py_nat_def parse_nat_digits strip)
qed

text \<open>The double written 0.2, a little more than a fifth.\<close>

lemma tenth_bits: "excess_bits (2 ^ 1075 div 10) = 1019"
proof -
  have "floorlog 2 (nat (2 ^ 1075 div 10)) = Suc 1071" by (rule floorlog_eq) simp_all
  moreover have "\<bar>2 ^ 1075 div 10 :: int\<bar> = 2 ^ 1075 div 10" by (rule abs_of_nonneg) simp
  ultimately show ?thesis unfolding excess_bits_def sig_bits_def by (simp only:)
qed

lemma f_fifth: "f_decimal 2 (- 1) = Fin (3602879701896397 * 2 ^ 1020)"
proof -
  have "f_decimal 2 (- 1) = f_ratio (2 ^ 1075) 10" unfolding f_decimal_def by simp
  also have "\<dots> = Fin (3602879701896397 * 2 ^ 1020)"
    unfolding f_ratio_def Let_def tenth_bits by (simp add: overflow_at_def)
  finally show ?thesis .
qed

end
