(* ===== verification/Executor.thy ===== *)
theory Executor
  imports Python_Values
begin

text \<open>
  The simulated job executor of the worker agent, \<^verbatim>\<open>worker/executors/fake.py\<close>.  The clock of a run is the
  argument \<open>elapsed\<close>, what \<^verbatim>\<open>time.monotonic() - start\<close> gives at the check before a step; the polls of
  \<^verbatim>\<open>should_stop\<close> are a function of the step too.
\<close>

section \<open>Definitions\<close>

definition DEFAULT_STEPS :: int where "DEFAULT_STEPS = 5"

definition DEFAULT_STEP_SECONDS :: float64 where "DEFAULT_STEP_SECONDS = whole 1"

record ExecConfig =
  ex_steps :: int
  ex_step_seconds :: float64
  ex_fail_at_step :: "int option"

record Outcome =
  success :: bool
  steps_completed :: int
  failure_reason :: string
  stopped :: bool

definition parse_positive_int :: "(string \<Rightarrow> string) \<Rightarrow> string \<Rightarrow> string \<Rightarrow> int py" where
  "parse_positive_int repr raw flag =
     (case py_int raw of
        None \<Rightarrow> Inl (ValueError (''invalid integer for '' @ flag @ '': '' @ repr raw))
      | Some value \<Rightarrow>
          if value < 1 then Inl (ValueError (flag @ '' must be at least 1, got '' @ itoa value)) else Inr value)"

definition parse_nonnegative_float ::
    "(string \<Rightarrow> string) \<Rightarrow> (float64 \<Rightarrow> string) \<Rightarrow> string \<Rightarrow> string \<Rightarrow> float64 py" where
  "parse_nonnegative_float repr fstr raw flag =
     (case py_float raw of
        None \<Rightarrow> Inl (ValueError (''invalid float for '' @ flag @ '': '' @ repr raw))
      | Some value \<Rightarrow>
          if f_lt value f_zero then Inl (ValueError (flag @ '' must not be negative, got '' @ fstr value)) else Inr value)"

text \<open>\<^verbatim>\<open>arg.split("=", 1)[1]\<close>.\<close>

definition after_equals :: "string \<Rightarrow> string" where
  "after_equals arg = tl (dropWhile (\<lambda>c. c \<noteq> CHR ''='') arg)"

fun parse_args ::
    "(string \<Rightarrow> string) \<Rightarrow> (float64 \<Rightarrow> string) \<Rightarrow> string list \<Rightarrow> ExecConfig \<Rightarrow> ExecConfig py" where
  "parse_args repr fstr [] c = Inr c"
| "parse_args repr fstr (arg # command) c =
     (if HasPrefix arg ''--steps=''
      then case parse_positive_int repr (after_equals arg) ''--steps'' of
             Inl e \<Rightarrow> Inl e | Inr n \<Rightarrow> parse_args repr fstr command (c\<lparr>ex_steps := n\<rparr>)
      else if HasPrefix arg ''--step-seconds=''
      then case parse_nonnegative_float repr fstr (after_equals arg) ''--step-seconds'' of
             Inl e \<Rightarrow> Inl e | Inr x \<Rightarrow> parse_args repr fstr command (c\<lparr>ex_step_seconds := x\<rparr>)
      else if HasPrefix arg ''--fail-at-step=''
      then case parse_positive_int repr (after_equals arg) ''--fail-at-step'' of
             Inl e \<Rightarrow> Inl e | Inr n \<Rightarrow> parse_args repr fstr command (c\<lparr>ex_fail_at_step := Some n\<rparr>)
      else parse_args repr fstr command c)"

definition parse_command :: "(string \<Rightarrow> string) \<Rightarrow> (float64 \<Rightarrow> string) \<Rightarrow> string list \<Rightarrow> ExecConfig py" where
  "parse_command repr fstr command =
     parse_args repr fstr command
       \<lparr>ex_steps = DEFAULT_STEPS, ex_step_seconds = DEFAULT_STEP_SECONDS, ex_fail_at_step = None\<rparr>"

text \<open>\<^verbatim>\<open>time.sleep\<close> refuses what is no number and what has more than 63 bits of nanoseconds; the product
  with \<^verbatim>\<open>1e9\<close> rounds to a double, so the last half unit below \<open>2 ^ 63\<close> is out as well.\<close>

definition time_sleep :: "float64 \<Rightarrow> py_exc option" where
  "time_sleep x =
     (case x of
        NaN \<Rightarrow> Some (ValueError ''Invalid value NaN (not a number)'')
      | Fin n \<Rightarrow> if n * 10 ^ 9 \<ge> (2 ^ 63 - 512) * 2 ^ 1074
                  then Some (OverflowError ''timestamp too large to convert to C PyTime_t'') else None
      | _ \<Rightarrow> Some (OverflowError ''timestamp too large to convert to C PyTime_t''))"

text \<open>The three checks before a step; None when the step is run.  Python compares an integer with a
  float exactly.\<close>

definition step_checks :: "ExecConfig \<Rightarrow> int \<Rightarrow> bool \<Rightarrow> float64 \<Rightarrow> int \<Rightarrow> Outcome option" where
  "step_checks cfg timeout_seconds stop elapsed step =
     (if stop
      then Some \<lparr>success = False, steps_completed = step - 1, failure_reason = ''stopped before completion'', stopped = True\<rparr>
      else if ex_fail_at_step cfg = Some step
      then Some \<lparr>success = False, steps_completed = step - 1,
                 failure_reason = ''simulated failure at step '' @ itoa step @ '' of '' @ itoa (ex_steps cfg) @ '' (--fail-at-step)'',
                 stopped = False\<rparr>
      else if timeout_seconds > 0 \<and> f_lt (whole timeout_seconds) elapsed
      then Some \<lparr>success = False, steps_completed = step - 1,
                 failure_reason = ''timed out after '' @ itoa timeout_seconds @ ''s (exceeded before step '' @ itoa step @ '')'',
                 stopped = False\<rparr>
      else None)"

text \<open>\<open>n\<close> steps are left, the next one is \<open>step\<close>; \<open>s\<close> is the state \<^verbatim>\<open>on_step\<close> works on.\<close>

fun run_steps ::
    "ExecConfig \<Rightarrow> int \<Rightarrow> (int \<Rightarrow> int \<Rightarrow> 's \<Rightarrow> 's) option \<Rightarrow> (int \<Rightarrow> bool) option \<Rightarrow> (int \<Rightarrow> float64) \<Rightarrow> nat \<Rightarrow> int \<Rightarrow> 's
     \<Rightarrow> Outcome py \<times> 's" where
  "run_steps cfg timeout_seconds on_step should_stop elapsed 0 step s =
     (Inr \<lparr>success = True, steps_completed = ex_steps cfg, failure_reason = [], stopped = False\<rparr>, s)"
| "run_steps cfg timeout_seconds on_step should_stop elapsed (Suc n) step s =
     (case step_checks cfg timeout_seconds (case should_stop of None \<Rightarrow> False | Some f \<Rightarrow> f step) (elapsed step) step of
        Some out \<Rightarrow> (Inr out, s)
      | None \<Rightarrow>
          (case time_sleep (ex_step_seconds cfg) of
             Some e \<Rightarrow> (Inl e, s)
           | None \<Rightarrow>
               run_steps cfg timeout_seconds on_step should_stop elapsed n (step + 1)
                 (case on_step of None \<Rightarrow> s | Some f \<Rightarrow> f step (ex_steps cfg) s)))"

definition executor_run ::
    "(string \<Rightarrow> string) \<Rightarrow> (float64 \<Rightarrow> string) \<Rightarrow> string list \<Rightarrow> int \<Rightarrow> (int \<Rightarrow> int \<Rightarrow> 's \<Rightarrow> 's) option \<Rightarrow> (int \<Rightarrow> bool) option
     \<Rightarrow> (int \<Rightarrow> float64) \<Rightarrow> 's \<Rightarrow> Outcome py \<times> 's" where
  "executor_run repr fstr command timeout_seconds on_step should_stop elapsed s =
     (case parse_command repr fstr command of
        Inl e \<Rightarrow> (Inl e, s)
      | Inr cfg \<Rightarrow> run_steps cfg timeout_seconds on_step should_stop elapsed (nat (ex_steps cfg)) 1 s)"

section \<open>What a run does\<close>

lemma parse_positive_int_ge: "parse_positive_int repr raw flag = Inr n \<Longrightarrow> 1 \<le> n"
  by (auto simp: parse_positive_int_def split: option.splits if_splits)

lemma parse_args_steps: "parse_args repr fstr command c = Inr c' \<Longrightarrow> 1 \<le> ex_steps c \<Longrightarrow> 1 \<le> ex_steps c'"
  by (induction command arbitrary: c) (auto split: if_splits sum.splits dest: parse_positive_int_ge)

lemma parse_command_steps: "parse_command repr fstr command = Inr cfg \<Longrightarrow> 1 \<le> ex_steps cfg"
  by (auto simp: parse_command_def DEFAULT_STEPS_def dest: parse_args_steps)

text \<open>The checks that end the run, and the first step at which they do.\<close>

definition ends_at :: "ExecConfig \<Rightarrow> int \<Rightarrow> (int \<Rightarrow> bool) option \<Rightarrow> (int \<Rightarrow> float64) \<Rightarrow> int \<Rightarrow> bool" where
  "ends_at cfg timeout_seconds should_stop elapsed step \<longleftrightarrow>
     step_checks cfg timeout_seconds (case should_stop of None \<Rightarrow> False | Some f \<Rightarrow> f step) (elapsed step) step \<noteq> None"

text \<open>The run ends at the first step a check ends it, otherwise it completes every step.\<close>

lemma run_steps_spec:
  assumes "time_sleep (ex_step_seconds cfg) = None"
  shows "fst (run_steps cfg timeout on_step should_stop elapsed n step s) =
    (case find (ends_at cfg timeout should_stop elapsed) [step .. step + int n - 1] of
       None \<Rightarrow> Inr \<lparr>success = True, steps_completed = ex_steps cfg, failure_reason = [], stopped = False\<rparr>
     | Some i \<Rightarrow> Inr (the (step_checks cfg timeout (case should_stop of None \<Rightarrow> False | Some f \<Rightarrow> f i) (elapsed i) i)))"
proof (induction n arbitrary: step s)
  case (Suc n)
  have "[step .. step + int (Suc n) - 1] = step # [step + 1 .. step + 1 + int n - 1]"
    by (subst upto_rec1) (simp_all add: algebra_simps)
  then show ?case using Suc.IH [of "step + 1"] assms by (auto simp: ends_at_def split: option.split)
qed simp

text \<open>How far the run got, and what that says about it.\<close>

lemma step_checks_outcome:
  assumes "step_checks cfg timeout stop elapsed step = Some out"
  shows "\<not> success out" "steps_completed out = step - 1" "stopped out \<longleftrightarrow> stop"
  using assms by (auto simp: step_checks_def split: if_splits)

end
