(* ===== verification/Worker_Api.thy ===== *)
theory Worker_Api
  imports Job_Api Worker_Loss
begin

text \<open>
  The gRPC worker service: \<^verbatim>\<open>internal/api/worker_convert.go\<close> and \<^verbatim>\<open>worker_server.go\<close>.  A heartbeat is
  the only call that crosses both services: it renews the worker's lease and brings back the jobs to
  start and to stop.
\<close>

section \<open>worker_convert.go\<close>

definition pb_worker_statuses :: "(int \<times> Status) list" where
  "pb_worker_statuses = [(1, StatusActive), (2, StatusLost)]"

definition pbWorkerStatusToDomain :: "int \<Rightarrow> Status" where
  "pbWorkerStatusToDomain n = (case map_of pb_worker_statuses n of None \<Rightarrow> StatusZero | Some s \<Rightarrow> s)"

definition domainWorkerStatusToPB :: "Status \<Rightarrow> int" where
  "domainWorkerStatusToPB s = (case map_of (invert pb_worker_statuses) s of None \<Rightarrow> 0 | Some n \<Rightarrow> n)"

definition pb_health_states :: "(int \<times> GPUHealthState) list" where
  "pb_health_states = [(1, GPUHealthy), (2, GPUDegraded), (3, GPUUnhealthy)]"

definition domainHealthStateToPB :: "GPUHealthState \<Rightarrow> int" where
  "domainHealthStateToPB s = (case map_of (invert pb_health_states) s of None \<Rightarrow> 0 | Some n \<Rightarrow> n)"

record pbGPU =
  pbg_id :: string
  pbg_device_index :: int
  pbg_uuid :: string
  pbg_total_memory_bytes :: int
  pbg_allocated_memory_bytes :: int
  pbg_utilization_percent :: float64
  pbg_temperature_celsius :: "float64 option"
  pbg_mig_profile :: string
  pbg_health_state :: int

record pbWorker =
  pbw_id :: string
  pbw_hostname :: string
  pbw_status :: int
  pbw_cpu_capacity :: float64
  pbw_memory_capacity_bytes :: int
  pbw_gpus :: "pbGPU list"
  pbw_software_version :: string
  pbw_labels :: "(string \<times> string) slice"
  pbw_running_job_ids :: "string slice"
  pbw_registered_at :: "pbTimestamp option"
  pbw_last_heartbeat_at :: "pbTimestamp option"

definition zero_gpu :: GPU where
  "zero_gpu = \<lparr>gpu_ID = [], gpu_DeviceIndex = 0, gpu_UUID = [], gpu_TotalMemoryBytes = 0,
     gpu_AllocatedMemoryBytes = 0, gpu_UtilizationPercent = f_zero, gpu_TemperatureCelsius = None,
     gpu_MIGProfile = [], gpu_HealthState = GPUHealthZero\<rparr>"

text \<open>An element of a repeated message field may be a nil pointer.\<close>

definition gpuToDomain :: "pbGPU option \<Rightarrow> GPU" where
  "gpuToDomain g =
     (case g of
        None \<Rightarrow> zero_gpu
      | Some g \<Rightarrow>
          \<lparr>gpu_ID = [], gpu_DeviceIndex = pbg_device_index g, gpu_UUID = pbg_uuid g,
           gpu_TotalMemoryBytes = pbg_total_memory_bytes g,
           gpu_AllocatedMemoryBytes = pbg_allocated_memory_bytes g,
           gpu_UtilizationPercent = pbg_utilization_percent g,
           gpu_TemperatureCelsius = pbg_temperature_celsius g, gpu_MIGProfile = pbg_mig_profile g,
           gpu_HealthState =
             (case map_of pb_health_states (pbg_health_state g) of Some s \<Rightarrow> s | None \<Rightarrow> GPUHealthy)\<rparr>)"

definition gpusToDomain :: "pbGPU option slice \<Rightarrow> GPU slice" where
  "gpusToDomain gs = map_option (map gpuToDomain) gs"

definition gpuToProto :: "GPU \<Rightarrow> pbGPU" where
  "gpuToProto g =
     \<lparr>pbg_id = gpu_ID g, pbg_device_index = gpu_DeviceIndex g, pbg_uuid = gpu_UUID g,
      pbg_total_memory_bytes = gpu_TotalMemoryBytes g,
      pbg_allocated_memory_bytes = gpu_AllocatedMemoryBytes g,
      pbg_utilization_percent = gpu_UtilizationPercent g,
      pbg_temperature_celsius = gpu_TemperatureCelsius g, pbg_mig_profile = gpu_MIGProfile g,
      pbg_health_state = domainHealthStateToPB (gpu_HealthState g)\<rparr>"

definition workerToProto :: "Worker \<Rightarrow> pbWorker" where
  "workerToProto w =
     \<lparr>pbw_id = w_ID w, pbw_hostname = w_Hostname w, pbw_status = domainWorkerStatusToPB (w_Status w),
      pbw_cpu_capacity = w_CPUCapacity w, pbw_memory_capacity_bytes = w_MemoryCapacityBytes w,
      pbw_gpus = map gpuToProto (elems (w_GPUs w)), pbw_software_version = w_SoftwareVersion w,
      pbw_labels = w_Labels w, pbw_running_job_ids = w_RunningJobIDs w,
      pbw_registered_at = Some (timestamppb_New (w_RegisteredAt w)),
      pbw_last_heartbeat_at = Some (timestamppb_New (w_LastHeartbeatAt w))\<rparr>"

section \<open>worker_server.go\<close>

definition worker_toStatus :: "goerr \<Rightarrow> Status_error \<times> log_line list" where
  "worker_toStatus e =
     (case errors_As_Workers_ValidationError e of
        Some ps \<Rightarrow> (status_Error InvalidArgument (err_Error (Workers_ValidationError ps)), [])
      | None \<Rightarrow>
          if errors_Is e Workers_ErrNotFound then (status_Error NotFound (err_Error e), [])
          else if errors_Is e Workers_ErrInvalidState then (status_Error FailedPrecondition (err_Error e), [])
          else unhandled e)"

record RegisterWorkerRequest =
  rw_hostname :: string
  rw_cpu_capacity :: float64
  rw_memory_capacity_bytes :: int
  rw_gpus :: "pbGPU option slice"
  rw_software_version :: string
  rw_labels :: "(string \<times> string) slice"

record RegisterWorkerResponse =
  rwr_worker :: pbWorker
  rwr_heartbeat_interval_seconds :: int

record WorkerHeartbeatRequest =
  hb_worker_id :: string
  hb_gpus :: "pbGPU option slice"
  hb_running_job_ids :: "string slice"

record WorkerHeartbeatResponse =
  hbr_worker :: pbWorker
  hbr_assigned_jobs :: "pbJob list"
  hbr_stop_job_ids :: "string list"

record ListWorkersRequest =
  lw_page_size :: int
  lw_page_token :: string
  lw_status_filter :: int

record ListWorkersResponse =
  lwr_workers :: "pbWorker list"
  lwr_next_page_token :: string

definition register_input :: "RegisterWorkerRequest \<Rightarrow> RegisterInput" where
  "register_input req =
     \<lparr>reg_Hostname = rw_hostname req, reg_CPUCapacity = rw_cpu_capacity req,
      reg_MemoryCapacityBytes = rw_memory_capacity_bytes req, reg_GPUs = gpusToDomain (rw_gpus req),
      reg_SoftwareVersion = rw_software_version req, reg_Labels = rw_labels req\<rparr>"

text \<open>\<^verbatim>\<open>int64(s.svc.HeartbeatInterval().Seconds())\<close> is the number of whole seconds; an interval is at
  least a second, and the detour through a 64-bit float is exact below \<open>2 ^ 22\<close> seconds.\<close>

definition RegisterWorker ::
    "'w WorkerRepository \<Rightarrow> 'l Manager \<Rightarrow> Duration \<Rightarrow> string \<Rightarrow> Time \<Rightarrow> RegisterWorkerRequest \<Rightarrow> 'w \<times> 'l
     \<Rightarrow> RegisterWorkerResponse reply \<times> 'w \<times> 'l" where
  "RegisterWorker wrepo mgr ttl newID now req s =
     (case Register wrepo mgr ttl newID now (register_input req) s of
        (Inl e, s') \<Rightarrow> (failed (worker_toStatus e), s')
      | (Inr worker, s') \<Rightarrow>
          (answer \<lparr>rwr_worker = workerToProto worker,
                   rwr_heartbeat_interval_seconds = HeartbeatInterval ttl div Second\<rparr>, s'))"

definition WorkerHeartbeat ::
    "'w WorkerRepository \<Rightarrow> 'l Manager \<Rightarrow> 'r JobRepository \<Rightarrow> Duration \<Rightarrow> Time \<Rightarrow> WorkerHeartbeatRequest
     \<Rightarrow> 'w \<times> 'l \<Rightarrow> 'r \<Rightarrow> WorkerHeartbeatResponse reply \<times> 'w \<times> 'l" where
  "WorkerHeartbeat wrepo mgr repo ttl now req s r =
     (if hb_worker_id req = [] then (refuse ''worker_id must not be empty'', s)
      else case Heartbeat wrepo mgr ttl now (hb_worker_id req) (gpusToDomain (hb_gpus req))
                  (hb_running_job_ids req) s of
             (Inl e, s') \<Rightarrow> (failed (worker_toStatus e), s')
           | (Inr worker, s') \<Rightarrow>
               (let resp = \<lparr>hbr_worker = workerToProto worker, hbr_assigned_jobs = [], hbr_stop_job_ids = []\<rparr>
                in case ListAssignedToWorker repo (hb_worker_id req) r of
                     Inl e \<Rightarrow>
                       ((Inr resp, [(''failed to list jobs assigned to worker for heartbeat response'',
                                     [(''worker_id'', hb_worker_id req), (''error'', err_Error e)])]), s')
                   | Inr assigned \<Rightarrow>
                       (let resp = resp\<lparr>hbr_assigned_jobs := map jobToProto assigned\<rparr>
                        in case ListStoppableForWorker repo (hb_worker_id req) r of
                             Inl e \<Rightarrow>
                               ((Inr resp, [(''failed to list stoppable jobs for heartbeat response'',
                                             [(''worker_id'', hb_worker_id req), (''error'', err_Error e)])]), s')
                           | Inr stoppable \<Rightarrow>
                               (answer (resp\<lparr>hbr_stop_job_ids := map job_ID stoppable\<rparr>), s'))))"

definition worker_list_options :: "ListWorkersRequest \<Rightarrow> WListOptions" where
  "worker_list_options req =
     \<lparr>wopt_PageSize = lw_page_size req, wopt_PageToken = lw_page_token req,
      wopt_StatusFilter = (if lw_status_filter req \<noteq> 0 then pbWorkerStatusToDomain (lw_status_filter req) else StatusZero)\<rparr>"

definition ListWorkers :: "'w WorkerRepository \<Rightarrow> ListWorkersRequest \<Rightarrow> 'w \<Rightarrow> ListWorkersResponse reply" where
  "ListWorkers wrepo req w =
     (case WList wrepo (worker_list_options req) w of
        Inl e \<Rightarrow> failed (worker_toStatus e)
      | Inr result \<Rightarrow>
          answer \<lparr>lwr_workers = map workerToProto (wres_Workers result), lwr_next_page_token = wres_NextPageToken result\<rparr>)"

section \<open>What the handlers answer\<close>

lemma gpu_roundtrip:
  "gpuToDomain (Some (gpuToProto g)) =
     g\<lparr>gpu_ID := [], gpu_HealthState :=
         (if gpu_HealthState g = GPUHealthZero then GPUHealthy else gpu_HealthState g)\<rparr>"
  by (cases "gpu_HealthState g")
    (simp_all add: gpuToDomain_def gpuToProto_def domainHealthStateToPB_def pb_health_states_def invert_def)

lemma worker_status_roundtrip: "s \<noteq> StatusZero \<Longrightarrow> pbWorkerStatusToDomain (domainWorkerStatusToPB s) = s"
  by (cases s)
    (simp_all add: pbWorkerStatusToDomain_def domainWorkerStatusToPB_def pb_worker_statuses_def invert_def)

text \<open>Once the worker service has taken the heartbeat, no failure of the job store turns the answer into
  an error.\<close>

lemma WorkerHeartbeat_answers:
  assumes "hb_worker_id req \<noteq> []"
    "Heartbeat wrepo mgr ttl now (hb_worker_id req) (gpusToDomain (hb_gpus req)) (hb_running_job_ids req) s = (Inr v, s')"
  shows "\<exists>resp logs. WorkerHeartbeat wrepo mgr repo ttl now req s r = ((Inr resp, logs), s')
    \<and> hbr_worker resp = workerToProto v"
  using assms
  by (auto simp: WorkerHeartbeat_def answer_def Let_def split: sum.splits)

context job_store
begin

lemma WorkerHeartbeat_orders:
  assumes "repo_ok r"
    "WorkerHeartbeat wrepo mgr repo ttl now req s r = ((Inr resp, logs), s')"
  shows "logs = []
    \<and> set (hbr_assigned_jobs resp) = jobToProto ` {j. jobs_of r (job_ID j) = Some j \<and> job_State j = StateScheduled
         \<and> hb_worker_id req \<in> set (elems (job_AssignedWorkerIDs j))}
    \<and> set (hbr_stop_job_ids resp) = job_ID ` {j. jobs_of r (job_ID j) = Some j
         \<and> (job_State j = StateCancelRequested \<or> job_State j = StatePreempted)
         \<and> hb_worker_id req \<in> set (elems (job_AssignedWorkerIDs j))}"
proof -
  obtain xs where xs: "ListAssignedToWorker repo (hb_worker_id req) r = Inr xs"
    "set xs = {j. jobs_of r (job_ID j) = Some j \<and> job_State j = StateScheduled
       \<and> hb_worker_id req \<in> set (elems (job_AssignedWorkerIDs j))}" using ListAssigned_set [OF assms(1)] .
  obtain ys where ys: "ListStoppableForWorker repo (hb_worker_id req) r = Inr ys"
    "set ys = {j. jobs_of r (job_ID j) = Some j
       \<and> (job_State j = StateCancelRequested \<or> job_State j = StatePreempted)
       \<and> hb_worker_id req \<in> set (elems (job_AssignedWorkerIDs j))}" using ListStoppable_set [OF assms(1)] .
  have "logs = [] \<and> hbr_assigned_jobs resp = map jobToProto xs \<and> hbr_stop_job_ids resp = map job_ID ys"
    using assms(2)
    by (auto simp: WorkerHeartbeat_def answer_def refuse_def failed_def Let_def xs(1) ys(1) split: if_splits sum.splits prod.splits)
  then show ?thesis by (simp add: xs(2) ys(2))
qed

end

end
