(* ===== verification/Agent.thy ===== *)
theory Agent
  imports Executor Worker_Api
begin

text \<open>
  The worker agent: \<^verbatim>\<open>worker/agent/main.py\<close> with \<^verbatim>\<open>grpc_client.py\<close> and the simulated inventory of
  \<^verbatim>\<open>worker/gpu/fake.py\<close>.  The agent is one heartbeat loop and one thread per job; \<open>agent_step\<close> has one rule per
  atomic action of either, against the handlers of the API server.  A call over the network may fail
  before or after the server has acted on it.  Log lines are not represented.
\<close>

section \<open>gpu/fake.py\<close>

definition DEFAULT_GPU_COUNT :: int where "DEFAULT_GPU_COUNT = 2"

definition DEFAULT_GPU_MEMORY_BYTES :: int where "DEFAULT_GPU_MEMORY_BYTES = 16 * 1024 ^ 3"

record FakeGPU =
  fg_device_index :: int
  fg_uuid :: string
  fg_total_memory_bytes :: int
  fg_allocated_memory_bytes :: int
  fg_utilization_percent :: float64
  fg_temperature_celsius :: "float64 option"
  fg_mig_profile :: string
  fg_health_state :: string

definition slice_of :: "nat \<Rightarrow> nat \<Rightarrow> string \<Rightarrow> string" where
  "slice_of a b s = take (b - a) (drop a s)"

text \<open>\<open>sha256\<close> is \<^verbatim>\<open>hashlib.sha256(...).hexdigest()\<close>.\<close>

definition fake_uuid :: "(string \<Rightarrow> string) \<Rightarrow> string \<Rightarrow> int \<Rightarrow> string" where
  "fake_uuid sha256 worker_id device_index =
     (let digest = sha256 (worker_id @ '':'' @ itoa device_index)
      in ''GPU-fake-'' @ slice_of 0 8 digest @ ''-'' @ slice_of 8 12 digest @ ''-'' @ slice_of 12 16 digest @ ''-''
         @ slice_of 16 20 digest @ ''-'' @ slice_of 20 32 digest)"

definition discover :: "(string \<Rightarrow> string) \<Rightarrow> string \<Rightarrow> int \<Rightarrow> int \<Rightarrow> FakeGPU list py" where
  "discover sha256 worker_id n memory_bytes =
     (if n < 0 then Inl (ValueError (''count must not be negative, got '' @ itoa n))
      else if memory_bytes < 0 then Inl (ValueError (''memory_bytes must not be negative, got '' @ itoa memory_bytes))
      else Inr (map (\<lambda>i. \<lparr>fg_device_index = i, fg_uuid = fake_uuid sha256 worker_id i, fg_total_memory_bytes = memory_bytes,
             fg_allocated_memory_bytes = 0, fg_utilization_percent = f_zero, fg_temperature_celsius = None,
             fg_mig_profile = [], fg_health_state = ''HEALTHY''\<rparr>) [0 .. n - 1]))"

section \<open>grpc_client.py\<close>

text \<open>A call that raises \<^verbatim>\<open>grpc.RpcError\<close> carries the status of the server or one of the channel.\<close>

datatype StatusCode = FromServer Code | FromChannel

datatype 'a rpc = Reply 'a | RpcError StatusCode

fun of_reply :: "'a reply \<Rightarrow> 'a rpc" where
  "of_reply (Inl st, logs) = RpcError (FromServer (st_code st))"
| "of_reply (Inr x, logs) = Reply x"

definition gpu_to_proto :: "FakeGPU \<Rightarrow> pbGPU" where
  "gpu_to_proto g =
     \<lparr>pbg_id = [], pbg_device_index = fg_device_index g, pbg_uuid = fg_uuid g,
      pbg_total_memory_bytes = fg_total_memory_bytes g, pbg_allocated_memory_bytes = fg_allocated_memory_bytes g,
      pbg_utilization_percent = fg_utilization_percent g, pbg_temperature_celsius = fg_temperature_celsius g,
      pbg_mig_profile = fg_mig_profile g, pbg_health_state = (if fg_health_state g = ''HEALTHY'' then 1 else 3)\<rparr>"

record RegistrationResult =
  rr_worker_id :: string
  rr_heartbeat_interval_seconds :: int

record AssignedJob =
  aj_job_id :: string
  aj_command :: "string list"
  aj_timeout_seconds :: int

record HeartbeatResult =
  hr_assigned_jobs :: "AssignedJob list"
  hr_stop_job_ids :: "string list"

definition register_request ::
    "string \<Rightarrow> float64 \<Rightarrow> int \<Rightarrow> FakeGPU list \<Rightarrow> string \<Rightarrow> (string \<times> string) list \<Rightarrow> RegisterWorkerRequest" where
  "register_request hostname cpu_capacity memory_capacity_bytes gpus software_version labels =
     \<lparr>rw_hostname = hostname, rw_cpu_capacity = cpu_capacity, rw_memory_capacity_bytes = memory_capacity_bytes,
      rw_gpus = Some (map (\<lambda>g. Some (gpu_to_proto g)) gpus), rw_software_version = software_version, rw_labels = Some labels\<rparr>"

definition registration_result :: "RegisterWorkerResponse \<Rightarrow> RegistrationResult" where
  "registration_result resp =
     \<lparr>rr_worker_id = pbw_id (rwr_worker resp), rr_heartbeat_interval_seconds = rwr_heartbeat_interval_seconds resp\<rparr>"

definition heartbeat_request :: "string \<Rightarrow> FakeGPU list \<Rightarrow> string list \<Rightarrow> WorkerHeartbeatRequest" where
  "heartbeat_request worker_id gpus running_job_ids =
     \<lparr>hb_worker_id = worker_id, hb_gpus = Some (map (\<lambda>g. Some (gpu_to_proto g)) gpus), hb_running_job_ids = Some running_job_ids\<rparr>"

definition heartbeat_result :: "WorkerHeartbeatResponse \<Rightarrow> HeartbeatResult" where
  "heartbeat_result resp =
     \<lparr>hr_assigned_jobs = map (\<lambda>j. \<lparr>aj_job_id = pbj_id j, aj_command = elems (pbj_command j),
         aj_timeout_seconds = pbj_timeout_seconds j\<rparr>) (hbr_assigned_jobs resp),
      hr_stop_job_ids = hbr_stop_job_ids resp\<rparr>"

section \<open>main.py: waiting and registration\<close>

definition SLEEP_CHUNK_SECONDS :: float64 where "SLEEP_CHUNK_SECONDS = f_decimal 2 (- 1)"

definition REGISTER_MAX_BACKOFF_SECONDS :: int where "REGISTER_MAX_BACKOFF_SECONDS = 15"

definition f_min :: "float64 \<Rightarrow> float64 \<Rightarrow> float64" where
  "f_min a b = (if f_lt b a then b else a)"

text \<open>The chunks slept; \<open>shutdown i\<close> is what the flag says before chunk \<open>i\<close>.\<close>

partial_function (option) sleep_in_chunks :: "(nat \<Rightarrow> bool) \<Rightarrow> nat \<Rightarrow> float64 \<Rightarrow> float64 list option" where
  "sleep_in_chunks shutdown i remaining =
     (if f_lt f_zero remaining \<and> \<not> shutdown i
      then let chunk = f_min SLEEP_CHUNK_SECONDS remaining
           in Option.bind (sleep_in_chunks shutdown (Suc i) (f_sub remaining chunk)) (\<lambda>cs. Some (chunk # cs))
      else Some [])"

text \<open>What one round of the registration loop meets: a shutdown request at its head, or the outcome of
  the call.\<close>

datatype reg_event = ShutdownRequested | Registered RegisterWorkerResponse | RegisterFailed StatusCode

text \<open>The delays waited so far, and once the loop is over the worker's identifier with the heartbeat
  interval, or None after a shutdown.  Doubling below the maximum is exact.\<close>

fun register_with_retry :: "int \<Rightarrow> reg_event list \<Rightarrow> int list \<times> (string \<times> int) option option" where
  "register_with_retry delay [] = ([], None)"
| "register_with_retry delay (ShutdownRequested # es) = ([], Some None)"
| "register_with_retry delay (Registered resp # es) =
     (let result = registration_result resp
      in ([], Some (Some (rr_worker_id result, max (rr_heartbeat_interval_seconds result) 1))))"
| "register_with_retry delay (RegisterFailed c # es) =
     (case register_with_retry (min (delay * 2) REGISTER_MAX_BACKOFF_SECONDS) es of
        (ds, x) \<Rightarrow> (delay # ds, x))"

section \<open>main.py: the heartbeat loop and the job threads\<close>

text \<open>Where the thread of a job is: before \<^verbatim>\<open>report_started\<close>, before a step of the executor, before the
  report of its outcome, before it pops its entries, or ended by an exception no handler of
  \<^verbatim>\<open>_execute\<close> takes.\<close>

datatype thread_phase = Starting | Stepping ExecConfig int | Reporting Outcome | Leaving | Died py_exc

text \<open>The entries of a job in \<^verbatim>\<open>running_jobs\<close> and \<^verbatim>\<open>cancel_events\<close>, which are always made and removed
  together; \<open>sl_event\<close> is the event's flag.\<close>

record slot =
  sl_job :: AssignedJob
  sl_phase :: thread_phase
  sl_event :: bool

text \<open>\<open>inbox\<close> and \<open>stops\<close> are what is left of the two loops over the last heartbeat result.\<close>

record agent =
  running_jobs :: "(string \<times> slot) list"
  inbox :: "AssignedJob list"
  stops :: "string list"

definition start_job :: "AssignedJob \<Rightarrow> agent \<Rightarrow> agent" where
  "start_job job a =
     a\<lparr>running_jobs := AList.update (aj_job_id job) \<lparr>sl_job = job, sl_phase = Starting, sl_event = False\<rparr> (running_jobs a)\<rparr>"

definition receive :: "HeartbeatResult \<Rightarrow> agent \<Rightarrow> agent" where
  "receive result a = a\<lparr>inbox := hr_assigned_jobs result, stops := hr_stop_job_ids result\<rparr>"

definition take_assigned :: "AssignedJob \<Rightarrow> AssignedJob list \<Rightarrow> agent \<Rightarrow> agent" where
  "take_assigned job rest a =
     (if aj_job_id job \<in> fst ` set (running_jobs a) then a else start_job job a)\<lparr>inbox := rest\<rparr>"

definition take_stop :: "string \<Rightarrow> string list \<Rightarrow> agent \<Rightarrow> agent" where
  "take_stop job_id rest a =
     (case map_of (running_jobs a) job_id of
        None \<Rightarrow> a
      | Some sl \<Rightarrow> a\<lparr>running_jobs := AList.update job_id (sl\<lparr>sl_event := True\<rparr>) (running_jobs a)\<rparr>)\<lparr>stops := rest\<rparr>"

text \<open>\<^verbatim>\<open>_execute\<close> after \<^verbatim>\<open>report_started\<close>.\<close>

definition after_started ::
    "(string \<Rightarrow> string) \<Rightarrow> (float64 \<Rightarrow> string) \<Rightarrow> pbJob rpc \<Rightarrow> AssignedJob \<Rightarrow> thread_phase" where
  "after_started repr fstr x job =
     (if x = RpcError (FromServer FailedPrecondition) then Leaving
      else case parse_command repr fstr (aj_command job) of Inl e \<Rightarrow> Died e | Inr cfg \<Rightarrow> Stepping cfg 1)"

text \<open>One round of the loop of \<^verbatim>\<open>executor_fake.run\<close>.\<close>

definition next_phase :: "ExecConfig \<Rightarrow> int \<Rightarrow> bool \<Rightarrow> float64 \<Rightarrow> int \<Rightarrow> thread_phase" where
  "next_phase cfg timeout_seconds event elapsed step =
     (if step > ex_steps cfg
      then Reporting \<lparr>success = True, steps_completed = ex_steps cfg, failure_reason = [], stopped = False\<rparr>
      else case step_checks cfg timeout_seconds event elapsed step of
             Some out \<Rightarrow> Reporting out
           | None \<Rightarrow> (case time_sleep (ex_step_seconds cfg) of Some e \<Rightarrow> Died e | None \<Rightarrow> Stepping cfg (step + 1)))"

text \<open>Which report an outcome calls for.\<close>

definition outcome_report :: "string \<Rightarrow> Time \<Rightarrow> Outcome \<Rightarrow> api_op" where
  "outcome_report worker_id now out =
     (if success out then ApiCompleted now worker_id 0
      else if stopped out then ApiStopped now worker_id
      else ApiFailed now worker_id (failure_reason out))"

definition set_phase :: "string \<Rightarrow> slot \<Rightarrow> thread_phase \<Rightarrow> agent \<Rightarrow> agent" where
  "set_phase job_id sl p a = a\<lparr>running_jobs := AList.update job_id (sl\<lparr>sl_phase := p\<rparr>) (running_jobs a)\<rparr>"

definition pop_job :: "string \<Rightarrow> agent \<Rightarrow> agent" where
  "pop_job job_id a = a\<lparr>running_jobs := AList.delete job_id (running_jobs a)\<rparr>"

text \<open>A call: answered, or lost on the way there or back.\<close>

definition rpc_outcome :: "'a reply \<times> 'r \<Rightarrow> 'r \<Rightarrow> 'a rpc \<Rightarrow> 'r \<Rightarrow> bool" where
  "rpc_outcome call r x r' \<longleftrightarrow>
     (x = of_reply (fst call) \<and> r' = snd call) \<or> (x = RpcError FromChannel \<and> (r' = r \<or> r' = snd call))"

inductive agent_step ::
    "'w WorkerRepository \<Rightarrow> 'l Manager \<Rightarrow> 'r JobRepository \<Rightarrow> Duration \<Rightarrow> (string \<Rightarrow> string) \<Rightarrow> (float64 \<Rightarrow> string)
     \<Rightarrow> string \<Rightarrow> FakeGPU list \<Rightarrow> ('w \<times> 'l) \<times> 'r \<times> agent \<Rightarrow> ('w \<times> 'l) \<times> 'r \<times> agent \<Rightarrow> bool"
  for wrepo mgr repo ttl repr fstr worker_id gpus
where
  heartbeat: "inbox a = [] \<Longrightarrow> stops a = [] \<Longrightarrow>
     WorkerHeartbeat wrepo mgr repo ttl now (heartbeat_request worker_id gpus (map fst (running_jobs a))) s r = (rep, s1) \<Longrightarrow>
     rpc_outcome (rep, s1) s x s' \<Longrightarrow>
     agent_step wrepo mgr repo ttl repr fstr worker_id gpus (s, r, a)
       (s', r, case x of Reply resp \<Rightarrow> receive (heartbeat_result resp) a | RpcError c \<Rightarrow> a)"
| assigned: "inbox a = job # rest \<Longrightarrow>
     agent_step wrepo mgr repo ttl repr fstr worker_id gpus (s, r, a) (s, r, take_assigned job rest a)"
| stop: "inbox a = [] \<Longrightarrow> stops a = k # rest \<Longrightarrow>
     agent_step wrepo mgr repo ttl repr fstr worker_id gpus (s, r, a) (s, r, take_stop k rest a)"
| started: "map_of (running_jobs a) k = Some sl \<Longrightarrow> sl_phase sl = Starting \<Longrightarrow>
     rpc_outcome (api_call repo (ApiStarted now worker_id) k r) r x r' \<Longrightarrow>
     agent_step wrepo mgr repo ttl repr fstr worker_id gpus (s, r, a)
       (s, r', set_phase k sl (after_started repr fstr x (sl_job sl)) a)"
| stepped: "map_of (running_jobs a) k = Some sl \<Longrightarrow> sl_phase sl = Stepping cfg step \<Longrightarrow>
     agent_step wrepo mgr repo ttl repr fstr worker_id gpus (s, r, a)
       (s, r, set_phase k sl (next_phase cfg (aj_timeout_seconds (sl_job sl)) (sl_event sl) elapsed step) a)"
| reported: "map_of (running_jobs a) k = Some sl \<Longrightarrow> sl_phase sl = Reporting out \<Longrightarrow>
     rpc_outcome (api_call repo (outcome_report worker_id now out) k r) r x r' \<Longrightarrow>
     agent_step wrepo mgr repo ttl repr fstr worker_id gpus (s, r, a) (s, r', set_phase k sl Leaving a)"
| popped: "map_of (running_jobs a) k = Some sl \<Longrightarrow> sl_phase sl = Leaving \<Longrightarrow>
     agent_step wrepo mgr repo ttl repr fstr worker_id gpus (s, r, a) (s, r, pop_job k a)"

end
