(* ===== verification/Agent_Runs.thy ===== *)
theory Agent_Runs
  imports Agent
begin

text \<open>
  Runs of the worker agent against the API server: which jobs the agent can change, how one thread gets
  from its start report to its outcome, and how an order of a heartbeat reaches a thread.
\<close>

section \<open>Jobs without a thread\<close>

text \<open>No live thread executes \<open>k\<close>, and none is about to be started.\<close>

definition no_thread :: "string \<Rightarrow> agent \<Rightarrow> bool" where
  "no_thread k a \<longleftrightarrow> (\<forall>sl. map_of (running_jobs a) k = Some sl \<longrightarrow> (\<exists>e. sl_phase sl = Died e)) \<and> k \<notin> aj_job_id ` set (inbox a)"

lemma no_thread_other [simp]:
  "k' \<noteq> k \<Longrightarrow> no_thread k (set_phase k' sl p a) \<longleftrightarrow> no_thread k a"
  "k' \<noteq> k \<Longrightarrow> no_thread k (pop_job k' a) \<longleftrightarrow> no_thread k a"
  by (auto simp: no_thread_def set_phase_def pop_job_def update_conv' delete_conv')

lemma no_thread_take_assigned: "no_thread k a \<Longrightarrow> inbox a = job # rest \<Longrightarrow> no_thread k (take_assigned job rest a)"
  by (auto simp: no_thread_def take_assigned_def start_job_def update_conv')

lemma no_thread_take_stop: "no_thread k a \<Longrightarrow> no_thread k (take_stop k' rest a)"
  by (auto simp: no_thread_def take_stop_def update_conv' split: option.split)

lemma no_thread_receive:
  "no_thread k a \<Longrightarrow> k \<notin> aj_job_id ` set (hr_assigned_jobs result) \<Longrightarrow> no_thread k (receive result a)"
  by (auto simp: no_thread_def receive_def)

inductive_cases agent_stepE [consumes 1, case_names heartbeat assigned stop started stepped reported popped]:
  "agent_step wrepo mgr repo ttl repr fstr w gpus (s, r, a) (s', r', a')"

context job_store
begin

text \<open>A call about one job, answered or lost, leaves the other jobs alone.\<close>

lemma rpc_frame:
  assumes "repo_ok r" "rpc_outcome (api_call repo op k' r) r x r'" "k \<noteq> k'"
  shows "repo_ok r' \<and> jobs_of r' k = jobs_of r k"
proof -
  have "repo_ok (snd (api_call repo op k' r)) \<and> jobs_of (snd (api_call repo op k' r)) k = jobs_of r k"
  proof (cases "k' = []")
    case True
    then show ?thesis using api_call_empty [of repo op r] assms(1) by auto
  next
    case False
    obtain y r1 where u: "repo_Update repo k' (op_fn (api_job_op op)) r = (y, r1)" by (rule prod.exhaust)
    have "snd (api_call repo op k' r) = r1"
      by (simp add: api_call_nonempty [OF False] u split: sum.split)
    then show ?thesis
      by (cases rule: update_store [OF assms(1) op_fn_keeps_identity u]) (use assms(1,3) in simp_all)
  qed
  with assms(1,2) show ?thesis by (auto simp: rpc_outcome_def)
qed

lemma offered_scheduled:
  assumes "repo_ok r" "WorkerHeartbeat wrepo mgr repo ttl now req s r = ((Inr resp, logs), s')"
    "k \<in> aj_job_id ` set (hr_assigned_jobs (heartbeat_result resp))"
  shows "\<exists>j. jobs_of r k = Some j \<and> job_State j = StateScheduled"
proof -
  have ident: "pbj_id (jobToProto j) = job_ID j" for j by (simp add: jobToProto_def)
  from WorkerHeartbeat_orders [OF assms(1,2)] assms(3) show ?thesis
    by (auto simp: heartbeat_result_def ident)
qed

text \<open>The agent never changes a job it has no thread for, and starts one for a SCHEDULED job only.\<close>

lemma agent_step_frame:
  assumes "agent_step wrepo mgr repo ttl repr fstr w gpus (s, r, a) (s', r', a')"
    "repo_ok r" "jobs_of r k = Some j" "job_State j \<noteq> StateScheduled" "no_thread k a"
  shows "repo_ok r' \<and> jobs_of r' k = Some j \<and> no_thread k a'"
  using assms(1)
proof (cases rule: agent_stepE)
  case (heartbeat now rep s1 x)
  have "no_thread k (case x of Reply resp \<Rightarrow> receive (heartbeat_result resp) a | RpcError c \<Rightarrow> a)"
  proof (cases x)
    case (Reply resp)
    then obtain logs where "rep = (Inr resp, logs)"
      using heartbeat by (cases rep rule: of_reply.cases) (auto simp: rpc_outcome_def)
    with heartbeat have "WorkerHeartbeat wrepo mgr repo ttl now
        (heartbeat_request w gpus (map fst (running_jobs a))) s r = ((Inr resp, logs), s1)" by simp
    from offered_scheduled [OF assms(2) this, of k] assms(3,4) Reply show ?thesis
      using no_thread_receive [OF assms(5), of "heartbeat_result resp"] by auto
  qed (use assms(5) in simp)
  with heartbeat assms show ?thesis by simp
next
  case (started k' sl now x)
  then have "k \<noteq> k'" using assms(5) by (auto simp: no_thread_def)
  with started assms rpc_frame [of r "ApiStarted now w" k' x r' k] show ?thesis by simp
next
  case (stepped k' sl cfg step elapsed)
  then have "k \<noteq> k'" using assms(5) by (auto simp: no_thread_def)
  with stepped assms show ?thesis by simp
next
  case (reported k' sl out now x)
  then have "k \<noteq> k'" using assms(5) by (auto simp: no_thread_def)
  with reported assms rpc_frame [of r "outcome_report w now out" k' x r' k] show ?thesis by simp
next
  case (popped k' sl)
  then have "k \<noteq> k'" using assms(5) by (auto simp: no_thread_def)
  with popped assms show ?thesis by simp
qed (use assms in \<open>simp_all add: no_thread_take_assigned no_thread_take_stop\<close>)

text \<open>Others may change other jobs meanwhile.\<close>

lemma abandoned_run:
  assumes "(\<lambda>c c'. agent_step wrepo mgr repo ttl repr fstr w gpus c c'
      \<or> (\<exists>s r a s' r'. c = (s, r, a) \<and> c' = (s', r', a) \<and> repo_ok r' \<and> jobs_of r' k = jobs_of r k))\<^sup>*\<^sup>* (s, r, a) (s', r', a')"
    "repo_ok r" "jobs_of r k = Some j" "job_State j \<noteq> StateScheduled" "no_thread k a"
  shows "repo_ok r' \<and> jobs_of r' k = Some j \<and> no_thread k a'"
  using assms(1)
proof (induction "(s', r', a')" arbitrary: s' r' a' rule: rtranclp_induct)
  case base
  with assms show ?case by simp
next
  case (step c)
  obtain s1 r1 a1 where c: "c = (s1, r1, a1)" by (rule prod_cases3)
  have ih: "repo_ok r1 \<and> jobs_of r1 k = Some j \<and> no_thread k a1" using step(3) c by simp
  from step(2) show ?case
  proof
    assume "agent_step wrepo mgr repo ttl repr fstr w gpus c (s', r', a')"
    with agent_step_frame [of wrepo mgr ttl repr fstr w gpus s1 r1 a1 s' r' a' k j] ih c assms(4) show ?thesis by simp
  qed (use ih c in auto)
qed

end

section \<open>One thread\<close>

text \<open>A thread on its own, every call answered: \<open>now\<close> is the server's clock, \<open>el\<close> the executor's.\<close>

fun thread_step ::
    "'r JobRepository \<Rightarrow> (string \<Rightarrow> string) \<Rightarrow> (float64 \<Rightarrow> string) \<Rightarrow> string \<Rightarrow> Time \<Rightarrow> (int \<Rightarrow> float64) \<Rightarrow> string
     \<Rightarrow> 'r \<times> slot option \<Rightarrow> 'r \<times> slot option" where
  "thread_step repo repr fstr w now el k (r, None) = (r, None)"
| "thread_step repo repr fstr w now el k (r, Some sl) =
     (case sl_phase sl of
        Starting \<Rightarrow>
          (case api_call repo (ApiStarted now w) k r of
             (rep, r') \<Rightarrow> (r', Some (sl\<lparr>sl_phase := after_started repr fstr (of_reply rep) (sl_job sl)\<rparr>)))
      | Stepping cfg step \<Rightarrow>
          (r, Some (sl\<lparr>sl_phase := next_phase cfg (aj_timeout_seconds (sl_job sl)) (sl_event sl) (el step) step\<rparr>))
      | Reporting out \<Rightarrow> (snd (api_call repo (outcome_report w now out) k r), Some (sl\<lparr>sl_phase := Leaving\<rparr>))
      | Leaving \<Rightarrow> (r, None)
      | Died e \<Rightarrow> (r, Some sl))"

definition put_slot :: "string \<Rightarrow> slot option \<Rightarrow> agent \<Rightarrow> agent" where
  "put_slot k x a = (case x of None \<Rightarrow> pop_job k a | Some sl \<Rightarrow> a\<lparr>running_jobs := AList.update k sl (running_jobs a)\<rparr>)"

lemma put_slot_lookup [simp]: "map_of (running_jobs (put_slot k x a)) k = x"
  by (simp add: put_slot_def pop_job_def update_conv' delete_conv' split: option.split)

text \<open>Its steps are steps of the agent.\<close>

lemma thread_step_agent:
  assumes "map_of (running_jobs a) k = Some sl" "\<nexists>e. sl_phase sl = Died e"
    "thread_step repo repr fstr w now el k (r, Some sl) = (r', x)"
  shows "agent_step wrepo mgr repo ttl repr fstr w gpus (s, r, a) (s, r', put_slot k x a)"
proof (cases "sl_phase sl")
  case Starting
  obtain rep r1 where c: "api_call repo (ApiStarted now w) k r = (rep, r1)" by (rule prod.exhaust)
  have "rpc_outcome (api_call repo (ApiStarted now w) k r) r (of_reply rep) r1" unfolding c rpc_outcome_def by simp
  from agent_step.started [OF assms(1) Starting this,
      where wrepo = wrepo and mgr = mgr and ttl = ttl and repr = repr and fstr = fstr and gpus = gpus and s = s] assms(3) Starting c show ?thesis
    by (auto simp: put_slot_def set_phase_def)
next
  case (Stepping cfg step)
  from agent_step.stepped [OF assms(1) Stepping, of wrepo mgr repo ttl repr fstr w gpus s r "el step"] assms(3) Stepping show ?thesis
    by (auto simp: put_slot_def set_phase_def)
next
  case (Reporting out)
  let ?c = "api_call repo (outcome_report w now out) k r"
  have "rpc_outcome ?c r (of_reply (fst ?c)) (snd ?c)" by (simp add: rpc_outcome_def)
  from agent_step.reported [OF assms(1) Reporting this,
      where wrepo = wrepo and mgr = mgr and ttl = ttl and repr = repr and fstr = fstr and gpus = gpus and s = s] assms(3) Reporting show ?thesis
    by (auto simp: put_slot_def set_phase_def)
next
  case Leaving
  from agent_step.popped [OF assms(1) Leaving, of wrepo mgr repo ttl repr fstr w gpus s r] assms(3) Leaving show ?thesis
    by (auto simp: put_slot_def)
qed (use assms(2) in simp)

lemma thread_run_agent:
  assumes "map_of (running_jobs a) k = x" "((thread_step repo repr fstr w now el k) ^^ n) (r, x) = (r', x')"
  shows "\<exists>a'. (agent_step wrepo mgr repo ttl repr fstr w gpus)\<^sup>*\<^sup>* (s, r, a) (s, r', a') \<and> map_of (running_jobs a') k = x'
    \<and> inbox a' = inbox a \<and> stops a' = stops a"
  using assms
proof (induction n arbitrary: r a x)
  case (Suc n)
  obtain r1 x1 where one: "thread_step repo repr fstr w now el k (r, x) = (r1, x1)" by (rule prod.exhaust)
  have rest: "((thread_step repo repr fstr w now el k) ^^ n) (r1, x1) = (r', x')"
    using Suc.prems(2) one by (simp add: funpow_swap1)
  show ?case
  proof (cases "\<exists>sl. x = Some sl \<and> (\<nexists>e. sl_phase sl = Died e)")
    case True
    then obtain sl where sl: "x = Some sl" "\<nexists>e. sl_phase sl = Died e" by blast
    have "agent_step wrepo mgr repo ttl repr fstr w gpus (s, r, a) (s, r1, put_slot k x1 a)"
      by (rule thread_step_agent [OF _ sl(2)]) (use Suc.prems(1) one sl in simp_all)
    moreover obtain a' where "(agent_step wrepo mgr repo ttl repr fstr w gpus)\<^sup>*\<^sup>* (s, r1, put_slot k x1 a) (s, r', a')"
      "map_of (running_jobs a') k = x'" "inbox a' = inbox (put_slot k x1 a)" "stops a' = stops (put_slot k x1 a)"
      using Suc.IH [OF put_slot_lookup rest] by blast
    moreover have "inbox (put_slot k x1 a) = inbox a" "stops (put_slot k x1 a) = stops a"
      by (simp_all add: put_slot_def pop_job_def split: option.split)
    ultimately show ?thesis by (metis converse_rtranclp_into_rtranclp)
  next
    case False
    then have "r1 = r \<and> x1 = x" using one by (cases x) auto
    with Suc.IH [OF Suc.prems(1)] rest show ?thesis by blast
  qed
qed auto

text \<open>The rounds of the executor are those of \<open>run_steps\<close>.\<close>

lemma stepping_run:
  assumes "sl_phase sl = Stepping cfg step" "time_sleep (ex_step_seconds cfg) = None" "step + int n = ex_steps cfg + 1"
    "fst (run_steps cfg (aj_timeout_seconds (sl_job sl)) None (Some (\<lambda>_. sl_event sl)) el n step u) = Inr out"
  shows "\<exists>m \<le> Suc n. ((thread_step repo repr fstr w now el k) ^^ m) (r, Some sl) = (r, Some (sl\<lparr>sl_phase := Reporting out\<rparr>))"
  using assms
proof (induction n arbitrary: step sl u)
  case 0
  then have "thread_step repo repr fstr w now el k (r, Some sl) = (r, Some (sl\<lparr>sl_phase := Reporting out\<rparr>))"
    by (simp add: next_phase_def)
  then show ?case by (intro exI [of _ 1]) simp
next
  case (Suc n)
  let ?checks = "step_checks cfg (aj_timeout_seconds (sl_job sl)) (sl_event sl) (el step) step"
  show ?case
  proof (cases ?checks)
    case (Some o')
    then have "thread_step repo repr fstr w now el k (r, Some sl) = (r, Some (sl\<lparr>sl_phase := Reporting out\<rparr>))"
      using Suc.prems by (simp add: next_phase_def)
    then show ?thesis by (intro exI [of _ 1]) simp
  next
    case None
    let ?sl = "sl\<lparr>sl_phase := Stepping cfg (step + 1)\<rparr>"
    have one: "thread_step repo repr fstr w now el k (r, Some sl) = (r, Some ?sl)"
      using None Suc.prems by (simp add: next_phase_def)
    have "\<exists>m \<le> Suc n. ((thread_step repo repr fstr w now el k) ^^ m) (r, Some ?sl) = (r, Some (?sl\<lparr>sl_phase := Reporting out\<rparr>))"
      by (rule Suc.IH [of _ "step + 1" u]) (use None Suc.prems in simp_all)
    then obtain m where "m \<le> Suc n" "((thread_step repo repr fstr w now el k) ^^ m) (r, Some ?sl) = (r, Some (sl\<lparr>sl_phase := Reporting out\<rparr>))"
      by auto
    with one show ?thesis by (intro exI [of _ "Suc m"]) (simp add: funpow_swap1)
  qed
qed

section \<open>The orders of a heartbeat\<close>

definition new_slot :: "AssignedJob \<Rightarrow> slot" where
  "new_slot job = \<lparr>sl_job = job, sl_phase = Starting, sl_event = False\<rparr>"

definition kept_or_new :: "slot option \<Rightarrow> slot option \<Rightarrow> slot option" where
  "kept_or_new old new = (case old of Some sl \<Rightarrow> Some sl | None \<Rightarrow> new)"

lemma kept_or_new_simps [simp]:
  "kept_or_new (Some sl) new = Some sl" "kept_or_new None new = new" "kept_or_new old None = old"
  by (simp_all add: kept_or_new_def split: option.split)

lemma take_assigned_slots:
  "map_of (running_jobs (take_assigned job rest a)) k =
     kept_or_new (map_of (running_jobs a) k) (if k = aj_job_id job then Some (new_slot job) else None)"
proof (cases "aj_job_id job \<in> fst ` set (running_jobs a)")
  case True
  then obtain sl where "map_of (running_jobs a) (aj_job_id job) = Some sl" by (auto simp: map_of_eq_None_iff dest: weak_map_of_SomeI)
  with True show ?thesis by (cases "map_of (running_jobs a) k") (auto simp: take_assigned_def)
next
  case False
  then have "map_of (running_jobs a) (aj_job_id job) = None" by (simp add: map_of_eq_None_iff)
  with False show ?thesis
    by (cases "map_of (running_jobs a) k") (auto simp: take_assigned_def start_job_def update_conv' new_slot_def)
qed

lemma take_assigned_rest [simp]: "inbox (take_assigned job rest a) = rest" "stops (take_assigned job rest a) = stops a"
  by (simp_all add: take_assigned_def start_job_def)

lemma take_stop_slots:
  "map_of (running_jobs (take_stop k' rest a)) k =
     map_option (\<lambda>sl. if k = k' then sl\<lparr>sl_event := True\<rparr> else sl) (map_of (running_jobs a) k)"
  by (cases "map_of (running_jobs a) k"; cases "map_of (running_jobs a) k'") (auto simp: take_stop_def update_conv')

lemma take_stop_rest [simp]: "inbox (take_stop k rest a) = inbox a" "stops (take_stop k rest a) = rest"
  by (simp_all add: take_stop_def split: option.split)

lemma drain_inbox:
  "\<exists>a'. (agent_step wrepo mgr repo ttl repr fstr w gpus)\<^sup>*\<^sup>* (s, r, a) (s, r, a') \<and> inbox a' = [] \<and> stops a' = stops a
     \<and> (\<forall>k. map_of (running_jobs a') k =
          kept_or_new (map_of (running_jobs a) k) (map_option new_slot (find (\<lambda>job. aj_job_id job = k) (inbox a))))"
proof (induction "inbox a" arbitrary: a)
  case Nil
  show ?case by (rule exI [of _ a]) (use Nil in \<open>auto split: option.split\<close>)
next
  case (Cons job rest)
  have "agent_step wrepo mgr repo ttl repr fstr w gpus (s, r, a) (s, r, take_assigned job rest a)"
    by (rule agent_step.assigned) (use Cons in simp)
  moreover obtain a' where a': "(agent_step wrepo mgr repo ttl repr fstr w gpus)\<^sup>*\<^sup>* (s, r, take_assigned job rest a) (s, r, a')"
    "inbox a' = []" "stops a' = stops a"
    "\<And>k. map_of (running_jobs a') k = kept_or_new (map_of (running_jobs (take_assigned job rest a)) k)
       (map_option new_slot (find (\<lambda>job. aj_job_id job = k) rest))"
    using Cons(1) [of "take_assigned job rest a"] by auto
  moreover have "map_of (running_jobs a') k = kept_or_new (map_of (running_jobs a) k)
      (map_option new_slot (find (\<lambda>job. aj_job_id job = k) (inbox a)))" for k
    using a'(4) [of k] by (cases "map_of (running_jobs a) k") (auto simp: take_assigned_slots simp flip: Cons(2))
  ultimately show ?case by (metis converse_rtranclp_into_rtranclp)
qed

lemma drain_stops:
  "inbox a = [] \<Longrightarrow>
   \<exists>a'. (agent_step wrepo mgr repo ttl repr fstr w gpus)\<^sup>*\<^sup>* (s, r, a) (s, r, a') \<and> inbox a' = [] \<and> stops a' = []
     \<and> (\<forall>k. map_of (running_jobs a') k =
          map_option (\<lambda>sl. if k \<in> set (stops a) then sl\<lparr>sl_event := True\<rparr> else sl) (map_of (running_jobs a) k))"
proof (induction "stops a" arbitrary: a)
  case Nil
  show ?case by (rule exI [of _ a]) (use Nil in \<open>auto simp flip: Nil(1) simp: option.map_ident\<close>)
next
  case (Cons k0 rest)
  have "agent_step wrepo mgr repo ttl repr fstr w gpus (s, r, a) (s, r, take_stop k0 rest a)"
    by (rule agent_step.stop) (use Cons in simp_all)
  moreover obtain a' where a': "(agent_step wrepo mgr repo ttl repr fstr w gpus)\<^sup>*\<^sup>* (s, r, take_stop k0 rest a) (s, r, a')"
    "inbox a' = []" "stops a' = []"
    "\<And>k. map_of (running_jobs a') k =
       map_option (\<lambda>sl. if k \<in> set rest then sl\<lparr>sl_event := True\<rparr> else sl) (map_of (running_jobs (take_stop k0 rest a)) k)"
    using Cons(1) [of "take_stop k0 rest a"] Cons(3) by auto
  moreover have "map_of (running_jobs a') k =
      map_option (\<lambda>sl. if k \<in> set (stops a) then sl\<lparr>sl_event := True\<rparr> else sl) (map_of (running_jobs a) k)" for k
    using a'(4) [of k] Cons(2) by (cases "map_of (running_jobs a) k") (auto simp: take_stop_slots simp flip: Cons(2))
  ultimately show ?case by (metis converse_rtranclp_into_rtranclp)
qed

text \<open>One round of the heartbeat loop, from an accepted heartbeat to the next sleep.\<close>

lemma heartbeat_round:
  assumes "inbox a = []" "stops a = []"
    "WorkerHeartbeat wrepo mgr repo ttl now (heartbeat_request w gpus (map fst (running_jobs a))) s r = ((Inr resp, logs), s')"
  shows "\<exists>a'. (agent_step wrepo mgr repo ttl repr fstr w gpus)\<^sup>*\<^sup>* (s, r, a) (s', r, a') \<and> inbox a' = [] \<and> stops a' = []
    \<and> (\<forall>k. map_of (running_jobs a') k =
         map_option (\<lambda>sl. if k \<in> set (hbr_stop_job_ids resp) then sl\<lparr>sl_event := True\<rparr> else sl)
           (kept_or_new (map_of (running_jobs a) k)
              (map_option new_slot (find (\<lambda>job. aj_job_id job = k) (hr_assigned_jobs (heartbeat_result resp))))))"
proof -
  let ?step = "agent_step wrepo mgr repo ttl repr fstr w gpus"
  let ?a = "receive (heartbeat_result resp) a"
  have "rpc_outcome ((Inr resp, logs), s') s (Reply resp) s'" by (simp add: rpc_outcome_def)
  from agent_step.heartbeat [OF assms this, of repr fstr] have one: "?step (s, r, a) (s', r, ?a)" by simp
  obtain b where b: "?step\<^sup>*\<^sup>* (s', r, ?a) (s', r, b)" "inbox b = []" "stops b = stops ?a"
    "\<forall>k. map_of (running_jobs b) k = kept_or_new (map_of (running_jobs ?a) k)
       (map_option new_slot (find (\<lambda>job. aj_job_id job = k) (inbox ?a)))"
    using drain_inbox [of wrepo mgr repo ttl repr fstr w gpus s' r ?a] by blast
  obtain c where c: "?step\<^sup>*\<^sup>* (s', r, b) (s', r, c)" "inbox c = []" "stops c = []"
    "\<forall>k. map_of (running_jobs c) k =
       map_option (\<lambda>sl. if k \<in> set (stops b) then sl\<lparr>sl_event := True\<rparr> else sl) (map_of (running_jobs b) k)"
    using drain_stops [OF b(2), of wrepo mgr repo ttl repr fstr w gpus s' r] by blast
  have "?step\<^sup>*\<^sup>* (s, r, a) (s', r, c)" using one b(1) c(1) by (meson converse_rtranclp_into_rtranclp rtranclp_trans)
  then show ?thesis using b c by (intro exI [of _ c]) (simp add: receive_def heartbeat_result_def)
qed

section \<open>The steps a thread has left\<close>

fun phase_left :: "(string \<Rightarrow> string) \<Rightarrow> (float64 \<Rightarrow> string) \<Rightarrow> AssignedJob \<Rightarrow> thread_phase \<Rightarrow> nat" where
  "phase_left repr fstr job Starting =
     (case parse_command repr fstr (aj_command job) of Inl e \<Rightarrow> 2 | Inr cfg \<Rightarrow> nat (ex_steps cfg) + 4)"
| "phase_left repr fstr job (Stepping cfg step) = nat (ex_steps cfg + 1 - step) + 3"
| "phase_left repr fstr job (Reporting out) = 2"
| "phase_left repr fstr job Leaving = 1"
| "phase_left repr fstr job (Died e) = 0"

lemma after_started_left: "phase_left repr fstr job (after_started repr fstr x job) < phase_left repr fstr job Starting"
  by (simp add: after_started_def split: sum.split)

lemma next_phase_left:
  "phase_left repr fstr job (next_phase cfg timeout event elapsed step) < phase_left repr fstr job (Stepping cfg step)"
  by (simp add: next_phase_def split: option.split)

text \<open>What a step of the agent makes of the entry of a job.\<close>

definition entry_moves :: "(string \<Rightarrow> string) \<Rightarrow> (float64 \<Rightarrow> string) \<Rightarrow> slot \<Rightarrow> slot option \<Rightarrow> bool" where
  "entry_moves repr fstr sl x \<longleftrightarrow>
     (case x of
        None \<Rightarrow> sl_phase sl = Leaving
      | Some sl' \<Rightarrow> sl_job sl' = sl_job sl \<and> sl_event sl' = sl_event sl
          \<and> phase_left repr fstr (sl_job sl) (sl_phase sl') < phase_left repr fstr (sl_job sl) (sl_phase sl))"

definition entry_stays :: "slot \<Rightarrow> slot option \<Rightarrow> bool" where
  "entry_stays sl x \<longleftrightarrow> (case x of None \<Rightarrow> False | Some sl' \<Rightarrow> sl_job sl' = sl_job sl \<and> sl_phase sl' = sl_phase sl \<and> (sl_event sl \<longrightarrow> sl_event sl'))"

lemma entry_step:
  assumes "agent_step wrepo mgr repo ttl repr fstr w gpus (s, r, a) (s', r', a')" "map_of (running_jobs a) k = Some sl"
  shows "entry_moves repr fstr sl (map_of (running_jobs a') k) \<or> entry_stays sl (map_of (running_jobs a') k)"
  using assms(1)
proof (cases rule: agent_stepE)
  case (heartbeat now rep s1 x)
  then show ?thesis using assms(2) by (cases x) (simp_all add: receive_def entry_stays_def)
next
  case (assigned job rest)
  then show ?thesis using assms(2) by (simp add: take_assigned_slots entry_stays_def)
next
  case (stop k' rest)
  then show ?thesis using assms(2) by (simp add: take_stop_slots entry_stays_def)
next
  case (started k' sl' now x)
  then show ?thesis using assms(2) after_started_left [of repr fstr "sl_job sl" x]
    by (cases "k = k'") (simp_all add: set_phase_def update_conv' entry_stays_def entry_moves_def del: phase_left.simps)
next
  case (stepped k' sl' cfg step elapsed)
  then show ?thesis using assms(2) next_phase_left [of repr fstr "sl_job sl" cfg "aj_timeout_seconds (sl_job sl)" "sl_event sl" elapsed step]
    by (cases "k = k'") (simp_all add: set_phase_def update_conv' entry_stays_def entry_moves_def del: phase_left.simps)
next
  case (reported k' sl' out now x)
  then show ?thesis using assms(2)
    by (cases "k = k'") (simp_all add: set_phase_def update_conv' entry_stays_def entry_moves_def)
next
  case (popped k' sl')
  then show ?thesis using assms(2)
    by (cases "k = k'") (simp_all add: pop_job_def delete_conv' entry_stays_def entry_moves_def)
qed

lemma entry_progress:
  assumes "map_of (running_jobs a) k = Some sl" "\<nexists>e. sl_phase sl = Died e"
  shows "\<exists>r' a'. agent_step wrepo mgr repo ttl repr fstr w gpus (s, r, a) (s, r', a')
    \<and> entry_moves repr fstr sl (map_of (running_jobs a') k)"
proof -
  obtain r' x where t: "thread_step repo repr fstr w 0 (\<lambda>_. f_zero) k (r, Some sl) = (r', x)" by (rule prod.exhaust)
  from thread_step_agent [OF assms t, of wrepo mgr ttl gpus s]
  have "agent_step wrepo mgr repo ttl repr fstr w gpus (s, r, a) (s, r', put_slot k x a)" .
  moreover have "entry_moves repr fstr sl x"
    using t assms(2) after_started_left [of repr fstr "sl_job sl"] next_phase_left [of repr fstr "sl_job sl"]
    by (cases "sl_phase sl") (auto simp: entry_moves_def simp del: phase_left.simps(1,2) split: prod.splits)
  ultimately show ?thesis by (metis put_slot_lookup)
qed

end
