(* ===== verification/Api_Properties.thy ===== *)
theory Api_Properties
  imports Worker_Api Worker_Properties
begin

text \<open>
  What a client of the gRPC services and a worker can rely on: the status codes, the orders a heartbeat
  carries, what survives the trip over the wire and what a listing filter selects.
\<close>

section \<open>Status codes\<close>



section \<open>Heartbeats\<close>

lemma start_accepted:
  assumes "mem_ok r" "mem_jobs r k = Some j" "job_State j = StateScheduled" "k \<noteq> []"
  shows "\<exists>q r'. ReportJobStarted memory_repository t k w r = ((Inr q, []), r')
      \<and> pbj_id q = k \<and> pbj_state q = domainStateToPB StateRunning"
  using assms(1,4) by (cases rule: mem.api_outcome [where a = "ApiStarted t w"])
    (use assms mem_ok_id [OF assms(1)] in \<open>auto simp: Start_fn_def jobToProto_def\<close>)

lemma stop_accepted:
  assumes "mem_ok r" "mem_jobs r k = Some j" "job_State j \<in> {StateCancelRequested, StatePreempted}" "k \<noteq> []"
  shows "\<exists>q r'. ReportJobStopped memory_repository t k w r = ((Inr q, []), r')
      \<and> pbj_state q \<in> {domainStateToPB StateCancelled, domainStateToPB StateQueued}"
  using assms(1,4) by (cases rule: mem.api_outcome [where a = "ApiStopped t w"])
    (use assms in \<open>auto simp: ReportStopped_fn_def jobToProto_def\<close>)

definition ordered_sample :: Job where
  "ordered_sample = sample_job ''a'' StateScheduled 5 True (sample_request 1 0 1 1) [''w'']"

text \<open>C7.  A heartbeat the worker service accepts is always answered, and its orders are exactly
  right: the jobs to start are the SCHEDULED jobs assigned to that worker, each of which a start report
  then turns RUNNING; the jobs to stop are its CANCEL_REQUESTED and PREEMPTED ones, each of which a stop
  report settles as CANCELLED or QUEUED.\<close>

theorem heartbeat_orders:
  assumes "mem_ok r" "hb_worker_id req = w" "w \<noteq> []"
    "Heartbeat wrepo mgr ttl now w (gpusToDomain (hb_gpus req)) (hb_running_job_ids req) s = (Inr v, s')"
  shows "\<exists>resp. WorkerHeartbeat wrepo mgr memory_repository ttl now req s r = ((Inr resp, []), s')
    \<and> hbr_worker resp = workerToProto v
    \<and> (\<forall>p. p \<in> set (hbr_assigned_jobs resp) \<longleftrightarrow>
         (\<exists>k j. mem_jobs r k = Some j \<and> p = jobToProto j \<and> job_State j = StateScheduled
            \<and> w \<in> set (elems (job_AssignedWorkerIDs j))))
    \<and> (\<forall>k. k \<in> set (hbr_stop_job_ids resp) \<longleftrightarrow>
         (\<exists>j. mem_jobs r k = Some j \<and> job_State j \<in> {StateCancelRequested, StatePreempted}
            \<and> w \<in> set (elems (job_AssignedWorkerIDs j))))
    \<and> (\<forall>p \<in> set (hbr_assigned_jobs resp). pbj_id p \<noteq> [] \<longrightarrow>
         (\<exists>q r'. ReportJobStarted memory_repository t (pbj_id p) w r = ((Inr q, []), r')
            \<and> pbj_id q = pbj_id p \<and> pbj_state q = domainStateToPB StateRunning))
    \<and> (\<forall>k \<in> set (hbr_stop_job_ids resp). k \<noteq> [] \<longrightarrow>
         (\<exists>q r'. ReportJobStopped memory_repository t k w r = ((Inr q, []), r')
            \<and> pbj_state q \<in> {domainStateToPB StateCancelled, domainStateToPB StateQueued}))"
proof -
  obtain resp logs where resp: "WorkerHeartbeat wrepo mgr memory_repository ttl now req s r = ((Inr resp, logs), s')"
    "hbr_worker resp = workerToProto v"
    using WorkerHeartbeat_answers [of req wrepo mgr ttl now s v s' memory_repository r] assms(2-4) by auto
  note o = mem.WorkerHeartbeat_orders [OF assms(1) resp(1), unfolded assms(2)]
  have ident: "pbj_id (jobToProto j) = job_ID j" for j by (simp add: jobToProto_def)
  have filed: "(\<exists>k j. mem_jobs r k = Some j \<and> P k j) \<longleftrightarrow> (\<exists>j. mem_jobs r (job_ID j) = Some j \<and> P (job_ID j) j)" for P
    using mem_ok_id [OF assms(1)] by metis
  have start: "p \<in> set (hbr_assigned_jobs resp) \<longleftrightarrow>
         (\<exists>k j. mem_jobs r k = Some j \<and> p = jobToProto j \<and> job_State j = StateScheduled
            \<and> w \<in> set (elems (job_AssignedWorkerIDs j)))" for p
    using o by (auto simp: filed image_iff)
  have stop: "k \<in> set (hbr_stop_job_ids resp) \<longleftrightarrow>
         (\<exists>j. mem_jobs r k = Some j \<and> job_State j \<in> {StateCancelRequested, StatePreempted}
            \<and> w \<in> set (elems (job_AssignedWorkerIDs j)))" for k
    using o mem_ok_id [OF assms(1), of k] by (auto simp: image_iff)
  show ?thesis
  proof (intro exI [of _ resp] conjI)
    show "WorkerHeartbeat wrepo mgr memory_repository ttl now req s r = ((Inr resp, []), s')"
      using resp o by simp
    show "\<forall>p \<in> set (hbr_assigned_jobs resp). pbj_id p \<noteq> [] \<longrightarrow>
         (\<exists>q r'. ReportJobStarted memory_repository t (pbj_id p) w r = ((Inr q, []), r')
            \<and> pbj_id q = pbj_id p \<and> pbj_state q = domainStateToPB StateRunning)"
      using start start_accepted [OF assms(1)] mem_ok_id [OF assms(1)] by (fastforce simp: ident)
    show "\<forall>k \<in> set (hbr_stop_job_ids resp). k \<noteq> [] \<longrightarrow>
         (\<exists>q r'. ReportJobStopped memory_repository t k w r = ((Inr q, []), r')
            \<and> pbj_state q \<in> {domainStateToPB StateCancelled, domainStateToPB StateQueued})"
      using stop stop_accepted [OF assms(1)] by blast
  qed (use start stop resp(2) in simp_all)
qed

theorem heartbeat_orders_witness:
  "\<exists>resp s'. WorkerHeartbeat worker_memory_repository fake_manager memory_repository DefaultLeaseTTL 9
       \<lparr>hb_worker_id = ''w'', hb_gpus = None, hb_running_job_ids = None\<rparr>
       (worker_store [one_worker], NewFakeManager) (sample_store [ordered_sample]) = ((Inr resp, []), s')
     \<and> hbr_assigned_jobs resp \<noteq> []"
proof -
  obtain x w' l' where h: "Heartbeat worker_memory_repository fake_manager DefaultLeaseTTL 9 ''w'' None None
      (worker_store [one_worker], NewFakeManager) = (x, w', l')" by (rule prod_cases3)
  have v: "wmem_workers (worker_store [one_worker]) ''w'' = Some one_worker" by (simp add: one_worker_store(2))
  have room: "fake_room (Suc 0) NewFakeManager" by (rule fake_room_new) simp
  obtain u where u: "x = Inr u"
    using mem_workers.Heartbeat_known [OF one_worker_store(1) room v h] by auto
  have jobs: "mem_ok (sample_store [ordered_sample])" "mem_jobs (sample_store [ordered_sample]) ''a'' = Some ordered_sample"
    by (rule sample_store_ok) (simp_all add: ordered_sample_def sample_defs sample_store_def zero_job_def)
  have job: "job_State ordered_sample = StateScheduled" "''w'' \<in> set (elems (job_AssignedWorkerIDs ordered_sample))"
    by (simp_all add: ordered_sample_def sample_defs copy_slice_def)
  let ?req = "\<lparr>hb_worker_id = ''w'', hb_gpus = None, hb_running_job_ids = None\<rparr>"
  have "Heartbeat worker_memory_repository fake_manager DefaultLeaseTTL 9 ''w'' (gpusToDomain (hb_gpus ?req))
      (hb_running_job_ids ?req) (worker_store [one_worker], NewFakeManager) = (Inr u, w', l')"
    using h u by (simp add: gpusToDomain_def)
  from heartbeat_orders [OF jobs(1) _ _ this] obtain resp where resp:
    "WorkerHeartbeat worker_memory_repository fake_manager memory_repository DefaultLeaseTTL 9
       ?req (worker_store [one_worker], NewFakeManager) (sample_store [ordered_sample]) = ((Inr resp, []), w', l')"
    "\<And>p. p \<in> set (hbr_assigned_jobs resp) \<longleftrightarrow>
         (\<exists>k j. mem_jobs (sample_store [ordered_sample]) k = Some j \<and> p = jobToProto j \<and> job_State j = StateScheduled
            \<and> ''w'' \<in> set (elems (job_AssignedWorkerIDs j)))"
    by (metis WorkerHeartbeatRequest.select_convs(1) list.distinct(1))
  have "jobToProto ordered_sample \<in> set (hbr_assigned_jobs resp)"
    unfolding resp(2) using jobs(2) job by blast
  with resp(1) show ?thesis by (metis empty_iff list.set(1))
qed

section \<open>The wire\<close>



text \<open>A listing filter selects by state: with the number of a state, every job of the page is in
  it.  Any other number, zero or one the server does not know, filters nothing: the answer is that of a
  request without a filter.\<close>

theorem list_filter:
  assumes "mem_ok r"
  shows "(n \<in> {1..11} \<longrightarrow> ListJobs memory_repository (req\<lparr>lj_state_filter := n\<rparr>) r = (Inr resp, logs) \<longrightarrow>
            (\<forall>p \<in> set (ljr_jobs resp). pbj_state p = n))
    \<and> (n \<notin> {1..11} \<longrightarrow> ListJobs memory_repository (req\<lparr>lj_state_filter := n\<rparr>) r =
         ListJobs memory_repository (req\<lparr>lj_state_filter := 0\<rparr>) r)"
proof (intro conjI impI ballI)
  fix p assume n: "n \<in> {1..11}" and l: "ListJobs memory_repository (req\<lparr>lj_state_filter := n\<rparr>) r = (Inr resp, logs)"
    and p: "p \<in> set (ljr_jobs resp)"
  let ?f = "pbStateToDomain n"
  have f: "?f \<noteq> StateZero" using n by (simp add: pbState_range)
  obtain page nxt where pg: "page_slice (mem_listing ?f r) (lj_page_size req) (lj_page_token req) = Inr (page, nxt)"
    "ljr_jobs resp = map jobToProto page"
    using l n by (auto simp: ListJobs_def List_jobs_def list_options_def mem_List_def failed_def answer_def split: sum.splits)
  then obtain j where j: "j \<in> set page" "p = jobToProto j" using p by auto
  from j(1) page_slice_subset [OF pg(1)] have "j \<in> set (mem_listing ?f r)" by blast
  then have "job_State j = ?f" using mem_listing_set [OF assms, of ?f] f by simp
  then show "pbj_state p = n" using j(2) domainState_pb [OF n] by (simp add: jobToProto_def)
next
  assume "n \<notin> {1..11}"
  then have "pbStateToDomain n = StateZero" using pbState_range [of n] by blast
  then show "ListJobs memory_repository (req\<lparr>lj_state_filter := n\<rparr>) r =
      ListJobs memory_repository (req\<lparr>lj_state_filter := 0\<rparr>) r"
    by (simp add: ListJobs_def list_options_def)
qed

theorem list_filter_witness:
  "ListJobs memory_repository \<lparr>lj_page_size = 0, lj_page_token = [], lj_state_filter = 12\<rparr> (sample_store [ordered_sample]) =
   ListJobs memory_repository \<lparr>lj_page_size = 0, lj_page_token = [], lj_state_filter = 0\<rparr> (sample_store [ordered_sample])"
proof -
  have "mem_ok (sample_store [ordered_sample])"
    by (rule sample_store_ok) (simp_all add: ordered_sample_def sample_defs zero_job_def)
  from list_filter [OF this, of 12 "\<lparr>lj_page_size = 0, lj_page_token = [], lj_state_filter = 0\<rparr>"] show ?thesis by simp
qed

text \<open>A page token that does not decode is reported as an internal error, although the request is at
  fault.\<close>

theorem bad_page_token_is_internal:
  "api_code (ListJobs memory_repository \<lparr>lj_page_size = 0, lj_page_token = ''!'', lj_state_filter = 0\<rparr> NewMemoryRepository)
     = Some Internal"
  by code_simp

end
