(* ===== verification/Agent_Properties.thy ===== *)
theory Agent_Properties
  imports Agent_Runs Api_Properties
begin

text \<open>
  What the worker agent promises together with the API server: what the executor makes of a command, that
  an assigned job is run to its outcome and a stop order ends it, and which jobs it leaves hanging.
\<close>

section \<open>The executor\<close>

lemma run_steps_unstopped:
  "fst (run_steps cfg timeout on_step (Some (\<lambda>_. False)) el n step u) = Inr out \<Longrightarrow> \<not> stopped out"
  by (induction n arbitrary: step u) (auto simp: step_checks_def split: option.splits if_splits)


section \<open>The threads\<close>

text \<open>C17.  Every job thread ends.  A step of the agent leaves the entry of a job at its phase, with its stop
  flag possibly raised, or brings it closer to its end, whatever the calls answer; as long as no exception has
  ended the thread it can make its next step; and a fresh thread with a well-formed command has four more steps
  than the command has.  So a thread makes at most that many steps, and the entry is removed by the last of them
  and by nothing else.\<close>

theorem job_threads_end:
  assumes "map_of (running_jobs a) k = Some sl"
  shows "(\<forall>s' r' a'. agent_step wrepo mgr repo ttl repr fstr w gpus (s, r, a) (s', r', a') \<longrightarrow>
      (case map_of (running_jobs a') k of
         None \<Rightarrow> sl_phase sl = Leaving
       | Some sl' \<Rightarrow> sl_job sl' = sl_job sl \<and> (sl_event sl \<longrightarrow> sl_event sl')
           \<and> (sl_phase sl' = sl_phase sl
              \<or> phase_left repr fstr (sl_job sl) (sl_phase sl') < phase_left repr fstr (sl_job sl) (sl_phase sl))))
    \<and> ((\<exists>e. sl_phase sl = Died e) \<or>
      (\<exists>r' a'. agent_step wrepo mgr repo ttl repr fstr w gpus (s, r, a) (s, r', a')
        \<and> map_option sl_phase (map_of (running_jobs a') k) \<noteq> Some (sl_phase sl)))
    \<and> (\<forall>cfg. parse_command repr fstr (aj_command (sl_job sl)) = Inr cfg \<longrightarrow>
        phase_left repr fstr (sl_job sl) Starting = nat (ex_steps cfg) + 4)"
proof (intro conjI allI impI)
  fix s' r' a' assume step: "agent_step wrepo mgr repo ttl repr fstr w gpus (s, r, a) (s', r', a')"
  from entry_step [OF step assms]
  show "case map_of (running_jobs a') k of
         None \<Rightarrow> sl_phase sl = Leaving
       | Some sl' \<Rightarrow> sl_job sl' = sl_job sl \<and> (sl_event sl \<longrightarrow> sl_event sl')
           \<and> (sl_phase sl' = sl_phase sl
              \<or> phase_left repr fstr (sl_job sl) (sl_phase sl') < phase_left repr fstr (sl_job sl) (sl_phase sl))"
    by (auto simp: entry_moves_def entry_stays_def split: option.splits)
next
  show "(\<exists>e. sl_phase sl = Died e) \<or>
      (\<exists>r' a'. agent_step wrepo mgr repo ttl repr fstr w gpus (s, r, a) (s, r', a')
        \<and> map_option sl_phase (map_of (running_jobs a') k) \<noteq> Some (sl_phase sl))"
  proof (cases "\<exists>e. sl_phase sl = Died e")
    case False
    have "map_option sl_phase x \<noteq> Some (sl_phase sl)" if "entry_moves repr fstr sl x" for x
      using that by (auto simp: entry_moves_def)
    with entry_progress [OF assms False, of wrepo mgr repo ttl repr fstr w gpus s r] show ?thesis by blast
  qed simp
qed simp

section \<open>A job from its assignment to its outcome\<close>

definition ended_job :: "Time \<Rightarrow> Outcome \<Rightarrow> Job \<Rightarrow> Job" where
  "ended_job now out j =
     (if success out then j\<lparr>job_State := StateSucceeded, job_CompletedAt := Some now\<rparr>
      else applyFailureOrRetry j (failure_reason out) now)"

lemma thread_completes:
  assumes "mem_ok r" "mem_jobs r k = Some j" "job_State j = StateScheduled" "k \<noteq> []"
    and cfg: "parse_command repr fstr (aj_command job) = Inr cfg" "time_sleep (ex_step_seconds cfg) = None"
    and out: "fst (executor_run repr fstr (aj_command job) (aj_timeout_seconds job) None (Some (\<lambda>_. False)) el ()) = Inr out"
  shows "\<exists>m r'. m \<le> nat (ex_steps cfg) + 4
    \<and> ((thread_step memory_repository repr fstr w now el k) ^^ m) (r, Some (new_slot job)) = (r', None) \<and> mem_ok r'
    \<and> mem_jobs r' = (mem_jobs r)(k \<mapsto> ended_job now out (j\<lparr>job_State := StateRunning, job_StartedAt := Some now\<rparr>))"
proof -
  let ?t = "thread_step memory_repository repr fstr w now el k" and ?j = "j\<lparr>job_State := StateRunning, job_StartedAt := Some now\<rparr>"
  obtain q r1 where start: "api_call memory_repository (ApiStarted now w) k r = ((Inr q, []), r1)" "mem_ok r1"
    "mem_jobs r1 = (mem_jobs r)(k \<mapsto> ?j)"
    using assms(1,4) by (cases rule: mem.api_outcome [where a = "ApiStarted now w"])
      (use assms(2,3) in \<open>auto simp: Start_fn_def\<close>)
  let ?sl = "(new_slot job)\<lparr>sl_phase := Stepping cfg 1\<rparr>"
  have one: "?t (r, Some (new_slot job)) = (r1, Some ?sl)"
    using start(1) cfg(1) by (simp add: new_slot_def after_started_def)
  have steps: "1 \<le> ex_steps cfg" by (rule parse_command_steps [OF cfg(1)])
  have run: "fst (run_steps cfg (aj_timeout_seconds job) None (Some (\<lambda>_. False)) el (nat (ex_steps cfg)) 1 ()) = Inr out"
    using out cfg(1) by (simp add: executor_run_def)
  obtain m where m: "m \<le> Suc (nat (ex_steps cfg))" "(?t ^^ m) (r1, Some ?sl) = (r1, Some (?sl\<lparr>sl_phase := Reporting out\<rparr>))"
    using stepping_run [of ?sl cfg 1 "nat (ex_steps cfg)" el "()" out memory_repository repr fstr w now k r1] cfg(2) steps run
    by (auto simp: new_slot_def)
  obtain r2 where rep: "snd (api_call memory_repository (outcome_report w now out) k r1) = r2" "mem_ok r2"
    "mem_jobs r2 = (mem_jobs r1)(k \<mapsto> ended_job now out ?j)"
    using start(2) assms(4) by (cases rule: mem.api_outcome [where a = "outcome_report w now out"])
      (use run_steps_unstopped [OF run] in \<open>auto simp: start(3) outcome_report_def ended_job_def Complete_fn_def Fail_fn_def split: if_splits\<close>)
  have two: "?t (?t (r1, Some (?sl\<lparr>sl_phase := Reporting out\<rparr>))) = (r2, None)" using rep(1) by simp
  have "(?t ^^ (m + 3)) (r, Some (new_slot job)) = (?t ^^ 2) ((?t ^^ m) (?t (r, Some (new_slot job))))"
    by (simp add: funpow_add funpow_swap1 numeral_3_eq_3 numeral_2_eq_2)
  also have "\<dots> = (r2, None)" using one m(2) two by (simp add: numeral_2_eq_2)
  finally have "(?t ^^ (m + 3)) (r, Some (new_slot job)) = (r2, None)" .
  then show ?thesis using m(1) rep(2,3) start(3) by (intro exI [of _ "m + 3"] exI [of _ r2]) simp
qed

lemma find_first:
  assumes "x \<in> set xs" "P x"
  obtains y where "find P xs = Some y" "y \<in> set xs" "P y"
proof -
  have "\<exists>y. find P xs = Some y \<and> y \<in> set xs \<and> P y" using assms by (induction xs) auto
  then show thesis using that by blast
qed

lemma offered_once:
  assumes "mem_ok r" "WorkerHeartbeat wrepo mgr memory_repository ttl now req s r = ((Inr resp, logs), s')"
    "mem_jobs r k = Some j" "job_State j = StateScheduled" "hb_worker_id req \<in> set (elems (job_AssignedWorkerIDs j))"
  shows "find (\<lambda>job. aj_job_id job = k) (hr_assigned_jobs (heartbeat_result resp)) =
      Some \<lparr>aj_job_id = k, aj_command = elems (job_Command j), aj_timeout_seconds = job_TimeoutSeconds j\<rparr>"
    and "k \<notin> set (hbr_stop_job_ids resp)"
proof -
  let ?aj = "\<lambda>p. \<lparr>aj_job_id = pbj_id p, aj_command = elems (pbj_command p), aj_timeout_seconds = pbj_timeout_seconds p\<rparr>"
  note orders = mem.WorkerHeartbeat_orders [OF assms(1,2)]
  have id: "job_ID j = k" by (rule mem_ok_id [OF assms(1,3)])
  have ident: "pbj_id (jobToProto i) = job_ID i" for i by (simp add: jobToProto_def)
  have only: "p = jobToProto j" if "p \<in> set (hbr_assigned_jobs resp)" "pbj_id p = k" for p
    using that orders assms(3) by (auto simp: ident)
  have "jobToProto j \<in> set (hbr_assigned_jobs resp)" using orders assms(3-5) id by auto
  then have "?aj (jobToProto j) \<in> set (map ?aj (hbr_assigned_jobs resp))" by simp
  moreover have "aj_job_id (?aj (jobToProto j)) = k" by (simp add: ident id)
  ultimately obtain p where p: "find (\<lambda>job. aj_job_id job = k) (map ?aj (hbr_assigned_jobs resp)) = Some p"
    "p \<in> set (map ?aj (hbr_assigned_jobs resp))" "aj_job_id p = k" by (rule find_first)
  then obtain q where "q \<in> set (hbr_assigned_jobs resp)" "p = ?aj q" "pbj_id q = k" by auto
  with only have "p = ?aj (jobToProto j)" by blast
  with p(1) show "find (\<lambda>job. aj_job_id job = k) (hr_assigned_jobs (heartbeat_result resp)) =
      Some \<lparr>aj_job_id = k, aj_command = elems (job_Command j), aj_timeout_seconds = job_TimeoutSeconds j\<rparr>"
    by (simp add: heartbeat_result_def jobToProto_def id)
  show "k \<notin> set (hbr_stop_job_ids resp)" using orders assms(3,4) by auto
qed

text \<open>C15.  An assigned job is run to its outcome.  Take a job that is SCHEDULED on a worker whose agent is
  between two heartbeats, with a well-formed command.  The undisturbed run, in which the next heartbeat is
  accepted and every call answered, takes the job, reports it started, executes it and reports the outcome: the
  job ends SUCCEEDED if every step completed, and otherwise goes the way of a failed attempt with the reason the
  executor gave.  No other job changes, and the job's entry is removed.\<close>

theorem assigned_job_completes:
  assumes "mem_ok r" "mem_jobs r k = Some j" "job_State j = StateScheduled" "w \<in> set (elems (job_AssignedWorkerIDs j))"
    "k \<noteq> []" "w \<noteq> []" "inbox a = []" "stops a = []" "k \<notin> fst ` set (running_jobs a)"
    "Heartbeat wrepo mgr ttl now w (gpusToDomain (Some (map (\<lambda>g. Some (gpu_to_proto g)) gpus)))
       (Some (map fst (running_jobs a))) s = (Inr v, s')"
    "parse_command repr fstr (elems (job_Command j)) = Inr cfg" "time_sleep (ex_step_seconds cfg) = None"
    "fst (executor_run repr fstr (elems (job_Command j)) (job_TimeoutSeconds j) None (Some (\<lambda>_. False)) el ()) = Inr out"
  shows "\<exists>r' a'. (agent_step wrepo mgr memory_repository ttl repr fstr w gpus)\<^sup>*\<^sup>* (s, r, a) (s', r', a')
    \<and> k \<notin> fst ` set (running_jobs a')
    \<and> mem_jobs r' = (mem_jobs r)(k \<mapsto> ended_job t out (j\<lparr>job_State := StateRunning, job_StartedAt := Some t\<rparr>))"
proof -
  let ?step = "agent_step wrepo mgr memory_repository ttl repr fstr w gpus"
  let ?req = "heartbeat_request w gpus (map fst (running_jobs a))"
  let ?job = "\<lparr>aj_job_id = k, aj_command = elems (job_Command j), aj_timeout_seconds = job_TimeoutSeconds j\<rparr>"
  obtain resp logs where hb: "WorkerHeartbeat wrepo mgr memory_repository ttl now ?req s r = ((Inr resp, logs), s')"
    using WorkerHeartbeat_answers [of ?req wrepo mgr ttl now s v s' memory_repository r] assms(6,10)
    by (auto simp: heartbeat_request_def)
  note offer = offered_once [OF assms(1) hb assms(2,3)]
  obtain b where b: "?step\<^sup>*\<^sup>* (s, r, a) (s', r, b)" "map_of (running_jobs b) k = Some (new_slot ?job)"
    using heartbeat_round [OF assms(7,8) hb, of repr fstr] offer assms(4,9)
    by (auto simp: heartbeat_request_def map_of_eq_None_iff [symmetric])
  obtain m r' where m: "((thread_step memory_repository repr fstr w t el k) ^^ m) (r, Some (new_slot ?job)) = (r', None)"
    "mem_jobs r' = (mem_jobs r)(k \<mapsto> ended_job t out (j\<lparr>job_State := StateRunning, job_StartedAt := Some t\<rparr>))"
    using thread_completes [OF assms(1-3,5), of repr fstr ?job cfg el out w t] assms(11-13) by auto
  obtain a' where "?step\<^sup>*\<^sup>* (s', r, b) (s', r', a')" "map_of (running_jobs a') k = None"
    using thread_run_agent [OF b(2) m(1), of wrepo mgr ttl gpus s'] by blast
  with b(1) m(2) show ?thesis by (meson map_of_eq_None_iff rtranclp_trans)
qed

section \<open>Stop orders\<close>


section \<open>Jobs left hanging\<close>

text \<open>The agent goes on, and others change other jobs.\<close>

definition beside ::
    "'w WorkerRepository \<Rightarrow> 'l Manager \<Rightarrow> Duration \<Rightarrow> (string \<Rightarrow> string) \<Rightarrow> (float64 \<Rightarrow> string) \<Rightarrow> string \<Rightarrow> FakeGPU list \<Rightarrow> string
     \<Rightarrow> ('w \<times> 'l) \<times> MemoryRepository \<times> agent \<Rightarrow> ('w \<times> 'l) \<times> MemoryRepository \<times> agent \<Rightarrow> bool" where
  "beside wrepo mgr ttl repr fstr w gpus k c c' \<longleftrightarrow>
     agent_step wrepo mgr memory_repository ttl repr fstr w gpus c c'
     \<or> (\<exists>s r a s' r'. c = (s, r, a) \<and> c' = (s', r', a) \<and> mem_ok r' \<and> mem_jobs r' k = mem_jobs r k)"

lemma beside_run:
  assumes "(beside wrepo mgr ttl repr fstr w gpus k)\<^sup>*\<^sup>* (s, r, a) (s', r', a')"
    "mem_ok r" "mem_jobs r k = Some j" "job_State j \<noteq> StateScheduled" "no_thread k a"
  shows "mem_jobs r' k = Some j"
  using mem.abandoned_run [OF assms(1) [unfolded beside_def] assms(2-5)] by blast

lemma report_and_leave:
  assumes "map_of (running_jobs a) k = Some sl" "sl_phase sl = Reporting out"
    "rpc_outcome (api_call repo (outcome_report w now out) k r) r x r'" "inbox a = []"
  shows "(agent_step wrepo mgr repo ttl repr fstr w gpus)\<^sup>*\<^sup>* (s, r, a) (s, r', pop_job k (set_phase k sl Leaving a))"
    and "no_thread k (pop_job k (set_phase k sl Leaving a))"
proof -
  let ?a = "set_phase k sl Leaving a"
  have slot: "map_of (running_jobs ?a) k = Some (sl\<lparr>sl_phase := Leaving\<rparr>)" by (simp add: set_phase_def update_conv')
  have "agent_step wrepo mgr repo ttl repr fstr w gpus (s, r, a) (s, r', ?a)"
    by (rule agent_step.reported [OF assms(1-3)])
  moreover have "agent_step wrepo mgr repo ttl repr fstr w gpus (s, r', ?a) (s, r', pop_job k ?a)"
    by (rule agent_step.popped [OF slot]) simp
  ultimately show "(agent_step wrepo mgr repo ttl repr fstr w gpus)\<^sup>*\<^sup>* (s, r, a) (s, r', pop_job k ?a)"
    by (meson converse_rtranclp_into_rtranclp r_into_rtranclp)
  show "no_thread k (pop_job k ?a)" using assms(4) by (simp add: no_thread_def pop_job_def set_phase_def delete_conv')
qed

text \<open>C19.  Three ways to hang a job.  A job whose command the executor rejects stays RUNNING, since the
  exception ends its thread before any report; a job whose outcome report is lost stays RUNNING, since
  the report is not repeated; and a job that finishes after it was asked to stop, before the order
  arrives, stays CANCEL_REQUESTED or PREEMPTED, since its report is refused and no thread is left to stop.
  In each case nothing the agent does later changes the job any more, while its worker stays alive and
  whatever happens to other jobs.\<close>

theorem job_left_hanging:
  assumes "mem_ok r" "mem_jobs r k = Some j" "k \<noteq> []" "map_of (running_jobs a) k = Some sl" "inbox a = []"
    "sl_phase sl = Starting \<and> job_State j = StateScheduled \<and> parse_command repr fstr (aj_command (sl_job sl)) = Inl e
     \<or> sl_phase sl = Reporting out \<and> job_State j = StateRunning
     \<or> sl_phase sl = Reporting out \<and> \<not> stopped out \<and> job_State j \<in> {StateCancelRequested, StatePreempted}"
  shows "\<exists>r1 a1 j1. (agent_step wrepo mgr memory_repository ttl repr fstr w gpus)\<^sup>*\<^sup>* (s, r, a) (s, r1, a1)
    \<and> mem_jobs r1 k = Some j1
    \<and> job_State j1 = (if job_State j = StateScheduled then StateRunning else job_State j)
    \<and> (\<forall>s' r' a'. (beside wrepo mgr ttl repr fstr w gpus k)\<^sup>*\<^sup>* (s, r1, a1) (s', r', a') \<longrightarrow> mem_jobs r' k = Some j1)"
proof -
  let ?step = "agent_step wrepo mgr memory_repository ttl repr fstr w gpus"
  have hang: ?thesis if "?step\<^sup>*\<^sup>* (s, r, a) (s, r1, a1)" "mem_ok r1" "mem_jobs r1 k = Some j1" "no_thread k a1"
    "job_State j1 = (if job_State j = StateScheduled then StateRunning else job_State j)" for r1 a1 j1
  proof -
    have "job_State j1 \<noteq> StateScheduled" using that(5) by (simp split: if_splits)
    then show ?thesis using that beside_run [OF _ that(2,3) _ that(4)] by blast
  qed
  from assms(6) show ?thesis
  proof (elim disjE conjE)
    assume p: "sl_phase sl = Starting" "job_State j = StateScheduled" "parse_command repr fstr (aj_command (sl_job sl)) = Inl e"
    obtain q r1 where start: "api_call memory_repository (ApiStarted 0 w) k r = ((Inr q, []), r1)" "mem_ok r1"
      "mem_jobs r1 k = Some (j\<lparr>job_State := StateRunning, job_StartedAt := Some 0\<rparr>)"
      using assms(1,3) by (cases rule: mem.api_outcome [where a = "ApiStarted 0 w"])
        (use assms(2) p(2) in \<open>auto simp: Start_fn_def\<close>)
    have "rpc_outcome (api_call memory_repository (ApiStarted 0 w) k r) r (Reply q) r1"
      unfolding start(1) rpc_outcome_def by simp
    from agent_step.started [OF assms(4) p(1) this, of wrepo mgr ttl repr fstr gpus s]
    have "?step (s, r, a) (s, r1, set_phase k sl (Died e) a)" by (simp add: after_started_def p(3))
    moreover have "no_thread k (set_phase k sl (Died e) a)" using assms(5) by (simp add: no_thread_def set_phase_def update_conv')
    moreover have "job_State (j\<lparr>job_State := StateRunning, job_StartedAt := Some 0\<rparr>) = StateRunning" by simp
    ultimately show ?thesis using start(2,3) p(2) hang [OF r_into_rtranclp] by presburger
  next
    assume p: "sl_phase sl = Reporting out" "job_State j = StateRunning"
    have "rpc_outcome (api_call memory_repository (outcome_report w 0 out) k r) r (RpcError FromChannel) r"
      by (simp add: rpc_outcome_def)
    note leave = assms(4) p(1) this assms(5)
    show ?thesis
      by (rule hang [OF report_and_leave(1) [OF leave] assms(1,2) report_and_leave(2) [OF leave]]) (use p in auto)
  next
    assume p: "sl_phase sl = Reporting out" "\<not> stopped out" "job_State j \<in> {StateCancelRequested, StatePreempted}"
    obtain x where "api_call memory_repository (outcome_report w 0 out) k r = (x, r)"
      using assms(1,3) by (cases rule: mem.api_outcome [where a = "outcome_report w 0 out"])
        (use assms(2) p(2,3) in \<open>auto simp: outcome_report_def Complete_fn_def Fail_fn_def split: if_splits\<close>)
    then have "rpc_outcome (api_call memory_repository (outcome_report w 0 out) k r) r (of_reply x) r"
      by (simp add: rpc_outcome_def)
    note leave = assms(4) p(1) this assms(5)
    show ?thesis
      by (rule hang [OF report_and_leave(1) [OF leave] assms(1,2) report_and_leave(2) [OF leave]]) (use p in auto)
  qed
qed

section \<open>Witnesses\<close>

definition plain_repr :: "string \<Rightarrow> string" where "plain_repr s = s"

definition plain_fstr :: "float64 \<Rightarrow> string" where "plain_fstr x = []"

lemma default_sleep: "time_sleep (whole 1) = None"
  by (simp add: time_sleep_def whole_def fx_def)

lemma sample_commands:
  "parse_command plain_repr plain_fstr [] = Inr \<lparr>ex_steps = 5, ex_step_seconds = whole 1, ex_fail_at_step = None\<rparr>"
  "parse_command plain_repr plain_fstr [''--steps=3'', ''--fail-at-step=2'', ''--verbose''] =
     Inr \<lparr>ex_steps = 3, ex_step_seconds = whole 1, ex_fail_at_step = Some 2\<rparr>"
  "parse_command plain_repr plain_fstr [''--steps=0''] = Inl (ValueError ''--steps must be at least 1, got 0'')"
proof -
  have ints: "py_int ''3'' = Some 3" "py_int ''2'' = Some 2" "py_int ''0'' = Some 0" by code_simp+
  have zero: "itoa 0 = ''0''" by code_simp
  note defs = parse_command_def DEFAULT_STEPS_def DEFAULT_STEP_SECONDS_def HasPrefix_def after_equals_def
    parse_positive_int_def ints zero
  show "parse_command plain_repr plain_fstr [] = Inr \<lparr>ex_steps = 5, ex_step_seconds = whole 1, ex_fail_at_step = None\<rparr>"
    "parse_command plain_repr plain_fstr [''--steps=3'', ''--fail-at-step=2'', ''--verbose''] =
       Inr \<lparr>ex_steps = 3, ex_step_seconds = whole 1, ex_fail_at_step = Some 2\<rparr>"
    "parse_command plain_repr plain_fstr [''--steps=0''] = Inl (ValueError ''--steps must be at least 1, got 0'')"
    by (simp_all add: defs)
qed


definition sample_assigned :: "string list \<Rightarrow> AssignedJob" where
  "sample_assigned command = \<lparr>aj_job_id = ''a'', aj_command = command, aj_timeout_seconds = 0\<rparr>"

definition sample_agent :: "(thread_phase \<times> string list) option \<Rightarrow> agent" where
  "sample_agent t = \<lparr>running_jobs = (case t of None \<Rightarrow> [] | Some (p, command) \<Rightarrow>
     [(''a'', \<lparr>sl_job = sample_assigned command, sl_phase = p, sl_event = False\<rparr>)]), inbox = [], stops = []\<rparr>"

definition agent_sample :: "State \<Rightarrow> Job" where
  "agent_sample st = sample_job ''a'' st 5 True (sample_request 1 0 1 1) [''w'']"

lemma agent_sample_store:
  "mem_ok (sample_store [agent_sample st])" "mem_jobs (sample_store [agent_sample st]) ''a'' = Some (agent_sample st)"
  "job_State (agent_sample st) = st" "''w'' \<in> set (elems (job_AssignedWorkerIDs (agent_sample st)))"
  "elems (job_Command (agent_sample st)) = []" "job_TimeoutSeconds (agent_sample st) = 0"
proof -
  show "mem_ok (sample_store [agent_sample st])"
    by (rule sample_store_ok) (simp_all add: agent_sample_def sample_defs zero_job_def)
qed (simp_all add: agent_sample_def sample_defs sample_store_def zero_job_def copy_slice_def)

lemma sample_heartbeat:
  "\<exists>v s'. Heartbeat worker_memory_repository fake_manager DefaultLeaseTTL 9 ''w''
     (gpusToDomain (Some (map (\<lambda>g. Some (gpu_to_proto g)) []))) running (worker_store [one_worker], NewFakeManager) = (Inr v, s')"
proof -
  obtain x w' l' where h: "Heartbeat worker_memory_repository fake_manager DefaultLeaseTTL 9 ''w''
      (gpusToDomain (Some (map (\<lambda>g. Some (gpu_to_proto g)) []))) running (worker_store [one_worker], NewFakeManager) = (x, w', l')"
    by (rule prod_cases3)
  have v: "wmem_workers (worker_store [one_worker]) ''w'' = Some one_worker" by (simp add: one_worker_store(2))
  have "fake_room (Suc 0) NewFakeManager" by (rule fake_room_new) simp
  from mem_workers.Heartbeat_known [OF one_worker_store(1) this v h] h show ?thesis by auto
qed

lemma default_run:
  "fst (executor_run plain_repr plain_fstr [] 0 None (Some (\<lambda>_. False)) (\<lambda>_. f_zero) ()) =
     Inr \<lparr>success = True, steps_completed = 5, failure_reason = [], stopped = False\<rparr>"
  by (simp add: executor_run_def sample_commands) (simp add: eval_nat_numeral step_checks_def default_sleep)

theorem job_threads_end_witness:
  "\<exists>r' a'. agent_step worker_memory_repository fake_manager memory_repository DefaultLeaseTTL plain_repr plain_fstr ''w'' []
     ((worker_store [one_worker], NewFakeManager), sample_store [agent_sample StateScheduled], sample_agent (Some (Starting, [])))
     ((worker_store [one_worker], NewFakeManager), r', a')
     \<and> map_option sl_phase (map_of (running_jobs a') ''a'') \<noteq> Some Starting"
proof -
  let ?a = "sample_agent (Some (Starting, []))"
  let ?sl = "\<lparr>sl_job = sample_assigned [], sl_phase = Starting, sl_event = False\<rparr>"
  have "map_of (running_jobs ?a) ''a'' = Some ?sl" by (simp add: sample_agent_def)
  from job_threads_end [OF this, of worker_memory_repository fake_manager memory_repository DefaultLeaseTTL plain_repr plain_fstr
      "''w''" "[]" "(worker_store [one_worker], NewFakeManager)" "sample_store [agent_sample StateScheduled]"]
  have "(\<exists>e. sl_phase ?sl = Died e) \<or> (\<exists>r' a'. agent_step worker_memory_repository fake_manager memory_repository DefaultLeaseTTL
      plain_repr plain_fstr ''w'' [] ((worker_store [one_worker], NewFakeManager), sample_store [agent_sample StateScheduled], ?a)
      ((worker_store [one_worker], NewFakeManager), r', a') \<and> map_option sl_phase (map_of (running_jobs a') ''a'') \<noteq> Some (sl_phase ?sl))"
    by blast
  then show ?thesis by simp
qed

theorem assigned_job_completes_witness:
  "\<exists>s' r' a'. (agent_step worker_memory_repository fake_manager memory_repository DefaultLeaseTTL plain_repr plain_fstr ''w'' [])\<^sup>*\<^sup>*
     ((worker_store [one_worker], NewFakeManager), sample_store [agent_sample StateScheduled], sample_agent None) (s', r', a')
     \<and> map_option job_State (mem_jobs r' ''a'') = Some StateSucceeded"
proof -
  note j = agent_sample_store [of StateScheduled]
  obtain v s' where h: "Heartbeat worker_memory_repository fake_manager DefaultLeaseTTL 9 ''w''
      (gpusToDomain (Some (map (\<lambda>g. Some (gpu_to_proto g)) []))) (Some (map fst (running_jobs (sample_agent None))))
      (worker_store [one_worker], NewFakeManager) = (Inr v, s')" using sample_heartbeat by blast
  let ?cfg = "\<lparr>ex_steps = 5, ex_step_seconds = whole 1, ex_fail_at_step = None\<rparr>"
  have cfg: "parse_command plain_repr plain_fstr (elems (job_Command (agent_sample StateScheduled))) = Inr ?cfg"
    "time_sleep (ex_step_seconds ?cfg) = None"
    by (simp_all only: j(5) sample_commands ExecConfig.select_convs default_sleep)
  have run: "fst (executor_run plain_repr plain_fstr (elems (job_Command (agent_sample StateScheduled)))
      (job_TimeoutSeconds (agent_sample StateScheduled)) None (Some (\<lambda>_. False)) (\<lambda>_. f_zero) ()) =
      Inr \<lparr>success = True, steps_completed = 5, failure_reason = [], stopped = False\<rparr>"
    by (simp only: j(5,6) default_run)
  have idle: "inbox (sample_agent None) = []" "stops (sample_agent None) = []" "''a'' \<notin> fst ` set (running_jobs (sample_agent None))"
    by (simp_all add: sample_agent_def)
  from assigned_job_completes [OF j(1,2,3,4) _ _ idle h cfg run, of 9] obtain r' a' where r':
    "(agent_step worker_memory_repository fake_manager memory_repository DefaultLeaseTTL plain_repr plain_fstr ''w'' [])\<^sup>*\<^sup>*
       ((worker_store [one_worker], NewFakeManager), sample_store [agent_sample StateScheduled], sample_agent None) (s', r', a')"
    "mem_jobs r' ''a'' = Some (ended_job 9 \<lparr>success = True, steps_completed = 5, failure_reason = [], stopped = False\<rparr>
       (agent_sample StateScheduled\<lparr>job_State := StateRunning, job_StartedAt := Some 9\<rparr>))" by auto
  from r'(2) have "map_option job_State (mem_jobs r' ''a'') = Some StateSucceeded" by (simp add: ended_job_def)
  with r'(1) show ?thesis by blast
qed


theorem job_left_hanging_witness:
  "\<exists>r1 a1 j1. job_State j1 = StateRunning
     \<and> (\<forall>s' r' a'. (beside worker_memory_repository fake_manager DefaultLeaseTTL plain_repr plain_fstr ''w'' [] ''a'')\<^sup>*\<^sup>*
          ((worker_store [one_worker], NewFakeManager), r1, a1) (s', r', a') \<longrightarrow> mem_jobs r' ''a'' = Some j1)
     \<and> (agent_step worker_memory_repository fake_manager memory_repository DefaultLeaseTTL plain_repr plain_fstr ''w'' [])\<^sup>*\<^sup>*
          ((worker_store [one_worker], NewFakeManager), sample_store [agent_sample StateScheduled],
           sample_agent (Some (Starting, [''--steps=0'']))) ((worker_store [one_worker], NewFakeManager), r1, a1)"
proof -
  note j = agent_sample_store [of StateScheduled]
  let ?a = "sample_agent (Some (Starting, [''--steps=0'']))"
  let ?sl = "\<lparr>sl_job = sample_assigned [''--steps=0''], sl_phase = Starting, sl_event = False\<rparr>"
  have "map_of (running_jobs ?a) ''a'' = Some ?sl" "inbox ?a = []" by (simp_all add: sample_agent_def)
  from job_left_hanging [OF j(1,2) _ this, of plain_repr plain_fstr "ValueError ''--steps must be at least 1, got 0''" undefined
      worker_memory_repository fake_manager DefaultLeaseTTL "''w''" "[]" "(worker_store [one_worker], NewFakeManager)"]
  show ?thesis by (auto simp: j(3) sample_assigned_def sample_commands)
qed

end
