(* ===== verification/Agent_Config.thy ===== *)
theory Agent_Config
  imports Agent
begin

text \<open>
  The configuration of the worker agent, \<^verbatim>\<open>worker/agent/config.py\<close>, and what \<^verbatim>\<open>main\<close> makes of it: the
  inventory and the registration request.  The environment is a function from names to values; the
  process number and the host name are arguments.
\<close>

section \<open>config.py\<close>

record AgentConfig =
  ac_worker_id :: string
  ac_environment :: string
  ac_log_level :: string
  ac_fake_gpu :: bool
  ac_api_grpc_addr :: string
  ac_hostname :: string
  ac_cpu_capacity :: float64
  ac_memory_capacity_bytes :: int
  ac_fake_gpu_count :: int
  ac_fake_gpu_memory_bytes :: int

definition agent_defaults :: "int \<Rightarrow> string \<Rightarrow> AgentConfig" where
  "agent_defaults pid host =
     \<lparr>ac_worker_id = ''worker-local-'' @ itoa pid, ac_environment = ''local'', ac_log_level = ''info'', ac_fake_gpu = True,
      ac_api_grpc_addr = ''localhost:9080'', ac_hostname = host, ac_cpu_capacity = whole 8,
      ac_memory_capacity_bytes = 64 * 1024 ^ 3, ac_fake_gpu_count = DEFAULT_GPU_COUNT,
      ac_fake_gpu_memory_bytes = DEFAULT_GPU_MEMORY_BYTES\<rparr>"

definition parse_bool :: "(string \<Rightarrow> string) \<Rightarrow> string \<Rightarrow> string \<Rightarrow> bool py" where
  "parse_bool repr raw var_name =
     (let lowered = py_lower (py_strip raw)
      in if lowered \<in> {''1'', ''true'', ''yes'', ''on''} then Inr True
         else if lowered \<in> {''0'', ''false'', ''no'', ''off''} then Inr False
         else Inl (ValueError (''invalid boolean for '' @ var_name @ '': '' @ repr raw)))"

definition parse_float :: "(string \<Rightarrow> string) \<Rightarrow> string option \<Rightarrow> float64 \<Rightarrow> string \<Rightarrow> float64 py" where
  "parse_float repr raw dflt var_name =
     (case raw of
        None \<Rightarrow> Inr dflt
      | Some raw \<Rightarrow>
          (case py_float raw of
             None \<Rightarrow> Inl (ValueError (''invalid float for '' @ var_name @ '': '' @ repr raw)) | Some x \<Rightarrow> Inr x))"

definition parse_integer :: "(string \<Rightarrow> string) \<Rightarrow> string option \<Rightarrow> int \<Rightarrow> string \<Rightarrow> int py" where
  "parse_integer repr raw dflt var_name =
     (case raw of
        None \<Rightarrow> Inr dflt
      | Some raw \<Rightarrow>
          (case py_int raw of
             None \<Rightarrow> Inl (ValueError (''invalid integer for '' @ var_name @ '': '' @ repr raw)) | Some n \<Rightarrow> Inr n))"

definition environ_get :: "(string \<Rightarrow> string option) \<Rightarrow> string \<Rightarrow> string \<Rightarrow> string" where
  "environ_get env name dflt = (case env name of None \<Rightarrow> dflt | Some v \<Rightarrow> v)"

text \<open>The checks of \<^verbatim>\<open>load\<close> in their order, each with what it raises.\<close>

definition config_checks :: "(string \<Rightarrow> string) \<Rightarrow> AgentConfig \<Rightarrow> (bool \<times> string) list" where
  "config_checks repr c =
     [(ac_worker_id c = [], ''ORIONQUEUE_WORKER_ID must not be empty''),
      (ac_log_level c \<notin> {''debug'', ''info'', ''warning'', ''error''},
       ''invalid ORIONQUEUE_LOG_LEVEL '' @ repr (ac_log_level c) @ '': must be one of ['debug', 'error', 'info', 'warning']''),
      (ac_api_grpc_addr c = [], ''ORIONQUEUE_API_GRPC_ADDR must not be empty''),
      (ac_hostname c = [], ''ORIONQUEUE_HOSTNAME must not be empty''),
      (f_lt (ac_cpu_capacity c) f_zero, ''ORIONQUEUE_CPU_CAPACITY must not be negative''),
      (ac_memory_capacity_bytes c < 0, ''ORIONQUEUE_MEMORY_CAPACITY_BYTES must not be negative''),
      (ac_fake_gpu_count c < 0, ''ORIONQUEUE_FAKE_GPU_COUNT must not be negative''),
      (ac_fake_gpu_memory_bytes c < 0, ''ORIONQUEUE_FAKE_GPU_MEMORY_BYTES must not be negative'')]"

fun first_failure :: "(bool \<times> string) list \<Rightarrow> py_exc option" where
  "first_failure [] = None"
| "first_failure ((bad, m) # cs) = (if bad then Some (ValueError m) else first_failure cs)"

definition agent_load :: "(string \<Rightarrow> string) \<Rightarrow> int \<Rightarrow> string \<Rightarrow> (string \<Rightarrow> string option) \<Rightarrow> AgentConfig py" where
  "agent_load repr pid host env =
     (let base = agent_defaults pid host
      in case (case env ''ORIONQUEUE_FAKE_GPU'' of
                 None \<Rightarrow> Inr (ac_fake_gpu base) | Some raw \<Rightarrow> parse_bool repr raw ''ORIONQUEUE_FAKE_GPU'') of
           Inl e \<Rightarrow> Inl e
         | Inr fake_gpu \<Rightarrow>
      (case parse_float repr (env ''ORIONQUEUE_CPU_CAPACITY'') (ac_cpu_capacity base) ''ORIONQUEUE_CPU_CAPACITY'' of
           Inl e \<Rightarrow> Inl e
         | Inr cpu_capacity \<Rightarrow>
      (case parse_integer repr (env ''ORIONQUEUE_MEMORY_CAPACITY_BYTES'') (ac_memory_capacity_bytes base)
              ''ORIONQUEUE_MEMORY_CAPACITY_BYTES'' of
           Inl e \<Rightarrow> Inl e
         | Inr memory_capacity_bytes \<Rightarrow>
      (case parse_integer repr (env ''ORIONQUEUE_FAKE_GPU_COUNT'') (ac_fake_gpu_count base) ''ORIONQUEUE_FAKE_GPU_COUNT'' of
           Inl e \<Rightarrow> Inl e
         | Inr fake_gpu_count \<Rightarrow>
      (case parse_integer repr (env ''ORIONQUEUE_FAKE_GPU_MEMORY_BYTES'') (ac_fake_gpu_memory_bytes base)
              ''ORIONQUEUE_FAKE_GPU_MEMORY_BYTES'' of
           Inl e \<Rightarrow> Inl e
         | Inr fake_gpu_memory_bytes \<Rightarrow>
      (let c = \<lparr>ac_worker_id = environ_get env ''ORIONQUEUE_WORKER_ID'' (ac_worker_id base),
                ac_environment = environ_get env ''ORIONQUEUE_ENVIRONMENT'' (ac_environment base),
                ac_log_level = environ_get env ''ORIONQUEUE_LOG_LEVEL'' (ac_log_level base), ac_fake_gpu = fake_gpu,
                ac_api_grpc_addr = environ_get env ''ORIONQUEUE_API_GRPC_ADDR'' (ac_api_grpc_addr base),
                ac_hostname = environ_get env ''ORIONQUEUE_HOSTNAME'' (ac_hostname base), ac_cpu_capacity = cpu_capacity,
                ac_memory_capacity_bytes = memory_capacity_bytes, ac_fake_gpu_count = fake_gpu_count,
                ac_fake_gpu_memory_bytes = fake_gpu_memory_bytes\<rparr>
       in case first_failure (config_checks repr c) of Some e \<Rightarrow> Inl e | None \<Rightarrow> Inr c))))))"

section \<open>main.py: the start\<close>

definition agent_gpus :: "(string \<Rightarrow> string) \<Rightarrow> AgentConfig \<Rightarrow> FakeGPU list py" where
  "agent_gpus sha256 c =
     (if ac_fake_gpu c then discover sha256 (ac_worker_id c) (ac_fake_gpu_count c) (ac_fake_gpu_memory_bytes c) else Inr [])"

definition agent_registration :: "string \<Rightarrow> AgentConfig \<Rightarrow> FakeGPU list \<Rightarrow> RegisterWorkerRequest" where
  "agent_registration version c gpus =
     register_request (ac_hostname c) (ac_cpu_capacity c) (ac_memory_capacity_bytes c) gpus version
       [(''environment'', ac_environment c)]"

fun escape_json :: "string \<Rightarrow> string" where
  "escape_json [] = []"
| "escape_json (c # cs) =
     (if c = CHR 92 then [CHR 92, CHR 92] else if c = CHR 34 then [CHR 92, CHR 34] else [c]) @ escape_json cs"

definition json_error_line :: "string \<Rightarrow> string" where
  "json_error_line message =
     [CHR 123, CHR 34] @ ''level'' @ [CHR 34] @ '': '' @ [CHR 34] @ ''error'' @ [CHR 34] @ '', '' @ [CHR 34] @ ''msg''
     @ [CHR 34] @ '': '' @ [CHR 34] @ ''invalid configuration'' @ [CHR 34] @ '', '' @ [CHR 34] @ ''error'' @ [CHR 34]
     @ '': '' @ [CHR 34] @ escape_json message @ [CHR 34, CHR 125, CHR 10]"

section \<open>Lemmas\<close>

lemma first_failure_None: "first_failure cs = None \<longleftrightarrow> (\<forall>(bad, m) \<in> set cs. \<not> bad)"
  by (induction cs rule: first_failure.induct) auto

text \<open>A loaded configuration passed every check.\<close>

lemma loaded_checks:
  assumes "agent_load repr pid host env = Inr c"
  shows "first_failure (config_checks repr c) = None"
  using assms unfolding agent_load_def Let_def by (auto split: sum.splits option.splits)

lemma loaded_config:
  assumes "agent_load repr pid host env = Inr c"
  shows "ac_hostname c \<noteq> []" "\<not> f_lt (ac_cpu_capacity c) f_zero" "0 \<le> ac_memory_capacity_bytes c"
    "0 \<le> ac_fake_gpu_count c" "0 \<le> ac_fake_gpu_memory_bytes c"
  using loaded_checks [OF assms] unfolding first_failure_None config_checks_def by auto

lemma discover_gpus:
  assumes "discover sha256 worker_id n memory_bytes = Inr gs"
  shows "length gs = nat n" "map fg_device_index gs = [0 .. n - 1]"
    "\<forall>g \<in> set gs. fg_total_memory_bytes g = memory_bytes \<and> fg_allocated_memory_bytes g = 0 \<and> fg_health_state g = ''HEALTHY''"
    "0 \<le> memory_bytes"
  using assms by (auto simp: discover_def o_def split: if_splits)

lemma gpu_to_proto_domain:
  "gpuToDomain (Some (gpu_to_proto g)) =
     \<lparr>gpu_ID = [], gpu_DeviceIndex = fg_device_index g, gpu_UUID = fg_uuid g, gpu_TotalMemoryBytes = fg_total_memory_bytes g,
      gpu_AllocatedMemoryBytes = fg_allocated_memory_bytes g, gpu_UtilizationPercent = fg_utilization_percent g,
      gpu_TemperatureCelsius = fg_temperature_celsius g, gpu_MIGProfile = fg_mig_profile g,
      gpu_HealthState = (if fg_health_state g = ''HEALTHY'' then GPUHealthy else GPUUnhealthy)\<rparr>"
  by (simp add: gpuToDomain_def gpu_to_proto_def pb_health_states_def)

text \<open>The server's validation of a registration made from a loaded configuration.\<close>

lemma registration_valid:
  assumes "agent_load repr pid host env = Inr c" "agent_gpus sha256 c = Inr gs"
  shows "valid_register (register_input (agent_registration version c gs)) \<longleftrightarrow>
    TrimSpace (ac_hostname c) \<noteq> [] \<and> length (ac_hostname c) \<le> 253 \<and> (ac_fake_gpu c \<longrightarrow> ac_fake_gpu_count c \<le> 64)"
proof -
  note ok = loaded_config [OF assms(1)]
  let ?gs = "map (\<lambda>g. gpuToDomain (Some (gpu_to_proto g))) gs"
  have gs: "elems (reg_GPUs (register_input (agent_registration version c gs))) = ?gs"
    by (simp add: register_input_def agent_registration_def register_request_def gpusToDomain_def o_def)
  have "list_all valid_gpu ?gs \<and> distinct (map gpu_DeviceIndex ?gs) \<and> (length ?gs \<le> 64 \<longleftrightarrow> (ac_fake_gpu c \<longrightarrow> ac_fake_gpu_count c \<le> 64))"
  proof (cases "ac_fake_gpu c")
    case True
    with assms(2) have d: "discover sha256 (ac_worker_id c) (ac_fake_gpu_count c) (ac_fake_gpu_memory_bytes c) = Inr gs"
      by (simp add: agent_gpus_def)
    note d = discover_gpus [OF d]
    have idx: "map gpu_DeviceIndex ?gs = [0 .. ac_fake_gpu_count c - 1]"
      using d(2) by (simp add: o_def gpu_to_proto_domain)
    have "0 \<le> fg_device_index g" if "g \<in> set gs" for g
      using imageI [OF that, of fg_device_index] d(2) by (metis atLeastAtMost_iff set_map set_upto)
    then have "list_all valid_gpu ?gs" using d(3,4) by (auto simp: list_all_iff valid_gpu_def gpu_to_proto_domain)
    moreover have "distinct (map gpu_DeviceIndex ?gs)" by (simp only: idx distinct_upto)
    ultimately show ?thesis using True ok(4) d(1) by (simp add: nat_le_iff)
  qed (use assms(2) in \<open>simp add: agent_gpus_def\<close>)
  then show ?thesis
    using ok unfolding valid_register_def gs
    by (auto simp: register_input_def agent_registration_def register_request_def)
qed

text \<open>Registration is repeated until it succeeds or the process is told to stop, after waits of 1, 2, 4,
  8 and then always 15 seconds.\<close>

lemma register_failures:
  "register_with_retry delay (map RegisterFailed cs @ es) =
     (case register_with_retry (foldl (\<lambda>d _. min (d * 2) REGISTER_MAX_BACKOFF_SECONDS) delay cs) es of
        (ds, x) \<Rightarrow> (map (\<lambda>i. foldl (\<lambda>d _. min (d * 2) REGISTER_MAX_BACKOFF_SECONDS) delay (take i cs)) [0..<length cs] @ ds, x))"
proof (induction cs arbitrary: delay)
  case (Cons c cs)
  have "[0..<length (c # cs)] = 0 # map Suc [0..<length cs]" 
    by (metis length_Cons map_Suc_upt upt_conv_Cons zero_less_Suc)
  with Cons show ?case by (simp add: o_def split: prod.split)
qed simp

section \<open>Waiting\<close>

text \<open>Of \<open>a > c\<close> units a chunk of \<open>c\<close> leaves less than \<open>a\<close>, as long as \<open>a\<close> is below \<open>2 ^ 53\<close> chunks.\<close>

lemma f_sub_progress:
  assumes "0 < c" "c < a" "a < 2 ^ 53 * c" "a < overflow_at div 2"
  shows "\<exists>m. f_sub (Fin a) (Fin c) = Fin m \<and> m < a \<and> (2 ^ 53 - 1) * (a - c) \<le> 2 ^ 53 * m"
proof -
  obtain m where m: "f_round (a - c) = Fin m" "2 ^ 53 * m \<le> (2 ^ 53 + 1) * (a - c)" "(2 ^ 53 - 1) * (a - c) \<le> 2 ^ 53 * m"
    using f_round_near [of "a - c"] assms by auto
  have "(2 ^ 53 + 1) * (a - c) < 2 ^ 53 * a" using assms by (simp add: algebra_simps)
  with m(2) have "2 ^ 53 * m < 2 ^ 53 * a" by linarith
  with m show ?thesis by (simp add: f_sub_def)
qed

text \<open>One more chunk costs at most one more part in \<open>2 ^ 53\<close>.\<close>

lemma chunk_sum:
  fixes a c m s l e :: int
  assumes "0 < c" "c < a" "(e - 1) * (a - c) \<le> e * m" "m * (e - l) \<le> e * s" "0 < e" "0 \<le> l" "0 \<le> s"
  shows "a * (e - (l + 1)) \<le> e * (c + s)"
proof (cases "l + 1 \<le> e")
  case True
  have "e * ((a - c) * (e - (l + 1))) \<le> ((e - 1) * (a - c)) * (e - l)"
    using assms mult_right_mono [of c a l] by (simp add: algebra_simps)
  also have "\<dots> \<le> e * m * (e - l)" using assms True by (intro mult_right_mono) simp_all
  also have "\<dots> \<le> e * (e * s)" using assms by (simp add: mult.assoc)
  finally have "(a - c) * (e - (l + 1)) \<le> e * s" using assms(5) by simp
  moreover have "c * (e - (l + 1)) \<le> c * e" using assms by (intro mult_left_mono) simp_all
  ultimately show ?thesis by (simp add: algebra_simps)
next
  case False
  then have "a * (e - (l + 1)) \<le> 0" using assms by (intro mult_nonneg_nonpos) simp_all
  moreover have "0 \<le> e * (c + s)" using assms by simp
  ultimately show ?thesis by linarith
qed

definition waits_for :: "(nat \<Rightarrow> bool) \<Rightarrow> nat \<Rightarrow> int \<Rightarrow> int list \<Rightarrow> bool" where
  "waits_for shutdown i a ns \<longleftrightarrow>
     (\<forall>n \<in> set ns. 0 < n \<and> \<not> f_lt SLEEP_CHUNK_SECONDS (Fin n)) \<and> (\<forall>k. shutdown (i + k) \<longrightarrow> length ns \<le> k)
     \<and> ((\<forall>k. \<not> shutdown k) \<longrightarrow> a * (2 ^ 53 - int (length ns)) \<le> 2 ^ 53 * sum_list ns)"

lemma sleep_waits:
  assumes "a \<le> 2 ^ 1123"
  shows "\<exists>ns. sleep_in_chunks shutdown i (Fin a) = Some (map Fin ns) \<and> waits_for shutdown i a ns"
  using assms
proof (induction "nat a" arbitrary: a i rule: less_induct)
  case less
  define c :: int where "c = 3602879701896397 * 2 ^ 1020"
  have c: "SLEEP_CHUNK_SECONDS = Fin c" "0 < c" "2 ^ 1123 < 2 ^ 53 * c"
    by (simp_all add: SLEEP_CHUNK_SECONDS_def f_fifth c_def)
  note step = sleep_in_chunks.simps [of shutdown i "Fin a"]
  consider "a \<le> 0 \<or> shutdown i" | "0 < a" "\<not> shutdown i" "a \<le> c" | "0 < a" "\<not> shutdown i" "c < a" by linarith
  then show ?case
  proof cases
    case 1
    then have "sleep_in_chunks shutdown i (Fin a) = Some (map Fin [])" by (subst step) auto
    moreover have "waits_for shutdown i a []" using 1 by (auto simp: waits_for_def)
    ultimately show ?thesis by blast
  next
    case 2
    have "f_min SLEEP_CHUNK_SECONDS (Fin a) = Fin a" unfolding f_min_def c(1) using 2 by auto
    moreover have "f_sub (Fin a) (Fin a) = Fin 0" using f_round_exact [of 0 0] by (simp add: f_sub_def)
    ultimately have "sleep_in_chunks shutdown i (Fin a) = Some (map Fin [a])"
      using 2 by (subst step) (simp add: Let_def sleep_in_chunks.simps [of shutdown "Suc i" "Fin 0"])
    moreover have "waits_for shutdown i a [a]"
      using 2 unfolding waits_for_def c(1) by (auto simp: Suc_le_eq algebra_simps intro!: gr0I)
    ultimately show ?thesis by blast
  next
    case 3
    have "a < 2 ^ 53 * c" "a < overflow_at div 2" using less.prems c(3) by (simp_all add: overflow_at_def)
    then obtain m where m: "f_sub (Fin a) (Fin c) = Fin m" "m < a" "(2 ^ 53 - 1) * (a - c) \<le> 2 ^ 53 * m"
      using f_sub_progress [of c a] c(2) 3 by blast
    have "nat m < nat a" "m \<le> 2 ^ 1123" using 3 m(2) less.prems by linarith+
    then obtain ns where ns: "sleep_in_chunks shutdown (Suc i) (Fin m) = Some (map Fin ns)" "waits_for shutdown (Suc i) m ns"
      using less.hyps by blast
    have "f_min SLEEP_CHUNK_SECONDS (Fin a) = Fin c" unfolding f_min_def c(1) using 3 by auto
    then have "sleep_in_chunks shutdown i (Fin a) = Some (map Fin (c # ns))"
      using 3 m(1) ns(1) by (subst step) (simp add: Let_def)
    moreover have "waits_for shutdown i a (c # ns)"
      unfolding waits_for_def
    proof (intro conjI allI impI)
      show "\<forall>n \<in> set (c # ns). 0 < n \<and> \<not> f_lt SLEEP_CHUNK_SECONDS (Fin n)"
        using ns(2) c(2) unfolding waits_for_def c(1) by auto
    next
      fix k assume "shutdown (i + k)"
      then show "length (c # ns) \<le> k" using 3 ns(2) by (cases k) (auto simp: waits_for_def)
    next
      assume "\<forall>k. \<not> shutdown k"
      with ns(2) have "m * (2 ^ 53 - int (length ns)) \<le> 2 ^ 53 * sum_list ns" "0 \<le> sum_list ns"
        unfolding waits_for_def by (blast, meson less_imp_le sum_list_nonneg)
      from chunk_sum [OF c(2) 3(3) m(3) this(1) _ _ this(2)]
      show "a * (2 ^ 53 - int (length (c # ns))) \<le> 2 ^ 53 * sum_list (c # ns)" by (simp add: algebra_simps)
    qed
    ultimately show ?thesis by blast
  qed
qed

section \<open>What the start of the agent promises\<close>





end
