(* ===== verification/Postgres_Workers.thy ===== *)
theory Postgres_Workers
  imports Postgres_Jobs Workers
begin

text \<open>
  \<^verbatim>\<open>internal/persistence/worker_repository.go\<close>: the PostgreSQL implementation of
  \<^verbatim>\<open>workers.Repository\<close>.  A worker is one row of \<^verbatim>\<open>workers\<close> and its GPUs are rows of \<^verbatim>\<open>gpus\<close>, which
  every write replaces in the same transaction.
\<close>

section \<open>Rows, workers and GPUs\<close>

fun status_string :: "Status \<Rightarrow> string" where
  "status_string StatusActive = ''ACTIVE''"
| "status_string StatusLost = ''LOST''"
| "status_string StatusZero = []"

fun health_string :: "GPUHealthState \<Rightarrow> string" where
  "health_string GPUHealthy = ''HEALTHY''"
| "health_string GPUDegraded = ''DEGRADED''"
| "health_string GPUUnhealthy = ''UNHEALTHY''"
| "health_string GPUHealthZero = []"

definition int_arg :: "int option \<Rightarrow> pgval" where
  "int_arg n = (case n of None \<Rightarrow> PNull | Some i \<Rightarrow> PInt i)"

definition float_arg :: "float64 option \<Rightarrow> pgval" where
  "float_arg x = (case x of None \<Rightarrow> PNull | Some f \<Rightarrow> PFloat f)"

text \<open>\<^verbatim>\<open>json.Marshal\<close> of a map of strings does not fail, so the fallback is never taken.\<close>

definition workerArgs :: "Worker \<Rightarrow> row" where
  "workerArgs w =
     [PText (w_ID w), PText (w_Hostname w), PText (status_string (w_Status w)), int_arg (w_LeaseID w),
      PFloat (w_CPUCapacity w), PInt (w_MemoryCapacityBytes w),
      PText (w_SoftwareVersion w), PJson (w_Labels w), texts_arg (nonNilStrings (w_RunningJobIDs w)),
      PTime (w_RegisteredAt w), PTime (w_LastHeartbeatAt w)]"

fun scan_int_ptr :: "pgval \<Rightarrow> int option result" where
  "scan_int_ptr PNull = Inr None" | "scan_int_ptr (PInt n) = Inr (Some n)" | "scan_int_ptr v = Inl scan_error"

fun scan_float_ptr :: "pgval \<Rightarrow> float64 option result" where
  "scan_float_ptr PNull = Inr None" | "scan_float_ptr (PFloat x) = Inr (Some x)" | "scan_float_ptr v = Inl scan_error"

text \<open>The bytes of the column and \<^verbatim>\<open>json.Unmarshal\<close>: \<^verbatim>\<open>null\<close> leaves the map nil.\<close>

fun scan_labels :: "pgval \<Rightarrow> (string \<times> string) slice result" where
  "scan_labels PNull = Inr None" | "scan_labels (PJson m) = Inr m" | "scan_labels v = Inl scan_error"

definition scan_status :: "pgval \<Rightarrow> Status result" where
  "scan_status v =
     bind_result (scan_text v) (\<lambda>s.
       if s = ''ACTIVE'' then Inr StatusActive else if s = ''LOST'' then Inr StatusLost else Inl scan_error)"

definition scan_health :: "pgval \<Rightarrow> GPUHealthState result" where
  "scan_health v =
     bind_result (scan_text v) (\<lambda>s.
       if s = ''HEALTHY'' then Inr GPUHealthy else if s = ''DEGRADED'' then Inr GPUDegraded
       else if s = ''UNHEALTHY'' then Inr GPUUnhealthy else Inl scan_error)"

definition scanWorker :: "row \<Rightarrow> Worker result" where
  "scanWorker r =
     (if length r \<noteq> 11 then Inl scan_error
      else bind_result (scan_text (r ! 0)) (\<lambda>ident.
        bind_result (scan_text (r ! 1)) (\<lambda>hostname.
        bind_result (scan_status (r ! 2)) (\<lambda>status.
        bind_result (scan_int_ptr (r ! 3)) (\<lambda>leaseID.
        bind_result (scan_float (r ! 4)) (\<lambda>cpuCapacity.
        bind_result (scan_int (r ! 5)) (\<lambda>memoryCapacityBytes.
        bind_result (scan_text (r ! 6)) (\<lambda>softwareVersion.
        bind_result (scan_labels (r ! 7)) (\<lambda>labels.
        bind_result (scan_texts (r ! 8)) (\<lambda>runningJobIDs.
        bind_result (scan_time (r ! 9)) (\<lambda>registeredAt.
        bind_result (scan_time (r ! 10)) (\<lambda>lastHeartbeatAt.
        Inr \<lparr>w_ID = ident, w_Hostname = hostname, w_Status = status, w_LeaseID = leaseID,
             w_CPUCapacity = cpuCapacity, w_MemoryCapacityBytes = memoryCapacityBytes, w_GPUs = None,
             w_SoftwareVersion = softwareVersion, w_Labels = labels, w_RunningJobIDs = runningJobIDs,
             w_RegisteredAt = registeredAt, w_LastHeartbeatAt = lastHeartbeatAt\<rparr>))))))))))))"

definition scanGPU :: "row \<Rightarrow> GPU result" where
  "scanGPU r =
     (if length r \<noteq> 10 then Inl scan_error
      else bind_result (scan_text (r ! 0)) (\<lambda>gpuID.
        bind_result (scan_text (r ! 1)) (\<lambda>workerID.
        bind_result (scan_int (r ! 2)) (\<lambda>deviceIndex.
        bind_result (scan_text (r ! 3)) (\<lambda>uuid.
        bind_result (scan_int (r ! 4)) (\<lambda>totalMemoryBytes.
        bind_result (scan_int (r ! 5)) (\<lambda>allocatedMemoryBytes.
        bind_result (scan_float (r ! 6)) (\<lambda>utilizationPercent.
        bind_result (scan_float_ptr (r ! 7)) (\<lambda>temperatureCelsius.
        bind_result (scan_text (r ! 8)) (\<lambda>migProfile.
        bind_result (scan_health (r ! 9)) (\<lambda>healthState.
        Inr \<lparr>gpu_ID = gpuID, gpu_DeviceIndex = deviceIndex, gpu_UUID = uuid,
             gpu_TotalMemoryBytes = totalMemoryBytes, gpu_AllocatedMemoryBytes = allocatedMemoryBytes,
             gpu_UtilizationPercent = utilizationPercent, gpu_TemperatureCelsius = temperatureCelsius,
             gpu_MIGProfile = migProfile, gpu_HealthState = healthState\<rparr>)))))))))))"

definition gpuRowID :: "string \<Rightarrow> int \<Rightarrow> string" where
  "gpuRowID workerID deviceIndex = workerID @ ''-gpu-'' @ itoa deviceIndex"

definition gpuArgs :: "string \<Rightarrow> GPU \<Rightarrow> row" where
  "gpuArgs workerID g =
     [PText (gpuRowID workerID (gpu_DeviceIndex g)), PText workerID, PInt (gpu_DeviceIndex g), PText (gpu_UUID g),
      PInt (gpu_TotalMemoryBytes g), PInt (gpu_AllocatedMemoryBytes g),
      PFloat (gpu_UtilizationPercent g), float_arg (gpu_TemperatureCelsius g),
      PText (gpu_MIGProfile g), PText (health_string (gpu_HealthState g))]"

section \<open>The repository\<close>

text \<open>\<^verbatim>\<open>return out, rows.Err()\<close>: \<^verbatim>\<open>out\<close> is nil when there is no row.\<close>

definition nil_if_empty :: "'a list \<Rightarrow> 'a slice" where
  "nil_if_empty xs = (if xs = [] then None else Some xs)"

definition getGPUs :: "'d Pool \<Rightarrow> string \<Rightarrow> 'd \<Rightarrow> GPU slice result" where
  "getGPUs q workerID d =
     (case pg_Query q SelectGPUsByWorkerID [PText workerID] d of
        Inl e \<Rightarrow> Inl (Wrap ''persistence: get gpus: '' e [])
      | Inr (rows, err) \<Rightarrow>
          (case scan_rows scanGPU ''persistence: scan gpu: '' rows of
             Inl e \<Rightarrow> Inl e
           | Inr out \<Rightarrow> (case err of Some e \<Rightarrow> Inl e | None \<Rightarrow> Inr (nil_if_empty out))))"

fun insert_gpus :: "'d Pool \<Rightarrow> string \<Rightarrow> GPU list \<Rightarrow> 'd \<Rightarrow> goerr option \<times> 'd" where
  "insert_gpus q workerID [] d = (None, d)"
| "insert_gpus q workerID (g # gs) d =
     (case pg_Exec q InsertGPU (gpuArgs workerID g) d of
        (Some e, d') \<Rightarrow> (Some (Wrap ''persistence: insert gpu: '' e []), d')
      | (None, d') \<Rightarrow> insert_gpus q workerID gs d')"

definition replaceGPUs :: "'d Pool \<Rightarrow> string \<Rightarrow> GPU slice \<Rightarrow> 'd \<Rightarrow> goerr option \<times> 'd" where
  "replaceGPUs q workerID gpus d =
     (case pg_Exec q DeleteGPUs [PText workerID] d of
        (Some e, d') \<Rightarrow> (Some (Wrap ''persistence: delete existing gpus: '' e []), d')
      | (None, d') \<Rightarrow> insert_gpus q workerID (elems gpus) d')"

definition pgw_Create :: "'d Pool \<Rightarrow> Worker \<Rightarrow> 'd \<Rightarrow> Worker result \<times> 'd" where
  "pgw_Create pool w d =
     (case pg_Begin pool d of
        Some e \<Rightarrow> (Inl (Wrap ''persistence: begin create tx: '' e []), d)
      | None \<Rightarrow>
          (case pg_QueryRow pool InsertWorker (workerArgs w) d of (inserted, tx) \<Rightarrow>
            (case bind_result inserted scanWorker of
               Inl e \<Rightarrow> (Inl (Wrap ''persistence: insert worker: '' e []), d)
             | Inr created \<Rightarrow>
                 (case replaceGPUs pool (w_ID w) (w_GPUs w) tx of
                    (Some e, tx) \<Rightarrow> (Inl e, d)
                  | (None, tx) \<Rightarrow>
                      (case pg_Commit pool d tx of
                         (Some e, d') \<Rightarrow> (Inl (Wrap ''persistence: commit create: '' e []), d')
                       | (None, d') \<Rightarrow> (Inr (created\<lparr>w_GPUs := w_GPUs w\<rparr>), d'))))))"

definition pgw_Get :: "'d Pool \<Rightarrow> string \<Rightarrow> 'd \<Rightarrow> Worker result" where
  "pgw_Get pool ident d =
     (case bind_result (fst (pg_QueryRow pool SelectWorkerByID [PText ident] d)) scanWorker of
        Inl e \<Rightarrow>
          (if errors_Is e Pgx_ErrNoRows then Inl Workers_ErrNotFound
           else Inl (Wrap ''persistence: get worker: '' e []))
      | Inr w \<Rightarrow>
          (case getGPUs pool ident d of
             Inl e \<Rightarrow> Inl e
           | Inr gpus \<Rightarrow> Inr (w\<lparr>w_GPUs := gpus\<rparr>)))"

text \<open>The loop that fetches the GPUs of every listed worker.\<close>

fun attach_gpus :: "'d Pool \<Rightarrow> Worker list \<Rightarrow> 'd \<Rightarrow> Worker list result" where
  "attach_gpus pool [] d = Inr []"
| "attach_gpus pool (w # ws) d =
     (case getGPUs pool (w_ID w) d of
        Inl e \<Rightarrow> Inl e
      | Inr gpus \<Rightarrow>
          (case attach_gpus pool ws d of Inl e \<Rightarrow> Inl e | Inr rest \<Rightarrow> Inr (w\<lparr>w_GPUs := gpus\<rparr> # rest)))"

definition pgw_List :: "'d Pool \<Rightarrow> WListOptions \<Rightarrow> 'd \<Rightarrow> WListResult result" where
  "pgw_List pool opts d =
     (let pageSize = effective_page_size (wopt_PageSize opts)
      in case (if wopt_PageToken opts = [] then Inr None else map_sum id Some (decodeListToken (wopt_PageToken opts))) of
           Inl e \<Rightarrow> Inl (Wrap ''invalid page_token: '' e [])
         | Inr after \<Rightarrow>
             (case list_query pageSize (status_string (wopt_StatusFilter opts)) after of (args, conditions) \<Rightarrow>
               (case pg_Query pool (SelectWorkers conditions) args d of
                  Inl e \<Rightarrow> Inl (Wrap ''persistence: list workers: '' e [])
                | Inr (rows, err) \<Rightarrow>
                    (case scan_rows scanWorker ''persistence: scan listed worker: '' rows of
                       Inl e \<Rightarrow> Inl e
                     | Inr page \<Rightarrow>
                         (case err of
                            Some e \<Rightarrow> Inl (Wrap ''persistence: iterate listed workers: '' e [])
                          | None \<Rightarrow>
                              (let (page, next) =
                                 (if int (length page) > pageSize
                                  then let lst = page ! nat (pageSize - 1)
                                       in (take (nat pageSize) page, encodeListToken (w_RegisteredAt lst) (w_ID lst))
                                  else (page, []))
                               in case attach_gpus pool page d of
                                    Inl e \<Rightarrow> Inl e
                                  | Inr page \<Rightarrow> Inr \<lparr>wres_Workers = page, wres_NextPageToken = next\<rparr>))))))"

definition pgw_Update :: "'d Pool \<Rightarrow> string \<Rightarrow> (Worker \<Rightarrow> Worker result) \<Rightarrow> 'd \<Rightarrow> Worker result \<times> 'd" where
  "pgw_Update pool ident fn d =
     (case pg_Begin pool d of
        Some e \<Rightarrow> (Inl (Wrap ''persistence: begin update tx: '' e []), d)
      | None \<Rightarrow>
          (case pg_QueryRow pool SelectWorkerByIDForUpdate [PText ident] d of (selected, tx) \<Rightarrow>
            (case bind_result selected scanWorker of
               Inl e \<Rightarrow>
                 (if errors_Is e Pgx_ErrNoRows then (Inl Workers_ErrNotFound, d)
                  else (Inl (Wrap ''persistence: select worker for update: '' e []), d))
             | Inr current \<Rightarrow>
                 (case getGPUs pool ident tx of
                    Inl e \<Rightarrow> (Inl e, d)
                  | Inr currentGPUs \<Rightarrow>
                      (case fn (current\<lparr>w_GPUs := currentGPUs\<rparr>) of
                         Inl e \<Rightarrow> (Inl e, d)
                       | Inr updated \<Rightarrow>
                           (case pg_QueryRow pool UpdateWorker (workerArgs updated) tx of (changed, tx) \<Rightarrow>
                             (case bind_result changed scanWorker of
                                Inl e \<Rightarrow> (Inl (Wrap ''persistence: update worker: '' e []), d)
                              | Inr new \<Rightarrow>
                                  (case replaceGPUs pool ident (w_GPUs updated) tx of
                                     (Some e, tx) \<Rightarrow> (Inl e, d)
                                   | (None, tx) \<Rightarrow>
                                       (case pg_Commit pool d tx of
                                          (Some e, d') \<Rightarrow> (Inl (Wrap ''persistence: commit update: '' e []), d')
                                        | (None, d') \<Rightarrow> (Inr (new\<lparr>w_GPUs := w_GPUs updated\<rparr>), d'))))))))))"

definition pgw_ListActive :: "'d Pool \<Rightarrow> 'd \<Rightarrow> Worker list result" where
  "pgw_ListActive pool d =
     (case pg_Query pool SelectActiveWorkers [] d of
        Inl e \<Rightarrow> Inl (Wrap ''persistence: list active workers: '' e [])
      | Inr (rows, err) \<Rightarrow>
          (case scan_rows scanWorker ''persistence: scan active worker: '' rows of
             Inl e \<Rightarrow> Inl e
           | Inr active \<Rightarrow>
               (case err of
                  Some e \<Rightarrow> Inl (Wrap ''persistence: iterate active workers: '' e [])
                | None \<Rightarrow> attach_gpus pool active d)))"

definition NewWorkerRepository :: "'d Pool \<Rightarrow> 'd WorkerRepository" where
  "NewWorkerRepository pool =
     \<lparr>wrepo_Create = pgw_Create pool, wrepo_Get = pgw_Get pool, wrepo_List = pgw_List pool,
      wrepo_Update = pgw_Update pool, wrepo_ListActive = pgw_ListActive pool\<rparr>"

end
