(* ===== verification/Postgres_Fleet.thy ===== *)
theory Postgres_Fleet
  imports Postgres_Workers Postgres_Contract
begin

text \<open>
  The PostgreSQL worker repository against the contract of \<^verbatim>\<open>workers.Repository\<close>: what the rows of
  \<^verbatim>\<open>workers\<close> and \<^verbatim>\<open>gpus\<close> keep of a worker, and what each call does to the workers the tables represent
  on a server that satisfies \<open>postgres\<close>.
\<close>

section \<open>Rows\<close>

definition worker_row :: "Worker \<Rightarrow> row" where
  "worker_row w = map stored (workerArgs w)"

definition gpu_row :: "string \<Rightarrow> GPU \<Rightarrow> row" where
  "gpu_row k g = map stored (gpuArgs k g)"

definition device_less :: "GPU \<Rightarrow> GPU \<Rightarrow> bool" where
  "device_less g h \<longleftrightarrow> gpu_DeviceIndex g < gpu_DeviceIndex h"

text \<open>What comes back for a worker: times to the microsecond, no nil slice of running jobs, and the GPUs
  in the order of their indices under their row identifiers.\<close>

definition pg_gpu :: "string \<Rightarrow> GPU \<Rightarrow> GPU" where
  "pg_gpu k g = g\<lparr>gpu_ID := gpuRowID k (gpu_DeviceIndex g)\<rparr>"

definition pg_gpus :: "string \<Rightarrow> GPU list \<Rightarrow> GPU list" where
  "pg_gpus k gs = sort_slice device_less (map (pg_gpu k) gs)"

definition pg_worker :: "Worker \<Rightarrow> Worker" where
  "pg_worker w = w\<lparr>w_RunningJobIDs := nonNilStrings (w_RunningJobIDs w), w_RegisteredAt := micros (w_RegisteredAt w),
     w_LastHeartbeatAt := micros (w_LastHeartbeatAt w), w_GPUs := nil_if_empty (pg_gpus (w_ID w) (elems (w_GPUs w)))\<rparr>"

definition storable_gpu :: "string \<Rightarrow> GPU \<Rightarrow> bool" where
  "storable_gpu k g \<longleftrightarrow> gpu_HealthState g \<noteq> GPUHealthZero \<and> list_all fits (gpuArgs k g)"

text \<open>The workers the tables take: a status, values that fit, and GPUs with a health state and an index
  of their own.\<close>

definition storable_worker :: "Worker \<Rightarrow> bool" where
  "storable_worker w \<longleftrightarrow> w_Status w \<noteq> StatusZero \<and> list_all fits (workerArgs w)
     \<and> distinct (map gpu_DeviceIndex (elems (w_GPUs w))) \<and> (\<forall>g \<in> set (elems (w_GPUs w)). storable_gpu (w_ID w) g)"

lemma elems_nil_if_empty [simp]: "elems (nil_if_empty xs) = xs"
  by (simp add: nil_if_empty_def)

lemma scan_worker_columns [simp]:
  "scan_int_ptr (stored (int_arg n)) = Inr n" "scan_float_ptr (stored (float_arg x)) = Inr x"
  by (simp_all add: int_arg_def float_arg_def split: option.split)

lemma scan_status_string: "s \<noteq> StatusZero \<Longrightarrow> scan_status (PText (status_string s)) = Inr s"
  by (cases s) (simp_all add: scan_status_def)

lemma scan_health_string: "s \<noteq> GPUHealthZero \<Longrightarrow> scan_health (PText (health_string s)) = Inr s"
  by (cases s) (simp_all add: scan_health_def)

lemma worker_row_columns [simp]:
  "worker_row w ! 0 = PText (w_ID w)" "worker_row w ! 2 = PText (status_string (w_Status w))"
  "worker_row w ! 9 = PTime (micros (w_RegisteredAt w))"
  "workerArgs w ! 0 = PText (w_ID w)" "workerArgs w ! 2 = PText (status_string (w_Status w))" "length (workerArgs w) = 11"
  by (simp_all add: worker_row_def workerArgs_def)

lemma gpu_row_columns [simp]:
  "gpu_row k g ! 0 = PText (gpuRowID k (gpu_DeviceIndex g))" "gpu_row k g ! Suc 0 = PText k"
  "gpu_row k g ! 2 = PInt (gpu_DeviceIndex g)"
  "gpuArgs k g ! 0 = PText (gpuRowID k (gpu_DeviceIndex g))" "gpuArgs k g ! Suc 0 = PText k"
  "gpuArgs k g ! 2 = PInt (gpu_DeviceIndex g)" "gpuArgs k g ! 9 = PText (health_string (gpu_HealthState g))"
  "length (gpuArgs k g) = 10"
  by (simp_all add: gpu_row_def gpuArgs_def)

lemma scanWorker_row:
  assumes "w_Status w \<noteq> StatusZero"
  shows "scanWorker (worker_row w) = Inr ((pg_worker w)\<lparr>w_GPUs := None\<rparr>)"
  using assms unfolding scanWorker_def worker_row_def workerArgs_def
  by (cases w) (simp add: scan_status_string pg_worker_def)

lemma scanGPU_row:
  assumes "gpu_HealthState g \<noteq> GPUHealthZero"
  shows "scanGPU (gpu_row k g) = Inr (pg_gpu k g)"
  using assms unfolding scanGPU_def gpu_row_def gpuArgs_def
  by (cases g) (simp add: scan_health_string pg_gpu_def)

lemma pg_gpu_fields [simp]:
  "gpu_DeviceIndex (pg_gpu k g) = gpu_DeviceIndex g" "gpu_HealthState (pg_gpu k g) = gpu_HealthState g"
  "pg_gpu k (pg_gpu k g) = pg_gpu k g" "gpuArgs k (pg_gpu k g) = gpuArgs k g" "gpu_row k (pg_gpu k g) = gpu_row k g"
  by (simp_all add: pg_gpu_def gpuArgs_def gpu_row_def)

lemma row_id_unique:
  assumes "gpuRowID k i = gpuRowID k' i'"
  shows "k = k' \<and> itoa i = itoa i'"
proof -
  have split: "xs = ys \<and> s = t" if "xs @ c # s = ys @ c # t" "c \<notin> set s" "c \<notin> set t" for xs ys s t and c :: char
    using that by (auto simp: append_eq_append_conv2 Cons_eq_append_conv append_eq_Cons_conv)
  have digits: "CHR ''u'' \<notin> set (nat_digits n)" for n
  proof (induction n rule: nat_digits.induct)
    case (1 n)
    then show ?case
      by (auto simp: nat_digits.simps [of n] digit_char_def dest: arg_cong [where f = "of_char :: char \<Rightarrow> nat"])
  qed
  then have "CHR ''u'' \<notin> set (''-'' @ itoa n)" for n by (simp add: itoa_def)
  moreover have "(k @ ''-gp'') @ CHR ''u'' # (''-'' @ itoa i) = (k' @ ''-gp'') @ CHR ''u'' # (''-'' @ itoa i')"
    using assms by (simp add: gpuRowID_def)
  ultimately have "k @ ''-gp'' = k' @ ''-gp'' \<and> ''-'' @ itoa i = ''-'' @ itoa i'" using split by blast
  then show ?thesis by simp
qed

lemma row_id_index:
  assumes "gpuRowID k i = gpuRowID k' i'" "in_i64 i" "in_i64 i'"
  shows "k = k' \<and> i = i'"
proof -
  have "k = k'" "itoa i = itoa i'" using row_id_unique [OF assms(1)] by simp_all
  moreover from this(2) have "Inr i = (Inr i' :: int result)"
    by (simp only: Atoi_itoa [OF assms(2), symmetric] Atoi_itoa [OF assms(3), symmetric])
  ultimately show ?thesis by simp
qed

section \<open>The workers the tables represent\<close>

text \<open>The rows of one worker's GPUs, and tables that represent the list of workers \<open>ws\<close>.\<close>

definition gpu_rows :: "string \<Rightarrow> Tables \<Rightarrow> row list" where
  "gpu_rows k T = filter (\<lambda>r. r ! 1 = PText k) (tb_gpus T)"

text \<open>Tables whose GPU rows are those of the workers in \<open>K\<close>.\<close>

definition gpus_of :: "string set \<Rightarrow> Tables \<Rightarrow> bool" where
  "gpus_of K T \<longleftrightarrow> (\<forall>r \<in> set (tb_gpus T). \<exists>k \<in> K. \<exists>g. r = gpu_row k g \<and> in_i64 (gpu_DeviceIndex g))"

definition good_fleet :: "Worker list \<Rightarrow> bool" where
  "good_fleet ws \<longleftrightarrow> distinct (map w_ID ws) \<and> (\<forall>w \<in> set ws. storable_worker w \<and> pg_worker w = w)"

definition fleet_rep :: "Tables \<Rightarrow> Worker list \<Rightarrow> bool" where
  "fleet_rep T ws \<longleftrightarrow> good_fleet ws \<and> tb_workers T = map worker_row ws
     \<and> (\<forall>w \<in> set ws. sort_slice device_row_less (gpu_rows (w_ID w) T) = map (gpu_row (w_ID w)) (elems (w_GPUs w)))
     \<and> gpus_of (w_ID ` set ws) T"

interpretation device: keyed_less device_less gpu_DeviceIndex
  by unfold_locales (auto simp: device_less_def)

lemma sort_gpu_rows: "sort_slice device_row_less (map (gpu_row k) gs) = map (gpu_row k) (sort_slice device_less gs)"
proof -
  have ins: "insert_by device_row_less (gpu_row k g) (map (gpu_row k) hs) = map (gpu_row k) (insert_by device_less g hs)" for g hs
    by (induction hs) (simp_all add: device_row_less_def device_less_def)
  show ?thesis by (induction gs) (simp_all add: ins)
qed

lemma sort_pg_gpus: "map (gpu_row k) (pg_gpus k gs) = map (gpu_row k) (sort_slice device_less gs)"
proof -
  have ins: "insert_by device_less (pg_gpu k g) (map (pg_gpu k) hs) = map (pg_gpu k) (insert_by device_less g hs)" for g hs
    by (induction hs) (simp_all add: device_less_def)
  have "pg_gpus k gs = map (pg_gpu k) (sort_slice device_less gs)"
    unfolding pg_gpus_def by (induction gs) (simp_all add: ins)
  then show ?thesis by simp
qed

lemma pg_gpus_set: "set (pg_gpus k gs) = pg_gpu k ` set gs"
  by (simp add: pg_gpus_def)

text \<open>What the tables hold for a stored worker is again storable, and stored unchanged.\<close>

lemma pg_gpus_idem [simp]: "pg_gpus k (pg_gpus k gs) = pg_gpus k gs"
proof -
  have "map (pg_gpu k) (pg_gpus k gs) = pg_gpus k gs"
    by (rule map_idI) (auto simp: pg_gpus_set)
  moreover have "sort_slice device_less (pg_gpus k gs) = pg_gpus k gs"
    unfolding pg_gpus_def by (rule device.sort_id) (rule device.ordered_sort)
  ultimately show ?thesis by (simp add: pg_gpus_def [of k "pg_gpus k gs"])
qed

lemma pg_worker_fields [simp]:
  "w_ID (pg_worker w) = w_ID w" "w_Status (pg_worker w) = w_Status w"
  "elems (w_GPUs (pg_worker w)) = pg_gpus (w_ID w) (elems (w_GPUs w))" "pg_worker (pg_worker w) = pg_worker w"
  by (simp_all add: pg_worker_def)

lemma worker_row_pg [simp]: "worker_row (pg_worker w) = worker_row w"
  by (simp add: worker_row_def workerArgs_def pg_worker_def)

lemma storable_pg_worker: "storable_worker w \<Longrightarrow> storable_worker (pg_worker w)"
proof -
  assume w: "storable_worker w"
  have "workerArgs (pg_worker w) = worker_row w"
    by (simp add: worker_row_def workerArgs_def pg_worker_def int_arg_def split: option.split)
  then have "list_all fits (workerArgs (pg_worker w))"
    using w by (simp add: storable_worker_def worker_row_def list_all_iff fits_stored)
  moreover have "mset (map gpu_DeviceIndex (pg_gpus k gs)) = mset (map gpu_DeviceIndex gs)" for k gs
    by (simp add: pg_gpus_def o_def image_mset.compositionality)
  then have "distinct (map gpu_DeviceIndex (pg_gpus k gs)) = distinct (map gpu_DeviceIndex gs)" for k gs
    by (metis mset_eq_imp_distinct_iff)
  ultimately show ?thesis using w by (auto simp: storable_worker_def pg_gpus_set storable_gpu_def)
qed

lemma stored_gpus:
  assumes "pg_worker w = w"
  shows "w_GPUs w = nil_if_empty (elems (w_GPUs w))" "map (pg_gpu (w_ID w)) (elems (w_GPUs w)) = elems (w_GPUs w)"
    "sort_slice device_less (elems (w_GPUs w)) = elems (w_GPUs w)"
proof -
  have e: "w_GPUs w = nil_if_empty (pg_gpus (w_ID w) (elems (w_GPUs w)))"
    using arg_cong [OF assms, of w_GPUs] by (simp add: pg_worker_def)
  then have p: "elems (w_GPUs w) = pg_gpus (w_ID w) (elems (w_GPUs w))" by (metis elems_nil_if_empty)
  with e show "w_GPUs w = nil_if_empty (elems (w_GPUs w))" by simp
  show "map (pg_gpu (w_ID w)) (elems (w_GPUs w)) = elems (w_GPUs w)"
    by (rule map_idI, subst (asm) p) (auto simp: pg_gpus_set)
  have "ordered_by device_less (elems (w_GPUs w))" by (subst p) (simp add: pg_gpus_def device.ordered_sort)
  then show "sort_slice device_less (elems (w_GPUs w)) = elems (w_GPUs w)" by (rule device.sort_id)
qed

lemma fleet_rows_by_id:
  assumes "fleet_rep T ws"
  shows "filter (\<lambda>r. r ! 0 = PText k) (tb_workers T) =
    (case map_of (map (\<lambda>w. (w_ID w, w)) ws) k of None \<Rightarrow> [] | Some w \<Rightarrow> [worker_row w])"
  using filter_key [of w_ID ws k] assms
  by (auto simp: fleet_rep_def good_fleet_def filter_map o_def split: option.splits)

lemma fleet_lookup:
  assumes "fleet_rep T ws"
  shows "map_of (map (\<lambda>w. (w_ID w, w)) ws) k = Some w \<longleftrightarrow> w \<in> set ws \<and> w_ID w = k"
  using assms unfolding fleet_rep_def good_fleet_def
  by (subst map_of_eq_Some_iff) (auto simp: o_def image_iff)

lemma fleet_worker:
  assumes "fleet_rep T ws" "w \<in> set ws"
  shows "storable_worker w" "pg_worker w = w" "scanWorker (worker_row w) = Inr (w\<lparr>w_GPUs := None\<rparr>)"
  using assms scanWorker_row [of w] by (auto simp: fleet_rep_def good_fleet_def storable_worker_def)

lemma scan_gpu_rows:
  "\<forall>g \<in> set gs. gpu_HealthState g \<noteq> GPUHealthZero \<Longrightarrow>
   scan_rows scanGPU p (map (gpu_row k) gs) = Inr (map (pg_gpu k) gs)"
  by (induction gs) (simp_all add: scanGPU_row)

lemma scan_worker_rows:
  "fleet_rep T ws \<Longrightarrow> set vs \<subseteq> set ws \<Longrightarrow>
   scan_rows scanWorker p (map worker_row vs) = Inr (map (\<lambda>w. w\<lparr>w_GPUs := None\<rparr>) vs)"
  by (induction vs) (simp_all add: fleet_worker)

lemma health_text: "s \<noteq> GPUHealthZero \<Longrightarrow> PText (health_string s) \<in> gpu_health_texts"
  by (cases s) (simp_all add: gpu_health_texts_def)

lemma status_text: "s \<noteq> StatusZero \<Longrightarrow> PText (status_string s) \<in> {PText ''ACTIVE'', PText ''LOST''}"
  by (cases s) simp_all

lemma storable_gpu_index: "storable_gpu k g \<Longrightarrow> in_i64 (gpu_DeviceIndex g) \<and> fits_text k"
  by (simp add: storable_gpu_def gpuArgs_def)

lemma storable_worker_text: "storable_worker w \<Longrightarrow> fits_text (w_ID w)"
  by (simp add: storable_worker_def workerArgs_def)

lemma accepts_gpu:
  assumes "gpus_of K T" "storable_gpu k g" "PText k \<in> (\<lambda>r. r ! 0) ` set (tb_workers T)"
  shows "accepts InsertGPU (gpuArgs k g) T \<longleftrightarrow> (\<forall>r \<in> set (gpu_rows k T). r ! 2 \<noteq> PInt (gpu_DeviceIndex g))"
proof -
  have "r ! 0 \<noteq> gpuArgs k g ! 0 \<and> (r ! 1, r ! 2) \<noteq> (gpuArgs k g ! 1, gpuArgs k g ! 2) \<longleftrightarrow>
      (r ! 1 = PText k \<longrightarrow> r ! 2 \<noteq> PInt (gpu_DeviceIndex g))" if r: "r \<in> set (tb_gpus T)" for r
  proof -
    obtain k' h where "r = gpu_row k' h" "in_i64 (gpu_DeviceIndex h)" using assms(1) r by (auto simp: gpus_of_def)
    then show ?thesis using row_id_index [of k' "gpu_DeviceIndex h" k "gpu_DeviceIndex g"] storable_gpu_index [OF assms(2)]
      by auto
  qed
  moreover have "\<exists>r \<in> set (tb_workers T). r ! 0 = gpuArgs k g ! 1" using assms(3) by auto
  ultimately show ?thesis using assms(2) by (auto simp: accepts_def storable_gpu_def health_text gpu_rows_def)
qed

lemma gpu_rows_append [simp]:
  "gpu_rows k (T\<lparr>tb_gpus := tb_gpus T @ [gpu_row k' g]\<rparr>) = gpu_rows k T @ (if k' = k then [gpu_row k' g] else [])"
  by (simp add: gpu_rows_def)

lemma filter_other_gpus:
  "filter (\<lambda>r. r ! Suc 0 = PText k') (map (gpu_row k) gs) = (if k' = k then map (gpu_row k) gs else [])"
  by (induction gs) auto

lemma gpus_of_rows:
  "k \<in> K \<Longrightarrow> \<forall>g \<in> set gs. in_i64 (gpu_DeviceIndex g) \<Longrightarrow> gpus_of K (T\<lparr>tb_gpus := map (gpu_row k) gs\<rparr>)"
  by (auto simp: gpus_of_def)

lemma gpus_of_mono: "gpus_of K T \<Longrightarrow> K \<subseteq> K' \<Longrightarrow> gpus_of K' T"
  unfolding gpus_of_def by blast

lemma gpus_of_append: "gpus_of K (T\<lparr>tb_gpus := xs\<rparr>) \<Longrightarrow> gpus_of K T \<Longrightarrow> gpus_of K (T\<lparr>tb_gpus := tb_gpus T @ xs\<rparr>)"
  unfolding gpus_of_def by auto

text \<open>Replacing the GPUs of one worker, with its row written, keeps the representation.\<close>

lemma fleet_rep_write:
  assumes "fleet_rep T ws" "good_fleet ws'" "tb_workers T' = map worker_row ws'"
    and gpus: "tb_gpus T' = filter (\<lambda>r. r ! 1 \<noteq> PText (w_ID w)) (tb_gpus T) @ map (gpu_row (w_ID w)) (elems (w_GPUs w))"
    and w: "storable_worker w" "pg_worker w \<in> set ws'" "w_ID ` set ws \<subseteq> w_ID ` set ws'"
    and others: "\<And>v. v \<in> set ws' \<Longrightarrow> v = pg_worker w \<or> v \<in> set ws \<and> w_ID v \<noteq> w_ID w"
  shows "fleet_rep T' ws'"
proof -
  have "sort_slice device_row_less (gpu_rows (w_ID v) T') = map (gpu_row (w_ID v)) (elems (w_GPUs v))" if v: "v \<in> set ws'" for v
  proof (cases "v = pg_worker w")
    case True
    then have "gpu_rows (w_ID v) T' = map (gpu_row (w_ID w)) (elems (w_GPUs w))"
      by (simp add: gpu_rows_def gpus filter_other_gpus)
    with True show ?thesis by (simp add: sort_gpu_rows sort_pg_gpus)
  next
    case False
    with others [OF v] have old: "v \<in> set ws" "w_ID v \<noteq> w_ID w" by simp_all
    then have "gpu_rows (w_ID v) T' = gpu_rows (w_ID v) T"
      by (simp add: gpu_rows_def gpus filter_other_gpus) (rule filter_cong; auto)
    with old show ?thesis using assms(1) by (simp add: fleet_rep_def)
  qed
  moreover have "gpus_of (w_ID ` set ws') T'"
  proof -
    have "w_ID w \<in> w_ID ` set ws'" using imageI [OF w(2), of w_ID] by simp
    moreover have "\<forall>g \<in> set (elems (w_GPUs w)). in_i64 (gpu_DeviceIndex g)"
      using w(1) storable_gpu_index by (auto simp: storable_worker_def)
    ultimately have "gpus_of (w_ID ` set ws') (T\<lparr>tb_gpus := map (gpu_row (w_ID w)) (elems (w_GPUs w))\<rparr>)"
      by (rule gpus_of_rows)
    moreover have "gpus_of (w_ID ` set ws') T"
      using assms(1) w(3) by (auto simp: fleet_rep_def intro: gpus_of_mono)
    ultimately show ?thesis by (auto simp: gpus_of_def gpus)
  qed
  ultimately show ?thesis using assms(2,3) by (simp add: fleet_rep_def)
qed

lemma registered_rows:
  "pg_worker v = v \<Longrightarrow> pg_worker w = w \<Longrightarrow> registered_row_less (worker_row v) (worker_row w) = registered_less v w"
proof -
  assume "pg_worker v = v" "pg_worker w = w"
  then have "micros (w_RegisteredAt v) = w_RegisteredAt v" "micros (w_RegisteredAt w) = w_RegisteredAt w"
    by (metis (no_types, lifting) Worker.select_convs(11) Worker.surjective Worker.update_convs(7,10,11,12) pg_worker_def)+
  then show ?thesis by (auto simp: registered_row_less_def registered_less_def)
qed

lemma active_rows:
  assumes "fleet_rep T ws"
  shows "sort_slice registered_row_less (filter (\<lambda>r. r ! 2 = PText ''ACTIVE'') (tb_workers T)) =
    map worker_row (sort_slice registered_less (filter (\<lambda>w. w_Status w = StatusActive) ws))"
proof -
  have "status_string s = ''ACTIVE'' \<longleftrightarrow> s = StatusActive" for s by (cases s) simp_all
  then have "filter (\<lambda>r. r ! 2 = PText ''ACTIVE'') (tb_workers T) = map worker_row (filter (\<lambda>w. w_Status w = StatusActive) ws)"
    using assms by (simp add: fleet_rep_def filter_map o_def)
  moreover have "sort_slice (\<lambda>v w. registered_row_less (worker_row v) (worker_row w)) (filter (\<lambda>w. w_Status w = StatusActive) ws)
      = sort_slice registered_less (filter (\<lambda>w. w_Status w = StatusActive) ws)"
    by (rule sort_slice_cong) (use assms in \<open>simp add: registered_rows fleet_worker\<close>)
  ultimately show ?thesis by (simp add: sort_slice_map)
qed

text \<open>The update of one row.\<close>

definition replace_worker :: "Worker \<Rightarrow> Worker \<Rightarrow> Worker" where
  "replace_worker w' v = (if w_ID v = w_ID w' then pg_worker w' else v)"

lemma replace_worker_id [simp]: "w_ID (replace_worker w' v) = w_ID v"
  by (simp add: replace_worker_def)

lemma good_fleet_replace:
  assumes "fleet_rep T ws" "storable_worker w'"
  shows "good_fleet (map (replace_worker w') ws)"
proof -
  have "map w_ID (map (replace_worker w') ws) = map w_ID ws" by simp
  then have "distinct (map w_ID (map (replace_worker w') ws))"
    using assms(1) by (simp only: fleet_rep_def good_fleet_def)
  moreover have "storable_worker (replace_worker w' v) \<and> pg_worker (replace_worker w' v) = replace_worker w' v"
    if "v \<in> set ws" for v
    using that assms by (simp add: replace_worker_def storable_pg_worker fleet_worker)
  ultimately show ?thesis unfolding good_fleet_def by auto
qed

lemma sql_UpdateWorker:
  assumes "fleet_rep T ws" "w \<in> set ws" "w_ID w' = w_ID w"
  shows "sql UpdateWorker (workerArgs w') T =
    ([worker_row w'], T\<lparr>tb_workers := map worker_row (map (replace_worker w') ws)\<rparr>)"
proof -
  let ?new = "\<lambda>r. r ! 0 # map stored (tl (workerArgs w'))"
  have new: "?new (worker_row v) = worker_row w'" if "w_ID v = w_ID w'" for v
    using that by (simp add: worker_row_def workerArgs_def)
  have "map_of (map (\<lambda>w. (w_ID w, w)) ws) (w_ID w') = Some w"
    using fleet_lookup [OF assms(1), of "w_ID w'" w] assms(2,3) by simp
  then have "filter (\<lambda>r. r ! 0 = PText (w_ID w')) (tb_workers T) = [worker_row w]"
    by (simp add: fleet_rows_by_id [OF assms(1)])
  moreover have "map (\<lambda>r. if r ! 0 = PText (w_ID w') then ?new r else r) (tb_workers T) =
      map worker_row (map (replace_worker w') ws)"
    using assms(1) new by (auto simp: fleet_rep_def replace_worker_def)
  ultimately show ?thesis using new [of w] assms(3) by (simp only: sql.simps Let_def list.map worker_row_columns)
qed

section \<open>The calls\<close>

context postgres
begin

lemma insert_gpus_law:
  assumes "gpus_of K (tables_of d)" "k \<in> K" "\<forall>g \<in> set gs. storable_gpu k g"
    "PText k \<in> (\<lambda>r. r ! 0) ` set (tb_workers (tables_of d))" "insert_gpus pool k gs d = (e, d')"
  shows "(e = None \<longleftrightarrow> distinct (map gpu_DeviceIndex gs)
        \<and> (\<forall>g \<in> set gs. \<forall>r \<in> set (gpu_rows k (tables_of d)). r ! 2 \<noteq> PInt (gpu_DeviceIndex g)))
    \<and> (e = None \<longrightarrow> tables_of d' = (tables_of d)\<lparr>tb_gpus := tb_gpus (tables_of d) @ map (gpu_row k) gs\<rparr>)"
  using assms
proof (induction gs arbitrary: d)
  case (Cons g gs)
  obtain e1 d1 where x: "pg_Exec pool InsertGPU (gpuArgs k g) d = (e1, d1)" by (rule prod.exhaust)
  have acc: "accepts InsertGPU (gpuArgs k g) (tables_of d) \<longleftrightarrow>
      (\<forall>r \<in> set (gpu_rows k (tables_of d)). r ! 2 \<noteq> PInt (gpu_DeviceIndex g))"
    by (rule accepts_gpu [OF Cons.prems(1) _ Cons.prems(4)]) (use Cons.prems(3) in simp)
  show ?case
  proof (cases "accepts InsertGPU (gpuArgs k g) (tables_of d)")
    case False
    then have "e1 \<noteq> None" using exec_rejected x by blast
    with False acc x Cons.prems(5) show ?thesis by auto
  next
    case True
    have d1: "e1 = None" "tables_of d1 = (tables_of d)\<lparr>tb_gpus := tb_gpus (tables_of d) @ [gpu_row k g]\<rparr>"
      using exec_law [OF True x] by (simp_all add: gpu_row_def)
    have "gpus_of K (tables_of d1)" unfolding d1
      using gpus_of_append [OF gpus_of_rows [of k K "[g]"] Cons.prems(1)] Cons.prems(2,3) storable_gpu_index [of k g] by simp
    moreover have "insert_gpus pool k gs d1 = (e, d')" using Cons.prems(5) x d1 by simp
    ultimately have ih: "(e = None \<longleftrightarrow> distinct (map gpu_DeviceIndex gs)
        \<and> (\<forall>h \<in> set gs. \<forall>r \<in> set (gpu_rows k (tables_of d) @ [gpu_row k g]). r ! 2 \<noteq> PInt (gpu_DeviceIndex h)))
      \<and> (e = None \<longrightarrow> tables_of d' = (tables_of d)\<lparr>tb_gpus := tb_gpus (tables_of d) @ map (gpu_row k) (g # gs)\<rparr>)"
      using Cons.IH [of d1] Cons.prems(2-4) d1 by simp
    have "(\<forall>h \<in> set gs. \<forall>r \<in> set (gpu_rows k (tables_of d) @ [gpu_row k g]). r ! 2 \<noteq> PInt (gpu_DeviceIndex h)) \<longleftrightarrow>
        gpu_DeviceIndex g \<notin> set (map gpu_DeviceIndex gs)
        \<and> (\<forall>h \<in> set gs. \<forall>r \<in> set (gpu_rows k (tables_of d)). r ! 2 \<noteq> PInt (gpu_DeviceIndex h))"
      by auto
    with ih True [unfolded acc] show ?thesis by (simp only: list.map distinct.simps list.set) blast
  qed
qed simp

lemma replaceGPUs_law:
  assumes "gpus_of K (tables_of d)" "k \<in> K" "\<forall>g \<in> set (elems gs). storable_gpu k g" "fits_text k"
    "PText k \<in> (\<lambda>r. r ! 0) ` set (tb_workers (tables_of d))" "replaceGPUs pool k gs d = (e, d')"
  shows "(e = None \<longleftrightarrow> distinct (map gpu_DeviceIndex (elems gs)))
    \<and> (e = None \<longrightarrow> tables_of d' = (tables_of d)\<lparr>tb_gpus :=
         filter (\<lambda>r. r ! 1 \<noteq> PText k) (tb_gpus (tables_of d)) @ map (gpu_row k) (elems gs)\<rparr>)"
proof -
  obtain e1 d1 where x: "pg_Exec pool DeleteGPUs [PText k] d = (e1, d1)" by (rule prod.exhaust)
  have d1: "e1 = None" "tables_of d1 = (tables_of d)\<lparr>tb_gpus := filter (\<lambda>r. r ! 1 \<noteq> PText k) (tb_gpus (tables_of d))\<rparr>"
    using exec_law [OF _ x] assms(4) by (simp_all add: accepts_def)
  have "gpus_of K (tables_of d1)" "gpu_rows k (tables_of d1) = []"
    using assms(1) by (auto simp: gpus_of_def d1 gpu_rows_def)
  moreover have "insert_gpus pool k (elems gs) d1 = (e, d')" using assms(6) x d1 by (simp add: replaceGPUs_def)
  ultimately show ?thesis using insert_gpus_law [of K d1 k "elems gs" e d'] assms(2,3,5) d1 by simp
qed

lemma getGPUs_law:
  assumes "fleet_rep (tables_of d) ws" "w \<in> set ws"
  shows "getGPUs pool (w_ID w) d = Inr (w_GPUs w)"
proof -
  note w = fleet_worker [OF assms]
  have "accepts SelectGPUsByWorkerID [PText (w_ID w)] (tables_of d)"
    using storable_worker_text [OF w(1)] by (simp add: accepts_def)
  from query_law [OF this] have "pg_Query pool SelectGPUsByWorkerID [PText (w_ID w)] d =
      Inr (map (gpu_row (w_ID w)) (elems (w_GPUs w)), None)"
    using assms by (simp add: fleet_rep_def gpu_rows_def)
  moreover have "\<forall>g \<in> set (elems (w_GPUs w)). gpu_HealthState g \<noteq> GPUHealthZero"
    using w(1) by (simp add: storable_worker_def storable_gpu_def)
  ultimately show ?thesis using stored_gpus [OF w(2)] by (simp add: getGPUs_def scan_gpu_rows)
qed

lemma select_worker:
  assumes "fleet_rep (tables_of d) ws" "fits_text k" "s = SelectWorkerByID \<or> s = SelectWorkerByIDForUpdate"
    "pg_QueryRow pool s [PText k] d = (x, d')"
  shows "bind_result x scanWorker = (case map_of (map (\<lambda>w. (w_ID w, w)) ws) k of
      None \<Rightarrow> Inl Pgx_ErrNoRows | Some w \<Rightarrow> Inr (w\<lparr>w_GPUs := None\<rparr>)) \<and> tables_of d' = tables_of d"
proof -
  have acc: "accepts s [PText k] (tables_of d)" using assms(2,3) by (elim disjE) (simp_all add: accepts_def)
  have "sql s [PText k] (tables_of d) = (filter (\<lambda>r. r ! 0 = PText k) (tb_workers (tables_of d)), tables_of d)"
    using assms(3) by (elim disjE) simp_all
  with query_row_law [OF acc assms(4)]
  have "x = first_row (case map_of (map (\<lambda>w. (w_ID w, w)) ws) k of None \<Rightarrow> [] | Some w \<Rightarrow> [worker_row w])"
    "tables_of d' = tables_of d"
    by (simp_all add: fleet_rows_by_id [OF assms(1)])
  moreover have "scanWorker (worker_row w) = Inr (w\<lparr>w_GPUs := None\<rparr>)"
    if "map_of (map (\<lambda>w. (w_ID w, w)) ws) k = Some w" for w
    using that fleet_lookup [OF assms(1), of k w] fleet_worker(3) [OF assms(1), of w] by blast
  ultimately show ?thesis by (cases "map_of (map (\<lambda>w. (w_ID w, w)) ws) k") (simp_all add: first_row_def)
qed

lemma pgw_Get_law:
  assumes "fleet_rep (tables_of d) ws" "fits_text k"
  shows "pgw_Get pool k d =
    (case map_of (map (\<lambda>w. (w_ID w, w)) ws) k of None \<Rightarrow> Inl Workers_ErrNotFound | Some w \<Rightarrow> Inr w)"
proof -
  obtain x d' where x: "pg_QueryRow pool SelectWorkerByID [PText k] d = (x, d')" by (rule prod.exhaust)
  show ?thesis
  proof (cases "map_of (map (\<lambda>w. (w_ID w, w)) ws) k")
    case None
    then show ?thesis using select_worker [OF assms _ x] x by (simp add: pgw_Get_def)
  next
    case (Some w)
    then have w: "w \<in> set ws" "w_ID w = k" by (simp_all add: fleet_lookup [OF assms(1)])
    from getGPUs_law [OF assms(1) w(1)] Some w select_worker [OF assms _ x] x show ?thesis by (simp add: pgw_Get_def)
  qed
qed

lemma attach_gpus_law:
  assumes "fleet_rep (tables_of d) ws" "set vs \<subseteq> set ws"
  shows "attach_gpus pool (map (\<lambda>w. w\<lparr>w_GPUs := None\<rparr>) vs) d = Inr vs"
  using assms(2)
proof (induction vs)
  case (Cons v vs)
  then show ?case using getGPUs_law [OF assms(1), of v] by simp
qed simp

lemma pgw_ListActive_law:
  assumes "fleet_rep (tables_of d) ws"
  shows "pgw_ListActive pool d = Inr (sort_slice registered_less (filter (\<lambda>w. w_Status w = StatusActive) ws))"
proof -
  let ?vs = "sort_slice registered_less (filter (\<lambda>w. w_Status w = StatusActive) ws)"
  have "accepts SelectActiveWorkers [] (tables_of d)" by (simp add: accepts_def)
  from query_law [OF this] have "pg_Query pool SelectActiveWorkers [] d = Inr (map worker_row ?vs, None)"
    by (simp add: active_rows [OF assms])
  moreover have "set ?vs \<subseteq> set ws" by auto
  ultimately show ?thesis
    using scan_worker_rows [OF assms] attach_gpus_law [OF assms] by (simp add: pgw_ListActive_def)
qed

text \<open>A new worker is stored as it comes back from its row; a second GPU with the same index is refused.\<close>

lemma pgw_Create_law:
  assumes rep: "fleet_rep (tables_of d) ws" and new: "w_ID w \<notin> w_ID ` set ws"
    and w: "w_Status w \<noteq> StatusZero" "list_all fits (workerArgs w)" "\<forall>g \<in> set (elems (w_GPUs w)). storable_gpu (w_ID w) g"
    and run: "pgw_Create pool w d = (x, d')"
  shows "if storable_worker w
    then x = Inr ((pg_worker w)\<lparr>w_GPUs := w_GPUs w\<rparr>) \<and> fleet_rep (tables_of d') (ws @ [pg_worker w])
      \<and> tb_jobs (tables_of d') = tb_jobs (tables_of d)
    else d' = d \<and> (\<exists>e. x = Inl e)"
proof -
  let ?T = "tables_of d"
  obtain y d1 where q: "pg_QueryRow pool InsertWorker (workerArgs w) d = (y, d1)" by (rule prod.exhaust)
  have other: "w_ID v \<noteq> w_ID w" if "v \<in> set ws" for v using new imageI [OF that, of w_ID] by auto
  then have "\<forall>r \<in> set (tb_workers ?T). r ! 0 \<noteq> workerArgs w ! 0"
    using rep by (auto simp: fleet_rep_def)
  then have "accepts InsertWorker (workerArgs w) ?T" using w status_text by (simp add: accepts_def)
  from query_row_law [OF this q]
  have y: "y = Inr (worker_row w)" and d1: "tables_of d1 = ?T\<lparr>tb_workers := tb_workers ?T @ [worker_row w]\<rparr>"
    by (simp_all add: first_row_def worker_row_def)
  obtain e d2 where r: "replaceGPUs pool (w_ID w) (w_GPUs w) d1 = (e, d2)" by (rule prod.exhaust)
  have "gpus_of (insert (w_ID w) (w_ID ` set ws)) (tables_of d1)"
    using rep gpus_of_mono [of "w_ID ` set ws" ?T] by (auto simp: fleet_rep_def gpus_of_def d1)
  from replaceGPUs_law [OF this _ w(3) _ _ r]
  have e: "e = None \<longleftrightarrow> storable_worker w"
    "e = None \<Longrightarrow> tables_of d2 = (tables_of d1)\<lparr>tb_gpus :=
       filter (\<lambda>r. r ! 1 \<noteq> PText (w_ID w)) (tb_gpus ?T) @ map (gpu_row (w_ID w)) (elems (w_GPUs w))\<rparr>"
    using w by (auto simp: d1 storable_worker_def workerArgs_def)
  obtain c d3 where c: "pg_Commit pool d d2 = (c, d3)" by (rule prod.exhaust)
  note end_law = commit_law [OF c]
  show ?thesis
  proof (cases "storable_worker w")
    case False
    with e run q y w(1) r begin_law show ?thesis by (auto simp: pgw_Create_def scanWorker_row)
  next
    case True
    have "fleet_rep (tables_of d2) (ws @ [pg_worker w])"
      by (rule fleet_rep_write [OF rep _ _ _ True])
        (use rep new other True e in \<open>auto simp: fleet_rep_def good_fleet_def d1 storable_pg_worker\<close>)
    with True e run q y w(1) r begin_law c end_law show ?thesis by (auto simp: pgw_Create_def scanWorker_row d1)
  qed
qed

lemma pgw_Update_missing:
  assumes "fleet_rep (tables_of d) ws" "fits_text k" "k \<notin> w_ID ` set ws"
  shows "pgw_Update pool k fn d = (Inl Workers_ErrNotFound, d)"
proof -
  obtain x d' where x: "pg_QueryRow pool SelectWorkerByIDForUpdate [PText k] d = (x, d')" by (rule prod.exhaust)
  have "map_of (map (\<lambda>w. (w_ID w, w)) ws) k = None" using assms(3) by (auto simp: map_of_eq_None_iff)
  then show ?thesis using select_worker [OF assms(1,2) _ x] x begin_law by (simp add: pgw_Update_def)
qed

lemma read_for_update:
  assumes "fleet_rep (tables_of d) ws" "w \<in> set ws"
  obtains y d0 where "pg_QueryRow pool SelectWorkerByIDForUpdate [PText (w_ID w)] d = (y, d0)"
    "bind_result y scanWorker = Inr (w\<lparr>w_GPUs := None\<rparr>)" "tables_of d0 = tables_of d"
    "getGPUs pool (w_ID w) d0 = Inr (w_GPUs w)"
proof -
  obtain y d0 where q: "pg_QueryRow pool SelectWorkerByIDForUpdate [PText (w_ID w)] d = (y, d0)" by (rule prod.exhaust)
  have "fits_text (w_ID w)" using storable_worker_text fleet_worker [OF assms] by blast
  moreover have "map_of (map (\<lambda>w. (w_ID w, w)) ws) (w_ID w) = Some w"
    using fleet_lookup [OF assms(1), of "w_ID w" w] assms(2) by simp
  ultimately have y: "bind_result y scanWorker = Inr (w\<lparr>w_GPUs := None\<rparr>)" "tables_of d0 = tables_of d"
    using select_worker [OF assms(1) _ _ q] by simp_all
  moreover have "getGPUs pool (w_ID w) d0 = Inr (w_GPUs w)" by (rule getGPUs_law [OF _ assms(2)]) (simp add: y assms(1))
  ultimately show thesis using q that by blast
qed

lemma pgw_Update_error:
  assumes "fleet_rep (tables_of d) ws" "w \<in> set ws" "fn w = Inl e"
  shows "pgw_Update pool (w_ID w) fn d = (Inl e, d)"
  by (rule read_for_update [OF assms(1,2)]) (simp add: pgw_Update_def begin_law assms(3))

lemma pgw_Update_law:
  assumes rep: "fleet_rep (tables_of d) ws" and w: "w \<in> set ws" and fn: "fn w = Inr w'" and id: "w_ID w' = w_ID w"
    and st: "w_Status w' \<noteq> StatusZero" "list_all fits (workerArgs w')"
    and sg: "\<forall>g \<in> set (elems (w_GPUs w')). storable_gpu (w_ID w) g"
    and run: "pgw_Update pool (w_ID w) fn d = (x, d')"
  shows "if storable_worker w'
    then x = Inr ((pg_worker w')\<lparr>w_GPUs := w_GPUs w'\<rparr>) \<and> fleet_rep (tables_of d') (map (replace_worker w') ws)
      \<and> tb_jobs (tables_of d') = tb_jobs (tables_of d)
    else d' = d \<and> (\<exists>e. x = Inl e)"
proof -
  let ?T = "tables_of d"
  have fits: "fits_text (w_ID w)" using storable_worker_text fleet_worker [OF rep w] by blast
  obtain y d0 where q: "pg_QueryRow pool SelectWorkerByIDForUpdate [PText (w_ID w)] d = (y, d0)"
    "bind_result y scanWorker = Inr (w\<lparr>w_GPUs := None\<rparr>)" "tables_of d0 = ?T" "getGPUs pool (w_ID w) d0 = Inr (w_GPUs w)"
    by (rule read_for_update [OF rep w])
  obtain u d1 where q1: "pg_QueryRow pool UpdateWorker (workerArgs w') d0 = (u, d1)" by (rule prod.exhaust)
  have "accepts UpdateWorker (workerArgs w') (tables_of d0)" using st status_text by (simp add: accepts_def)
  from query_row_law [OF this q1]
  have u: "u = Inr (worker_row w')" and d1: "tables_of d1 = ?T\<lparr>tb_workers := map worker_row (map (replace_worker w') ws)\<rparr>"
    by (simp_all add: q sql_UpdateWorker [OF rep w id] first_row_def del: sql.simps)
  obtain e d2 where r: "replaceGPUs pool (w_ID w) (w_GPUs w') d1 = (e, d2)" by (rule prod.exhaust)
  have "gpus_of (w_ID ` set ws) (tables_of d1)" using rep by (simp add: fleet_rep_def gpus_of_def d1)
  moreover have "PText (w_ID w) \<in> (\<lambda>r. r ! 0) ` set (tb_workers (tables_of d1))"
    using imageI [OF w, of "\<lambda>v. PText (w_ID v)"] by (simp add: d1 image_image)
  ultimately have e: "e = None \<longleftrightarrow> storable_worker w'"
    "e = None \<Longrightarrow> tables_of d2 = (tables_of d1)\<lparr>tb_gpus :=
       filter (\<lambda>r. r ! 1 \<noteq> PText (w_ID w')) (tb_gpus ?T) @ map (gpu_row (w_ID w')) (elems (w_GPUs w'))\<rparr>"
    using replaceGPUs_law [OF _ _ sg fits _ r] st sg id imageI [OF w, of w_ID] by (simp_all add: d1 storable_worker_def)
  obtain c d3 where c: "pg_Commit pool d d2 = (c, d3)" by (rule prod.exhaust)
  note body = pgw_Update_def begin_law q fn q1 u r scanWorker_row [OF st(1)]
  show ?thesis
  proof (cases "storable_worker w'")
    case False
    with e run show ?thesis by (auto simp: body)
  next
    case True
    have "w_ID ` set ws \<subseteq> w_ID ` set (map (replace_worker w') ws)" by (simp add: image_image)
    moreover have "pg_worker w' \<in> set (map (replace_worker w') ws)"
      using imageI [OF w, of "replace_worker w'"] id by (simp add: replace_worker_def)
    ultimately have "fleet_rep (tables_of d2) (map (replace_worker w') ws)"
      by (intro fleet_rep_write [OF rep good_fleet_replace [OF rep True] _ _ True])
        (use e True in \<open>auto simp: d1 replace_worker_def\<close>)
    with True e run c commit_law [OF c] show ?thesis by (auto simp: body d1)
  qed
qed

end

section \<open>The contract\<close>

text \<open>What the columns take of a worker, its GPUs one by one.\<close>

definition worker_values :: "Worker \<Rightarrow> bool" where
  "worker_values w \<longleftrightarrow> w_Status w \<noteq> StatusZero \<and> list_all fits (workerArgs w)
     \<and> (\<forall>g \<in> set (elems (w_GPUs w)). storable_gpu (w_ID w) g)"

lemma storable_values: "worker_values w \<Longrightarrow> storable_worker w \<longleftrightarrow> distinct (map gpu_DeviceIndex (elems (w_GPUs w)))"
  by (auto simp: worker_values_def storable_worker_def)


definition fleet_gpu :: "int \<Rightarrow> GPU" where
  "fleet_gpu i = \<lparr>gpu_ID = [], gpu_DeviceIndex = i, gpu_UUID = ''GPU'', gpu_TotalMemoryBytes = 80, gpu_AllocatedMemoryBytes = 0,
     gpu_UtilizationPercent = f_zero, gpu_TemperatureCelsius = None, gpu_MIGProfile = [], gpu_HealthState = GPUHealthy\<rparr>"

definition fleet_sample :: "int list \<Rightarrow> Worker" where
  "fleet_sample is = \<lparr>w_ID = ''w'', w_Hostname = ''host'', w_Status = StatusActive, w_LeaseID = Some 1, w_CPUCapacity = f_zero,
     w_MemoryCapacityBytes = 64, w_GPUs = Some (map fleet_gpu is), w_SoftwareVersion = [], w_Labels = None,
     w_RunningJobIDs = None, w_RegisteredAt = 0, w_LastHeartbeatAt = 0\<rparr>"

lemma fleet_sample_values: "worker_values (fleet_sample [1, 0])" "worker_values (fleet_sample [0, 0])"
proof -
  have texts: "fits_text ''w''" "fits_text ''host''" "fits_text ''GPU''" "fits_text ''HEALTHY''" "fits_text ''ACTIVE''"
    "fits_text ''w-gpu-0''" "fits_text ''w-gpu-1''"
    by (simp_all add: fits_ascii)
  have ids: "gpuRowID ''w'' 0 = ''w-gpu-0''" "gpuRowID ''w'' 1 = ''w-gpu-1''" by code_simp+
  show "worker_values (fleet_sample [1, 0])" "worker_values (fleet_sample [0, 0])"
    by (simp_all add: worker_values_def fleet_sample_def fleet_gpu_def workerArgs_def storable_gpu_def gpuArgs_def texts ids
        int_arg_def float_arg_def texts_arg_def nonNilStrings_def in_i64_def fits_time_def)
qed


end
