(* ===== verification/Postgres_Decisions.thy ===== *)
theory Postgres_Decisions
  imports Postgres_Contract Scheduler_Service
begin

text \<open>
  \<^verbatim>\<open>internal/persistence/scheduling_decision_repository.go\<close>: the PostgreSQL implementation of
  \<^verbatim>\<open>scheduler.DecisionRepository\<close>.  In the scheduler process it shares the database with the job
  repository; a decision row refers to the row of its job.
\<close>

definition pgd_Record :: "'d Pool \<Rightarrow> string \<Rightarrow> string \<Rightarrow> string \<Rightarrow> 'd \<Rightarrow> goerr option \<times> 'd" where
  "pgd_Record pool jobID workerID reason d =
     (case pg_Exec pool InsertDecision [PText jobID, PTexts [workerID], PText ''ASSIGNED'', PText reason] d of
        (Some e, d') \<Rightarrow> (Some (Wrap ''persistence: record scheduling decision: '' e []), d')
      | (None, d') \<Rightarrow> (None, d'))"

definition NewSchedulingDecisionRepository :: "'d Pool \<Rightarrow> 'd DecisionRepository" where
  "NewSchedulingDecisionRepository pool = \<lparr>dec_Record = pgd_Record pool\<rparr>"

definition decision_row :: "string \<Rightarrow> string \<Rightarrow> string \<Rightarrow> row" where
  "decision_row jobID workerID reason = [PText jobID, PTexts [workerID], PText ''ASSIGNED'', PText reason]"

lemma fits_assigned [simp]: "fits_text ''ASSIGNED''"
  by (simp add: fits_ascii)

context postgres
begin

text \<open>The insert takes effect exactly for a stored job and texts the columns take.\<close>

lemma pgd_Record_law:
  assumes "pg_ok (tables_of d)" "pgd_Record pool k w s d = (e, d')"
  shows "(e = None \<longleftrightarrow> pg_jobs (tables_of d) k \<noteq> None \<and> fits_text w \<and> fits_text s)
    \<and> (e = None \<longrightarrow> tables_of d' = (tables_of d)\<lparr>tb_decisions := tb_decisions (tables_of d) @ [decision_row k w s]\<rparr>)"
proof -
  let ?T = "tables_of d" and ?args = "[PText k, PTexts [w], PText ''ASSIGNED'', PText s]"
  have "(\<exists>r \<in> set (tb_jobs ?T). r ! 0 = PText k) \<longleftrightarrow> filter (\<lambda>r. r ! 0 = PText k) (tb_jobs ?T) \<noteq> []"
    by (simp add: filter_empty_conv)
  also have "\<dots> \<longleftrightarrow> pg_jobs ?T k \<noteq> None"
    by (simp only: pg_rows_by_id [OF assms(1)]) (simp split: option.split)
  finally have "(\<exists>r \<in> set (tb_jobs ?T). r ! 0 = PText k) \<longleftrightarrow> pg_jobs ?T k \<noteq> None" .
  moreover have "fits_text k" if "pg_jobs ?T k = Some j" for j
    using that assms(1) storable_texts by (auto simp: pg_jobs_Some pg_ok_def good_jobs_def)
  ultimately have acc: "accepts InsertDecision ?args ?T \<longleftrightarrow> pg_jobs ?T k \<noteq> None \<and> fits_text w \<and> fits_text s"
    by (auto simp: accepts_def)
  obtain x t where q: "pg_Exec pool InsertDecision ?args d = (x, t)" by (rule prod.exhaust)
  show ?thesis
  proof (cases "accepts InsertDecision ?args ?T")
    case True
    from exec_law [OF True q] True acc q assms(2) show ?thesis by (auto simp: pgd_Record_def decision_row_def)
  next
    case False
    from exec_rejected [OF False q] False acc q assms(2) show ?thesis by (auto simp: pgd_Record_def)
  qed
qed

text \<open>A job just assigned is stored, so its decision can be recorded, and recording it changes no job.\<close>

lemma assigned_then_recorded:
  assumes "pg_ok (tables_of d)" "AssignToWorkers (NewJobRepository pool) k [w] d = (Inr j, d1)"
    "fits_text w" "fits_text s" "pgd_Record pool k w s d1 = (e, d2)"
  shows "e = None \<and> pg_ok (tables_of d2) \<and> pg_jobs (tables_of d2) = pg_jobs (tables_of d1)
    \<and> tb_decisions (tables_of d2) = tb_decisions (tables_of d1) @ [decision_row k w s]
    \<and> pg_jobs (tables_of d1) k = Some j \<and> job_State j = StateScheduled \<and> elems (job_AssignedWorkerIDs j) = [w]"
proof -
  have run: "pgj_Update pool k (AssignToWorkers_fn [w]) d = (Inr j, d1)"
    using assms(2) by (simp add: AssignToWorkers_def NewJobRepository_def)
  have "keeps_identity (AssignToWorkers_fn [w])"
    by (auto simp: keeps_identity_def AssignToWorkers_fn_def job_ranges_def split: if_splits)
  from pgj_Update_effect [OF assms(1) this run] obtain i i' where i: "AssignToWorkers_fn [w] i = Inr i'"
    "j = pg_norm i'" "pg_ok (tables_of d1)" "pg_jobs (tables_of d1) = (pg_jobs (tables_of d))(k \<mapsto> j)" by auto
  then have j: "pg_jobs (tables_of d1) k = Some j" "job_State j = StateScheduled" "elems (job_AssignedWorkerIDs j) = [w]"
    by (auto simp: AssignToWorkers_fn_def norm_job_def copy_slice_def split: if_splits)
  from pgd_Record_law [OF i(3) assms(5)] j assms(3,4)
  have "e = None" "tables_of d2 = (tables_of d1)\<lparr>tb_decisions := tb_decisions (tables_of d1) @ [decision_row k w s]\<rparr>"
    by simp_all
  with i(3) j show ?thesis by (simp add: pg_ok_def pg_jobs_def pg_list_def)
qed

end

end
