(* ===== verification/Spec2Isabelle.thy ===== *)
theory Spec2Isabelle
  imports Process_Properties Agent_Properties Agent_Config Postgres_Fleet Postgres_Decisions
begin

text \<open>
  OrionQueue is a GPU job queue.  Clients submit jobs over gRPC or REST to the API server
  (\<^verbatim>\<open>src/cmd/api\<close>), which keeps them in PostgreSQL.  Worker processes register with the API server, keep
  an etcd lease alive by heartbeats, and learn from each heartbeat's answer which jobs to start and to
  stop.  A scheduler process (\<^verbatim>\<open>src/cmd/scheduler\<close>), elected among its replicas through etcd, repeatedly
  reads all active jobs and workers, plans, and writes assignments and preemptions.  When a lease runs
  out the API server marks its worker LOST and puts the worker's jobs back into the queue.

  \<^bold>\<open>Conventions.\<close>  A definition has the name of the Go function it translates; a prefix tells apart
  functions of the same name (\<open>mem_\<close>, \<open>wmem_\<close> for the in-memory repositories, \<open>pgj_\<close>, \<open>pgw_\<close>, \<open>pgd_\<close> for
  the PostgreSQL ones, \<open>fake_\<close>, \<open>etcd_\<close> for the lease managers).  A Go interface is a record of functions
  over an arbitrary state, and a locale states what its users rely on; every implementation in the
  repository is an interpretation.  A slice is an option of a list, so that nil and empty differ.  Errors
  are values of \<open>goerr\<close>, with wrapping, \<^verbatim>\<open>errors.Is\<close> and \<^verbatim>\<open>errors.As\<close>.  Integers are \<open>int\<close> with the
  wrap-around of their Go type written out (\<open>i32\<close>, \<open>i64\<close>, \<open>u32\<close>) where the code computes; CPU amounts are IEEE
  doubles (\<open>Float64\<close>).  The clock, generated identifiers, the process environment and the outcome of calls
  to a library are arguments.

  \<^bold>\<open>Vocabulary.\<close>  \<open>Orion_Prelude\<close> holds the Go values and library functions the code uses and the generic
  lemmas on them (sorting by a \<^verbatim>\<open>less\<close> function, keyed lists); \<open>Float64\<close> the double arithmetic; \<open>Page_Token\<close>
  \<^verbatim>\<open>strconv\<close>, base64 and the offset tokens of the in-memory listings; \<open>Timestamps\<close> the RFC 3339 format of
  the database tokens.

  \<^bold>\<open>Jobs\<close> (\<^verbatim>\<open>src/internal/jobs\<close>).  \<open>Jobs\<close> has the types, validation and identifiers; \<open>Job_Repository\<close> the
  interface, the laws \<open>job_store\<close> and \<open>job_repository\<close>, and \<^verbatim>\<open>MemoryRepository\<close>; \<open>Job_Service\<close> every method
  of the service; \<open>Job_Lifecycle\<close> the state diagram as a relation, the job invariant and runs of the
  service; \<open>Job_Recovery\<close> the recovery loop of \<^verbatim>\<open>LoseWorker\<close>.  \<open>Job_Properties\<close> shows: validation decides,
  submissions are idempotent, every call moves a job along an edge of the diagram, the invariant holds in
  every run, terminal jobs stay as they are, failures are accounted for, losing a worker recovers exactly
  its jobs, paging is complete and ends.

  \<^bold>\<open>Workers and leases\<close> (\<^verbatim>\<open>src/internal/workers\<close>, \<^verbatim>\<open>src/internal/leases\<close>).  \<open>Workers\<close>, \<open>Leases\<close>,
  \<open>Worker_Service\<close> and \<open>Worker_Loss\<close> have the types, repositories, both lease managers, the service and the
  watch loop with the callback of \<^verbatim>\<open>cmd/api/main.go\<close>.  \<open>Worker_Properties\<close> shows that records and leases
  agree in every run, that heartbeats heal, and that an expired lease ends in recovered jobs.

  \<^bold>\<open>Scheduling\<close> (\<^verbatim>\<open>src/internal/scheduler\<close>).  \<open>Scheduler\<close> has aging, committed capacity, \<^verbatim>\<open>Plan\<close> and
  \<^verbatim>\<open>PlanPreemptions\<close>; \<open>Scheduler_Service\<close> the pass and the decision log.  \<open>Placement\<close>, \<open>Capacity\<close>,
  \<open>Plan_Safety\<close>, \<open>Plan_Fairness\<close>, \<open>Gang_Placement\<close> and \<open>Preemption\<close> prove safety and fairness of a plan once
  per resource through the locale \<open>capacity_measure\<close>.  \<open>Cluster\<close> interleaves the calls of clients and
  workers with the single writes of schedulers; \<open>Samples\<close> and \<open>Scenarios\<close> are concrete runs.

  \<^bold>\<open>Persistence\<close> (\<^verbatim>\<open>src/internal/persistence\<close>, \<^verbatim>\<open>src/migrations\<close>).  \<open>Postgres\<close> has the statements of the
  package with a reference semantics on tables, the constraints of the schema, and the hypothesis
  \<open>postgres\<close> that the server behaves so, which \<open>plain_pool\<close> satisfies.  \<open>Postgres_Jobs\<close>, \<open>Postgres_Workers\<close>
  and \<open>Postgres_Decisions\<close> translate the repositories.  \<open>Postgres_Contract\<close>, \<open>Postgres_Listing\<close>,
  \<open>Postgres_History\<close> and \<open>Postgres_Memory\<close> show that the job repository keeps the contract of \<open>job_store\<close>,
  pages completely, logs every change of state, and answers like the in-memory one; \<open>Postgres_Fleet\<close> that
  the worker repository keeps a list of workers with their GPUs.

  \<^bold>\<open>Servers and processes\<close> (\<^verbatim>\<open>src/internal/api\<close>, \<^verbatim>\<open>src/internal/config\<close>, \<^verbatim>\<open>src/internal/health\<close>,
  \<^verbatim>\<open>src/cmd\<close>).  \<open>Job_Api\<close> and \<open>Worker_Api\<close> have the gRPC handlers and conversions, \<open>Http\<close> the middleware and
  health routes, \<open>Service_Config\<close> the configuration, \<open>Startup\<close> the start and end of both processes,
  \<open>Election\<close> the election loop as a step relation of any number of candidates against an etcd that keeps
  \<open>election_service\<close>, \<open>Scheduler_Process\<close> the scheduling loop.  \<open>Api_Properties\<close> and \<open>Process_Properties\<close> have
  the status codes, the orders a heartbeat carries, the round trips over the wire, what configuration is
  accepted, what startup waits for, and how far the election excludes two leaders.

  \<^bold>\<open>Worker agent\<close> (\<^verbatim>\<open>src/worker\<close>, in Python).  \<open>Python_Values\<close> has what the agent uses of the language
  (\<^verbatim>\<open>int\<close>, \<^verbatim>\<open>float\<close>, \<^verbatim>\<open>strip\<close>, \<^verbatim>\<open>lower\<close> on ASCII text, exceptions as values); \<open>Executor\<close> the fake executor; \<open>Agent\<close>
  the fake inventory, the client's conversions, the waiting and registration loops, and \<open>agent_step\<close>, a step
  relation with one rule per atomic action of the heartbeat loop or of a job thread, against the handlers of
  \<open>Worker_Api\<close> and \<open>Job_Api\<close>, where a call may be lost before or after the server acts.  \<open>Agent_Runs\<close> follows
  one thread and one round of heartbeats; \<open>Agent_Config\<close> has the configuration and the start.
  \<open>Agent_Properties\<close> shows what the executor makes of a command, that every thread ends, that an assigned job
  reaches its outcome and a stop order ends a job when no call is lost, and three ways to leave a job hanging;
  \<open>Agent_Config\<close> which configurations the server registers, and that the chunked sleep returns.

  \<^bold>\<open>Properties across components\<close> are below: with one scheduler no interleaving overcommits a worker, and
  with two, or with a cancelled job that has not stopped yet, one is overcommitted; a job that fits is
  scheduled.

  \<^bold>\<open>Bounds.\<close>  Every function of the model is total but the agent's chunked sleep, which is shown to return
  for every time up to \<open>2 ^ 49\<close> seconds, more than any interval the server can send.  A job thread makes at most
  four steps more than its command has.  The two startup loops make ten probes as in the code;
  the scheduling loop and the watch loop run over the finite list of events they have received so far, and
  what is shown holds for every list.  Sums of memory and GPUs are exact below \<open>2 ^ 62\<close>; CPU amounts are
  exact for multiples of 1/1024 core, and the properties of CPU are stated for these.

  \<^bold>\<open>Not modelled.\<close>  Code generated by protoc (\<^verbatim>\<open>src/internal/api/gen\<close>, \<^verbatim>\<open>src/worker/gen\<close>): messages are
  records of the fields the code uses.  The REST gateway: a mux of generated handlers, a parameter of the
  handler chain.  The migration runner and the embedded files: one call into golang-migrate.  The JSON log
  handler, the HTTP and gRPC servers, pgx, the etcd client: libraries, present as parameters with the laws
  the code relies on.  Contexts are modelled where the code branches on their end and not as a reason for a
  library call to fail midway, which the error results of the parameters cover.  Of the agent, its log
  lines and the installation of signal handlers; the flag they set is an argument of the loops.  The frontend is a static
  page without logic; the shell scripts and container files are build tooling.
\<close>

section \<open>Capacity safety of the whole cluster\<close>

lemma new_store: "mem_jobs NewMemoryRepository = Map.empty"
  by (simp add: NewMemoryRepository_def)

text \<open>C1.  One scheduler never overcommits: in every interleaving of submissions, cancellations, worker
  reports, preemptions and losses with the reads and single writes of one scheduler, the memory and
  the GPUs held by the jobs on a worker stay within what it has.\<close>

theorem cluster_never_overcommits:
  assumes "cluster_run typed_request fleet 1 r pend" "distinct (map w_ID fleet)"
    "\<forall>v \<in> set fleet. mem_worker v \<and> gpu_worker v" "v \<in> set fleet"
  shows "demand_map MemoryBytes (w_ID v) (mem_jobs r) \<le> w_MemoryCapacityBytes v
    \<and> demand_map GPUCount (w_ID v) (mem_jobs r) \<le> int (length (elems (w_GPUs v)))"
proof -
  have "cluster_run mem_request fleet 1 r pend" "cluster_run gpu_request fleet 1 r pend"
    by (rule cluster_steps_mono [OF assms(1)], simp add: typed_request_def)+
  with mem_memory.cluster_run_safe [OF assms(2) _ _ mem_ok_new new_store assms(4)]
    mem_gpus.cluster_run_safe [OF assms(2) _ _ mem_ok_new new_store assms(4)] assms(3)
  show ?thesis by blast
qed

theorem cluster_never_overcommits_witness:
  "demand_map GPUCount ''w'' (mem_jobs (sample_store [on_w (unit_job ''a'' 1)])) \<le> 1"
proof -
  have "cluster_run typed_request full_worker 1 (sample_store [on_w (unit_job ''a'' 1)]) (\<lambda>_. [])"
    using one_scheduler_run unit_requests(1) by simp
  from cluster_never_overcommits [OF this full_worker_ids, of "hd full_worker"] show ?thesis
    by (simp add: full_worker_def sample_worker_def sound_defs)
qed

text \<open>The same for CPU, for requests and capacities in multiples of 1/1024 core, on which the
  \<^verbatim>\<open>float64\<close> sums of the scheduler are exact.\<close>

theorem cluster_never_overcommits_cpu:
  assumes "cluster_run cpu_request fleet 1 r pend" "distinct (map w_ID fleet)"
    "\<forall>v \<in> set fleet. cpu_worker v" "v \<in> set fleet"
  shows "demand_map cpu_units (w_ID v) (mem_jobs r) \<le> units (w_CPUCapacity v)"
  using mem_cpu.cluster_run_safe [OF assms(2) _ assms(1) mem_ok_new new_store assms(4)] assms(3) by blast

theorem cluster_never_overcommits_cpu_witness:
  "demand_map cpu_units ''w'' (mem_jobs (sample_store [on_w (unit_job ''a'' 1)])) \<le> 8 * 1024"
proof -
  have "cluster_run cpu_request full_worker 1 (sample_store [on_w (unit_job ''a'' 1)]) (\<lambda>_. [])"
    using one_scheduler_run unit_requests(2) by simp
  from cluster_never_overcommits_cpu [OF this full_worker_ids, of "hd full_worker"] show ?thesis
    by (simp add: full_worker_def sample_worker_def cpu_worker_def whole_def exact_cpu_fx)
qed

text \<open>What the jobs of a list hold.\<close>

lemma sample_store_demand:
  assumes "distinct (map job_ID js)"
  shows "demand_map amount k (mem_jobs (sample_store js)) = demand amount k js"
proof -
  have jobs: "mem_jobs (sample_store js) (job_ID j) = Some j" if "j \<in> set js" for j
    using that assms by (simp add: sample_store_def map_of_eq_Some_iff o_def)
  have "i \<in> job_ID ` set js" if "mem_jobs (sample_store js) i = Some j" for i j
    using map_of_SomeD [OF that] by (auto simp: sample_store_def)
  then have "holding (mem_jobs (sample_store js)) \<subseteq> job_ID ` set js" by (auto simp: holding_def)
  from demand_map_superset [OF _ this] have
    "demand_map amount k (mem_jobs (sample_store js)) =
       (\<Sum>i \<in> job_ID ` set js. stored_demand amount k (mem_jobs (sample_store js) i))" by simp
  also have "\<dots> = (\<Sum>j \<in> set js. job_demand amount k j)"
    using assms jobs by (subst sum.reindex) (simp_all add: distinct_map)
  finally show ?thesis using assms by (simp add: demand_def sum_list_distinct_conv_sum_set distinct_map)
qed

text \<open>Two schedulers at once can: when both read before either writes, different jobs reach the
  same last GPU, since the check at the write is per job and not per worker.  Leader election is what
  keeps the cluster to one scheduler.\<close>

theorem two_schedulers_overcommit:
  "\<exists>r pend. cluster_run typed_request full_worker 2 r pend
     \<and> demand_map GPUCount ''w'' (mem_jobs r) = 2 \<and> length (elems (w_GPUs (hd full_worker))) = 1"
proof -
  let ?r = "sample_store [on_w (unit_job ''a'' 1), on_w (unit_job ''b'' 2)]"
  obtain pend where "cluster_run typed_request full_worker 2 ?r pend"
    using two_scheduler_run unit_requests(1) by blast
  moreover have "demand_map GPUCount ''w'' (mem_jobs ?r) = 2"
    by (subst sample_store_demand)
      (simp_all add: demand_def job_demand_def assigned_job_def holds_capacity_def sample_request_def)
  ultimately show ?thesis by (force simp: full_worker_def sample_worker_def)
qed

text \<open>C40.  Capacity is given away before it is free: even with one scheduler, a job whose cancellation is
  requested but not confirmed, still executing on its worker, and a newly scheduled one can share
  that worker's only GPU.\<close>

theorem unconfirmed_stop_shares_gpu:
  "\<exists>r j j'. cluster_run typed_request full_worker 1 r (\<lambda>_. [])
     \<and> mem_jobs r ''a'' = Some j \<and> job_State j = StateCancelRequested
     \<and> mem_jobs r ''b'' = Some j' \<and> job_State j' = StateScheduled
     \<and> elems (job_AssignedWorkerIDs j) = [''w''] \<and> elems (job_AssignedWorkerIDs j') = [''w'']
     \<and> GPUCount (job_Resources j) = 1 \<and> GPUCount (job_Resources j') = 1
     \<and> length (elems (w_GPUs (hd full_worker))) = 1"
proof -
  let ?r = "sample_store [stopping_job, on_w (unit_job ''b'' 2)]"
  have "cluster_run typed_request full_worker 1 ?r (\<lambda>_. [])" using stopping_run unit_requests(1) by simp
  then show ?thesis
    by (intro exI [of _ ?r] exI [of _ stopping_job] exI [of _ "on_w (unit_job ''b'' 2)"])
      (simp add: sample_store_def stopping_job_def assigned_job_def sample_request_def full_worker_def sample_worker_def)
qed

section \<open>Progress\<close>

lemma sort_first:
  assumes "j \<in> set js" "\<And>i. i \<in> set js \<Longrightarrow> i \<noteq> j \<Longrightarrow> ep_less now j i"
  shows "\<exists>rest. sortByEffectivePriority now js = j # rest"
proof (cases "sortByEffectivePriority now js")
  case Nil
  then have "set (sortByEffectivePriority now js) = {}" by simp
  with assms(1) show ?thesis by (simp add: sortByEffectivePriority_def)
next
  case (Cons i rest)
  have "ordered_by (ep_less now) (i # rest)"
    using ep.ordered_sort [of now js] Cons by (simp add: sortByEffectivePriority_def)
  moreover have "set (i # rest) = set js" using Cons set_sort_slice unfolding sortByEffectivePriority_def by metis
  ultimately have "i = j" using assms(1) assms(2) [of i] by (metis insertE insertI1 list.set(2) sorted_wrt.simps(2))
  with Cons show ?thesis by blast
qed

text \<open>C29.  Progress: a pass schedules the first job of the order of effective priority whenever some
  active worker has room for it.\<close>

theorem first_fitting_job_is_scheduled:
  assumes "mem_ok r" "repo_ListActive memory_repository r = Inr js"
    "wrepo_ListActive worker_memory_repository w = Inr ws"
    "\<forall>j \<in> set js. distinct (elems (job_AssignedWorkerIDs j))"
    "j \<in> set js" "job_State j = StateQueued"
    "\<forall>i \<in> set js. job_State i = StateQueued \<and> i \<noteq> j \<longrightarrow> ep_less now j i"
    "v \<in> set ws" "eligible (job_Resources j) (committedByWorker js (w_ID v)) v"
    "RunOnce memory_repository worker_memory_repository memory_decisions enabled now (r, w, d) = ((e, result), r', w', d')"
  shows "\<exists>u \<in> set ws. w_Status u = StatusActive \<and> mem_jobs r' (job_ID j) = Some (assigned_job (w_ID u) j)"
proof -
  let ?q = "filter (\<lambda>j. job_State j = StateQueued) js"
  obtain xs where "repo_ListActive memory_repository r = Inr xs" "distinct (map job_ID xs)"
    "\<And>j. j \<in> set xs \<longleftrightarrow> mem_jobs r (job_ID j) = Some j \<and> \<not> Terminal (job_State j)"
    using mem.active_list [OF assms(1)] by metis
  with assms(2) have js: "distinct (map job_ID js)" "mem_jobs r (job_ID j) = Some j" using assms(5) by simp_all
  from sort_first [of j ?q now] assms(5-7) obtain rest where
    q: "sortByEffectivePriority now ?q = j # rest" by auto
  obtain k where k: "selectWorker j ws (committedByWorker js) = Some k"
    using selectWorker_None [of j ws "committedByWorker js"] assms(8,9) by blast
  from selectWorker_Some [OF k] obtain u where u: "u \<in> set ws" "w_ID u = k" "w_Status u = StatusActive"
    by (auto simp: eligible_def)
  have "target (Plan js ws now) (job_ID j) = Some k" by (simp add: Plan_def q k)
  with mem_pass.RunOnce_effect [OF assms(1-4,10)] js(2) u show ?thesis by (auto simp: pass_effect_def)
qed

theorem first_fitting_job_is_scheduled_witness:
  "\<exists>r' w' d' result. RunOnce memory_repository worker_memory_repository memory_decisions True 0
       (sample_store [unit_job ''a'' 1], worker_store full_worker, NewMemoryDecisionRepository) = ((None, result), r', w', d')
     \<and> mem_jobs r' ''a'' = Some (on_w (unit_job ''a'' 1))"
proof -
  obtain e result r' w' d' where run: "RunOnce memory_repository worker_memory_repository memory_decisions True 0
       (sample_store [unit_job ''a'' 1], worker_store full_worker, NewMemoryDecisionRepository) = ((e, result), r', w', d')"
    by (metis prod.collapse)
  have ok: "mem_ok (sample_store [unit_job ''a'' 1])" by (rule sample_store_ok) simp_all
  have js: "repo_ListActive memory_repository (sample_store [unit_job ''a'' 1]) = Inr [unit_job ''a'' 1]"
    by (simp add: unit_listings)
  have ws: "wrepo_ListActive worker_memory_repository (worker_store full_worker) = Inr full_worker"
    by (simp add: wmem_ListActive_def worker_store_def full_worker_def sample_worker_def)
  have "eligible (job_Resources (unit_job ''a'' 1)) (committedByWorker [unit_job ''a'' 1] (w_ID (hd full_worker))) (hd full_worker)"
    by (simp add: plan_eval sample_defs full_worker_def)
  from first_fitting_job_is_scheduled [OF ok js ws _ _ _ _ _ this run] have
    "mem_jobs r' ''a'' = Some (on_w (unit_job ''a'' 1))" by (simp add: full_worker_def sample_worker_def)
  moreover have "e = None" using mem_pass.RunOnce_effect [OF ok js ws _ run] by simp
  ultimately show ?thesis using run by blast
qed

end
